(* ===== verification/ZT_Prelude.thy ===== *)
theory ZT_Prelude
  imports Complex_Main "HOL-Library.Multiset" "HOL-Library.Char_ord" "HOL-Library.List_Lexorder"
begin

text \<open>
  Shared vocabulary of the development.
  \<^item> Python exceptions (\<open>exn\<close>) and results \<open>'a res\<close>: \<open>Inl\<close> is a raise, \<open>Inr\<close> a return.
  \<^item> The contract of a frozen dataclass whose \<open>__post_init__\<close> validates its fields
    (locale \<open>validated_record\<close>), interpreted once per configuration class.
  \<^item> Generic facts on lists used by several components: columns of a stack of vectors,
    order statistics of a sorted list, counting, concatenations that partition an index range.
\<close>

section \<open>Exceptions and results\<close>

datatype exn =
    ValueError string
  | TypeError string
  | RuntimeError string
  | TimeoutError string
  | FloatingPointError string
  | ZeroDivisionError
  | OverflowError
  | IndexError
  | AssertionError
  | StructError
  | SSLCertVerificationError string
  | RpcError string
  | SystemExit string
  | OSError string
  | FutureTimeoutError
  | KeyError string
  | OrchestratorError string
  | KeyboardInterrupt
  | ImportError string
  | AttributeError string

type_synonym 'a res = "exn + 'a"

fun res_bind :: "'a res \<Rightarrow> ('a \<Rightarrow> 'b res) \<Rightarrow> 'b res" where
  "res_bind (Inl e) f = Inl e"
| "res_bind (Inr x) f = f x"

fun is_ok :: "'a res \<Rightarrow> bool" where
  "is_ok (Inl e) = False"
| "is_ok (Inr x) = True"

text \<open>A comprehension whose body may raise: evaluated left to right, the first raise wins.\<close>

fun res_map :: "('a \<Rightarrow> 'b res) \<Rightarrow> 'a list \<Rightarrow> 'b list res" where
  "res_map f [] = Inr []"
| "res_map f (x # xs) = res_bind (f x) (\<lambda>y. res_bind (res_map f xs) (\<lambda>ys. Inr (y # ys)))"

named_theorems res_simps \<open>equations of the result monad\<close>
named_theorems config_defs \<open>definitions of the configuration validators\<close>

lemma res_bind_Inr_iff [res_simps]:
  "res_bind m f = Inr y \<longleftrightarrow> (\<exists>x. m = Inr x \<and> f x = Inr y)"
  by (cases m) auto

lemma res_bind_Inl_iff [res_simps]:
  "res_bind m f = Inl e \<longleftrightarrow> m = Inl e \<or> (\<exists>x. m = Inr x \<and> f x = Inl e)"
  by (cases m) auto

lemma is_ok_iff [res_simps]: "is_ok m \<longleftrightarrow> (\<exists>x. m = Inr x)"
  by (cases m) auto

lemma res_bind_Inr_right [simp]: "res_bind m Inr = m"
  by (cases m) auto

lemma res_map_Inr_length: "res_map f xs = Inr ys \<Longrightarrow> length ys = length xs"
  by (induction xs arbitrary: ys) (auto simp: res_simps)

lemma res_map_Inr_nth:
  "res_map f xs = Inr ys \<Longrightarrow> i < length xs \<Longrightarrow> f (xs ! i) = Inr (ys ! i)"
proof (induction xs arbitrary: ys i)
  case Nil
  then show ?case by simp
next
  case (Cons x xs)
  then show ?case by (cases i) (auto simp: res_simps)
qed

lemma res_map_all_Inr: "(\<And>x. x \<in> set xs \<Longrightarrow> f x = Inr (g x)) \<Longrightarrow> res_map f xs = Inr (map g xs)"
  by (induction xs) auto

section \<open>Validated configuration records\<close>

text \<open>
  A frozen dataclass is built by running \<open>__post_init__\<close> on its fields. \<open>validate\<close> is that method;
  \<open>wf\<close> says in one formula which field values it lets through.
\<close>

locale validated_record =
  fixes validate :: "'c \<Rightarrow> unit res"
    and wf :: "'c \<Rightarrow> bool"
  assumes validate_iff: "validate c = Inr () \<longleftrightarrow> wf c"
begin

lemma rejects_iff: "(\<exists>e. validate c = Inl e) \<longleftrightarrow> \<not> wf c"
proof (cases "validate c")
  case (Inl e)
  then show ?thesis using validate_iff [of c] by auto
next
  case (Inr u)
  then show ?thesis using validate_iff [of c] by auto
qed

lemma construct_Inr:
  assumes "res_bind (validate c) (\<lambda>_. Inr (k c)) = Inr d"
  shows "wf c \<and> d = k c"
  using assms validate_iff [of c] by (cases "validate c") auto

lemma construct_ok: "wf c \<Longrightarrow> res_bind (validate c) (\<lambda>_. Inr (k c)) = Inr (k c)"
  using validate_iff [of c] by simp

end

section \<open>Lists\<close>

lemma length_filter_split:
  "length (filter P xs) + length (filter (\<lambda>x. \<not> P x) xs) = length xs"
  by (induction xs) auto

lemma sort_strict_bound:
  fixes xs :: "'a::linorder list"
  assumes "sorted xs" "i < length xs"
  shows "Suc i \<le> length (filter (\<lambda>x. x \<le> xs ! i) xs)"
proof -
  have all: "\<forall>x \<in> set (take (Suc i) xs). x \<le> xs ! i"
  proof
    fix x assume "x \<in> set (take (Suc i) xs)"
    then obtain j where "j < length (take (Suc i) xs)" "x = take (Suc i) xs ! j"
      by (metis in_set_conv_nth)
    then show "x \<le> xs ! i" using assms by (auto intro: sorted_nth_mono)
  qed
  have "filter (\<lambda>x. x \<le> xs ! i) xs =
      filter (\<lambda>x. x \<le> xs ! i) (take (Suc i) xs) @ filter (\<lambda>x. x \<le> xs ! i) (drop (Suc i) xs)"
    by (metis append_take_drop_id filter_append)
  also have "filter (\<lambda>x. x \<le> xs ! i) (take (Suc i) xs) = take (Suc i) xs"
    using all by simp
  finally have "length (take (Suc i) xs) \<le> length (filter (\<lambda>x. x \<le> xs ! i) xs)"
    by simp
  then show ?thesis using assms by simp
qed

lemma distinct_concat_nth_eq:
  assumes "distinct (concat xss)" "c < length xss" "d < length xss"
    and "x \<in> set (xss ! c)" "x \<in> set (xss ! d)"
  shows "c = d"
  using assms
proof (induction xss arbitrary: c d)
  case Nil
  then show ?case by simp
next
  case (Cons xs xss)
  have "x \<notin> set xs" if "e < length xss" "x \<in> set (xss ! e)" for e
    using that Cons.prems(1) nth_mem by fastforce
  with Cons show ?case by (cases c; cases d) auto
qed

lemma foldr_min_less: "foldr min xs a < (b::'a::linorder) \<longleftrightarrow> a < b \<or> (\<exists>x \<in> set xs. x < b)"
  by (induction xs) (auto simp: min_less_iff_disj)

lemma foldr_max_ge: "(b::'a::linorder) \<le> foldr max xs a \<longleftrightarrow> b \<le> a \<or> (\<exists>x \<in> set xs. b \<le> x)"
  by (induction xs) (auto simp: le_max_iff_disj)

text \<open>Splitting a multiset by the value of a key.\<close>

lemma sum_filter_keys:
  assumes "distinct ks"
  shows "(\<Sum>k\<leftarrow>ks. filter_mset (\<lambda>i. f i = k) M) = filter_mset (\<lambda>i. f i \<in> set ks) M"
  using assms
proof (induction ks)
  case Nil
  then show ?case by simp
next
  case (Cons k ks)
  then have "filter_mset (\<lambda>i. f i = k) M + filter_mset (\<lambda>i. f i \<in> set ks) M
      = filter_mset (\<lambda>i. f i \<in> set (k # ks)) M"
    by (auto simp: multiset_eq_iff)
  with Cons show ?case by simp
qed

section \<open>Integers as text\<close>

text \<open>A readable notation for integers: the concrete instances of the libraries save their objects in it.\<close>

definition write_int :: "int \<Rightarrow> string" where
  "write_int k = (if k < 0 then ''-'' else []) @ replicate (nat \<bar>k\<bar>) (CHR ''x'') @ '';''"

fun read_ints :: "nat \<Rightarrow> bool \<Rightarrow> string \<Rightarrow> int list" where
  "read_ints n negative [] = []"
| "read_ints n negative (c # cs) =
     (if c = CHR '';'' then (if negative then - int n else int n) # read_ints 0 False cs
      else if c = CHR ''-'' then read_ints n True cs
      else read_ints (Suc n) negative cs)"

lemma read_write_int:
  "read_ints 0 False (write_int k @ s) = k # read_ints 0 False s"
proof -
  have "read_ints n b (replicate j (CHR ''x'') @ '';'' @ s) = (if b then - int (n + j) else int (n + j)) # read_ints 0 False s" for n b j
    by (induction j arbitrary: n) auto
  from this [of 0 True "nat \<bar>k\<bar>"] this [of 0 False "nat \<bar>k\<bar>"] show ?thesis
    by (auto simp: write_int_def)
qed

lemma read_write_ints: "read_ints 0 False (concat (map write_int ks)) = ks"
  by (induction ks) (simp_all add: read_write_int)

end
