(* ===== verification/IEEE_Float.thy ===== *)
theory IEEE_Float
  imports ZT_Prelude
begin

text \<open>
  IEEE-754 arithmetic as Python \<open>float\<close> (binary64) and \<open>torch.float32\<close> (binary32) use it:
  a value is a real, an infinity or NaN, and an operation rounds the exact result to nearest,
  ties to even, overflowing to an infinity. Signed zeros are identified.
  The facts proved here are the ones the components rest on: rounding never crosses a
  representable number, and it fixes every representable number.
\<close>

section \<open>Values\<close>

datatype fl = Fin real | PInf | NInf | NaN

fun is_fin :: "fl \<Rightarrow> bool" where
  "is_fin (Fin x) = True"
| "is_fin _ = False"

fun val :: "fl \<Rightarrow> real" where
  "val (Fin x) = x"
| "val _ = 0"

lemma is_fin_iff: "is_fin x \<longleftrightarrow> x = Fin (val x)"
  by (cases x) auto

lemma is_finE:
  assumes "is_fin x"
  obtains r where "x = Fin r"
  using assms by (cases x) auto

text \<open>Comparisons: every comparison with NaN is false.\<close>

fun fl_less :: "fl \<Rightarrow> fl \<Rightarrow> bool" where
  "fl_less NaN _ = False"
| "fl_less _ NaN = False"
| "fl_less (Fin x) (Fin y) = (x < y)"
| "fl_less NInf NInf = False"
| "fl_less NInf _ = True"
| "fl_less _ NInf = False"
| "fl_less PInf _ = False"
| "fl_less (Fin x) PInf = True"

fun fl_le :: "fl \<Rightarrow> fl \<Rightarrow> bool" where
  "fl_le NaN _ = False"
| "fl_le _ NaN = False"
| "fl_le (Fin x) (Fin y) = (x \<le> y)"
| "fl_le NInf _ = True"
| "fl_le _ NInf = False"
| "fl_le _ PInf = True"
| "fl_le PInf (Fin x) = False"

text \<open>\<open>==\<close> on floats.\<close>

definition fl_eq :: "fl \<Rightarrow> fl \<Rightarrow> bool" where
  "fl_eq x y \<longleftrightarrow> x \<noteq> NaN \<and> x = y"

text \<open>Python's \<open>max(a, b)\<close> and \<open>min(a, b)\<close>: the first argument unless the second is strictly better.\<close>

definition py_max :: "fl \<Rightarrow> fl \<Rightarrow> fl" where
  "py_max a b = (if fl_less a b then b else a)"

definition py_min :: "fl \<Rightarrow> fl \<Rightarrow> fl" where
  "py_min a b = (if fl_less b a then b else a)"

lemma fl_le_Fin [simp]: "fl_le (Fin x) (Fin y) \<longleftrightarrow> x \<le> y"
  by simp

lemma fl_le_trans: "fl_le x y \<Longrightarrow> fl_le y z \<Longrightarrow> fl_le x z"
  by (cases x; cases y; cases z) auto

lemma fl_between_Fin:
  assumes "fl_le (Fin a) x" "fl_le x (Fin b)"
  obtains r where "x = Fin r" "a \<le> r" "r \<le> b"
  using assms by (cases x) auto

section \<open>Formats and rounding\<close>

record fmt =
  prec :: nat   \<comment> \<open>bits of the significand\<close>
  emin :: int   \<comment> \<open>least exponent of the last place\<close>
  etop :: int   \<comment> \<open>greatest exponent of the last place\<close>

definition binary64 :: fmt where
  "binary64 = \<lparr>prec = 53, emin = -1074, etop = 971\<rparr>"

definition binary32 :: fmt where
  "binary32 = \<lparr>prec = 24, emin = -149, etop = 104\<rparr>"

definition binary16 :: fmt where
  "binary16 = \<lparr>prec = 11, emin = -24, etop = 5\<rparr>"

definition round_even :: "real \<Rightarrow> int" where
  "round_even x =
     (let f = \<lfloor>x\<rfloor>; d = x - of_int f
      in if d < 1 / 2 \<or> (d = 1 / 2 \<and> even f) then f else f + 1)"

text \<open>The exponent of the last place of \<open>x\<close>: the least one at which its significand fits.\<close>

definition ulp_exp :: "fmt \<Rightarrow> real \<Rightarrow> int option" where
  "ulp_exp F x = find (\<lambda>e. \<bar>x\<bar> < 2 powi (e + int (prec F))) [emin F..etop F]"

definition overflow :: "real \<Rightarrow> fl" where
  "overflow x = (if 0 < x then PInf else NInf)"

definition rnd :: "fmt \<Rightarrow> real \<Rightarrow> fl" where
  "rnd F x =
     (case ulp_exp F x of
        None \<Rightarrow> overflow x
      | Some e \<Rightarrow>
          (let y = of_int (round_even (x / 2 powi e)) * 2 powi e
           in if 2 powi (etop F + int (prec F)) \<le> \<bar>y\<bar> then overflow x else Fin y))"

definition representable :: "fmt \<Rightarrow> real \<Rightarrow> bool" where
  "representable F y \<longleftrightarrow>
     (\<exists>m e. y = of_int m * 2 powi e \<and> \<bar>m\<bar> < 2 ^ prec F \<and> emin F \<le> e \<and> e \<le> etop F)"

section \<open>Arithmetic\<close>

fun fl_neg :: "fl \<Rightarrow> fl" where
  "fl_neg (Fin x) = Fin (- x)"
| "fl_neg PInf = NInf"
| "fl_neg NInf = PInf"
| "fl_neg NaN = NaN"

fun fl_add :: "fmt \<Rightarrow> fl \<Rightarrow> fl \<Rightarrow> fl" where
  "fl_add F (Fin x) (Fin y) = rnd F (x + y)"
| "fl_add F NaN _ = NaN"
| "fl_add F _ NaN = NaN"
| "fl_add F PInf NInf = NaN"
| "fl_add F NInf PInf = NaN"
| "fl_add F PInf _ = PInf"
| "fl_add F _ PInf = PInf"
| "fl_add F NInf _ = NInf"
| "fl_add F _ NInf = NInf"

definition fl_sub :: "fmt \<Rightarrow> fl \<Rightarrow> fl \<Rightarrow> fl" where
  "fl_sub F x y = fl_add F x (fl_neg y)"

definition sgn_inf :: "real \<Rightarrow> fl" where
  "sgn_inf x = (if 0 < x then PInf else if x < 0 then NInf else NaN)"

fun fl_mul :: "fmt \<Rightarrow> fl \<Rightarrow> fl \<Rightarrow> fl" where
  "fl_mul F (Fin x) (Fin y) = rnd F (x * y)"
| "fl_mul F NaN _ = NaN"
| "fl_mul F _ NaN = NaN"
| "fl_mul F (Fin x) PInf = sgn_inf x"
| "fl_mul F (Fin x) NInf = sgn_inf (- x)"
| "fl_mul F PInf (Fin y) = sgn_inf y"
| "fl_mul F NInf (Fin y) = sgn_inf (- y)"
| "fl_mul F PInf PInf = PInf"
| "fl_mul F NInf NInf = PInf"
| "fl_mul F _ _ = NInf"

text \<open>Division of tensors: a zero divisor gives an infinity or NaN (of the dividend's sign).\<close>

fun fl_div :: "fmt \<Rightarrow> fl \<Rightarrow> fl \<Rightarrow> fl" where
  "fl_div F (Fin x) (Fin y) = (if y = 0 then sgn_inf x else rnd F (x / y))"
| "fl_div F NaN _ = NaN"
| "fl_div F _ NaN = NaN"
| "fl_div F (Fin x) _ = Fin 0"
| "fl_div F PInf (Fin y) = (if y < 0 then NInf else PInf)"
| "fl_div F NInf (Fin y) = (if y < 0 then PInf else NInf)"
| "fl_div F _ _ = NaN"

text \<open>Division of Python floats raises on a zero divisor.\<close>

definition py_div :: "fl \<Rightarrow> fl \<Rightarrow> fl res" where
  "py_div x y = (if y = Fin 0 then Inl ZeroDivisionError else Inr (fl_div binary64 x y))"

abbreviation py_add :: "fl \<Rightarrow> fl \<Rightarrow> fl" where
  "py_add \<equiv> fl_add binary64"

abbreviation py_sub :: "fl \<Rightarrow> fl \<Rightarrow> fl" where
  "py_sub \<equiv> fl_sub binary64"

abbreviation py_mul :: "fl \<Rightarrow> fl \<Rightarrow> fl" where
  "py_mul \<equiv> fl_mul binary64"

abbreviation f32_add :: "fl \<Rightarrow> fl \<Rightarrow> fl" where
  "f32_add \<equiv> fl_add binary32"

abbreviation f32_sub :: "fl \<Rightarrow> fl \<Rightarrow> fl" where
  "f32_sub \<equiv> fl_sub binary32"

abbreviation f32_mul :: "fl \<Rightarrow> fl \<Rightarrow> fl" where
  "f32_mul \<equiv> fl_mul binary32"

abbreviation f32_div :: "fl \<Rightarrow> fl \<Rightarrow> fl" where
  "f32_div \<equiv> fl_div binary32"

text \<open>Conversion of a value to a format, \<open>float(int)\<close>, \<open>math.floor\<close> and \<open>math.ceil\<close>.\<close>

fun to_fmt :: "fmt \<Rightarrow> fl \<Rightarrow> fl" where
  "to_fmt F (Fin x) = rnd F x"
| "to_fmt F x = x"

definition py_float :: "int \<Rightarrow> fl" where
  "py_float n = rnd binary64 (of_int n)"

text \<open>\<open>float(n)\<close>, also implicit in mixed arithmetic, and \<open>a / b\<close> on integers.\<close>

definition py_int_float :: "int \<Rightarrow> fl res" where
  "py_int_float n = (if is_fin (py_float n) then Inr (py_float n) else Inl OverflowError)"

definition py_truediv :: "int \<Rightarrow> int \<Rightarrow> fl res" where
  "py_truediv a b =
     (if b = 0 then Inl ZeroDivisionError
      else let q = rnd binary64 (of_int a / of_int b) in if is_fin q then Inr q else Inl OverflowError)"

text \<open>\<open>math.sqrt\<close> of a non-negative value.\<close>

fun py_sqrt :: "fl \<Rightarrow> fl res" where
  "py_sqrt (Fin x) = (if x < 0 then Inl (ValueError ''math domain error'') else Inr (rnd binary64 (sqrt x)))"
| "py_sqrt NInf = Inl (ValueError ''math domain error'')"
| "py_sqrt x = Inr x"

fun py_floor :: "fl \<Rightarrow> int res" where
  "py_floor (Fin x) = Inr \<lfloor>x\<rfloor>"
| "py_floor NaN = Inl (ValueError ''cannot convert float NaN to integer'')"
| "py_floor _ = Inl OverflowError"

fun py_ceil :: "fl \<Rightarrow> int res" where
  "py_ceil (Fin x) = Inr \<lceil>x\<rceil>"
| "py_ceil NaN = Inl (ValueError ''cannot convert float NaN to integer'')"
| "py_ceil _ = Inl OverflowError"

section \<open>Rounding to an integer\<close>

lemma round_even_of_int [simp]: "round_even (of_int n) = n"
  by (simp add: round_even_def)

lemma round_even_le_of_int: "x \<le> of_int n \<Longrightarrow> round_even x \<le> n"
proof -
  assume x: "x \<le> of_int n"
  show ?thesis
  proof (cases "\<lfloor>x\<rfloor> < n")
    case True
    then show ?thesis by (simp add: round_even_def Let_def)
  next
    case False
    with x have "x = of_int n" by linarith
    then show ?thesis by simp
  qed
qed

lemma round_even_ge_of_int: "of_int n \<le> x \<Longrightarrow> n \<le> round_even x"
  unfolding round_even_def Let_def by (simp add: le_floor_iff) linarith

lemma round_even_uminus: "round_even (- x) = - round_even x"
proof (cases "x = of_int \<lfloor>x\<rfloor>")
  case True
  then show ?thesis by (metis of_int_minus round_even_of_int)
next
  case False
  define f where "f = \<lfloor>x\<rfloor>"
  have b: "of_int f < x" "x < of_int f + 1"
    using False by (auto simp: f_def less_le) linarith
  have fm: "\<lfloor>- x\<rfloor> = - f - 1"
    using b by (simp add: floor_eq_iff)
  show ?thesis
    using b unfolding round_even_def Let_def fm f_def [symmetric]
    by (auto simp: field_simps)
qed

section \<open>Rounding to a format\<close>

lemma ulp_exp_Some:
  assumes "ulp_exp F x = Some e"
  shows "\<bar>x\<bar> < 2 powi (e + int (prec F))" "emin F \<le> e" "e \<le> etop F"
    and "e = emin F \<or> 2 powi (e - 1 + int (prec F)) \<le> \<bar>x\<bar>"
proof -
  let ?P = "\<lambda>e. \<bar>x\<bar> < 2 powi (e + int (prec F))"
  obtain i where i: "i < length [emin F..etop F]" "?P ([emin F..etop F] ! i)"
      "e = [emin F..etop F] ! i" "\<forall>j<i. \<not> ?P ([emin F..etop F] ! j)"
    using assms by (auto simp: ulp_exp_def find_Some_iff)
  have e: "e = emin F + int i" using i(1,3) by simp
  show "\<bar>x\<bar> < 2 powi (e + int (prec F))" using i(2,3) by simp
  show "emin F \<le> e" "e \<le> etop F" using e i(1) by auto
  show "e = emin F \<or> 2 powi (e - 1 + int (prec F)) \<le> \<bar>x\<bar>"
  proof (cases i)
    case 0
    then show ?thesis using e by simp
  next
    case (Suc j)
    then have "[emin F..etop F] ! j = e - 1" using e i(1) by simp
    then show ?thesis using i(4) Suc by (metis lessI not_less)
  qed
qed

lemma ulp_exp_None:
  assumes "ulp_exp F x = None" "emin F \<le> etop F"
  shows "2 powi (etop F + int (prec F)) \<le> \<bar>x\<bar>"
  using assms by (auto simp: ulp_exp_def find_None_iff not_less)

lemma powi_split: "(2::real) powi (a + int n) = 2 powi a * 2 ^ n"
  by (simp add: power_int_add)

lemma powi_mono2: "a \<le> b \<Longrightarrow> (2::real) powi a \<le> 2 powi b"
  by (simp add: power_int_increasing)

lemma representable_bound:
  assumes "representable F z"
  shows "\<bar>z\<bar> < 2 powi (etop F + int (prec F))"
proof -
  obtain m e where z: "z = of_int m * 2 powi e" "\<bar>m\<bar> < 2 ^ prec F" "e \<le> etop F"
    using assms by (auto simp: representable_def)
  have "\<bar>z\<bar> = of_int \<bar>m\<bar> * 2 powi e" using z(1) by (simp add: abs_mult)
  also have "\<dots> < 2 ^ prec F * 2 powi e"
    using z(2) by (metis mult_strict_right_mono of_int_less_iff of_int_numeral of_int_power zero_less_numeral zero_less_power_int)
  also have "\<dots> \<le> 2 ^ prec F * 2 powi etop F"
    using powi_mono2 [OF z(3)] by simp
  finally show ?thesis by (simp add: powi_split mult.commute)
qed

lemma representable_uminus: "representable F z \<Longrightarrow> representable F (- z)"
  unfolding representable_def by (metis abs_minus_cancel mult_minus_left of_int_minus)

text \<open>The scaled significand of \<open>x\<close> is compared with \<open>z\<close> on the grid of \<open>x\<close>.\<close>

lemma grid_le:
  assumes e: "ulp_exp F x = Some e" and z: "representable F z" and le: "x \<le> z"
    and p: "0 < prec F"
  shows "of_int (round_even (x / 2 powi e)) * 2 powi e \<le> z"
proof -
  note ue = ulp_exp_Some [OF e]
  obtain m k where zk: "z = of_int m * 2 powi k" "\<bar>m\<bar> < 2 ^ prec F" "emin F \<le> k"
    using z by (auto simp: representable_def)
  have pos: "(0::real) < 2 powi e" by simp
  have scale: "round_even (x / 2 powi e) \<le> n \<Longrightarrow>
      of_int (round_even (x / 2 powi e)) * 2 powi e \<le> of_int n * (2::real) powi e" for n
    by (simp add: mult_right_mono)
  show ?thesis
  proof (cases "e \<le> k")
    case True
    define n where "n = m * 2 ^ nat (k - e)"
    have zn: "z = of_int n * 2 powi e"
    proof -
      have "k = e + int (nat (k - e))" using True by simp
      then have "(2::real) powi k = 2 powi e * 2 ^ nat (k - e)" by (metis powi_split)
      then show ?thesis using zk(1) by (simp add: n_def)
    qed
    then have "x / 2 powi e \<le> of_int n" using le pos by (simp add: divide_le_eq)
    then show ?thesis using round_even_le_of_int scale zn by blast
  next
    case False
    with ue(2,4) zk(3) have big: "2 powi (e - 1 + int (prec F)) \<le> \<bar>x\<bar>" by auto
    have "\<bar>z\<bar> = of_int \<bar>m\<bar> * 2 powi k" using zk(1) by (simp add: abs_mult)
    also have "\<dots> < 2 ^ prec F * 2 powi k"
      using zk(2) by (metis mult_strict_right_mono of_int_less_iff of_int_numeral of_int_power zero_less_numeral zero_less_power_int)
    also have "\<dots> \<le> 2 ^ prec F * 2 powi (e - 1)" using False powi_mono2 [of k "e - 1"] by simp
    finally have zb: "\<bar>z\<bar> < 2 powi (e - 1 + int (prec F))" by (simp add: powi_split mult.commute)
    with big le have xn: "x \<le> - (2 powi (e - 1 + int (prec F)))" by linarith
    define n :: int where "n = - (2 ^ (prec F - 1))"
    have "e - 1 + int (prec F) = e + int (prec F - 1)" using p by simp
    then have pn: "- (2 powi (e - 1 + int (prec F))) = of_int n * (2::real) powi e"
      by (simp only: powi_split n_def) simp
    then have "x / 2 powi e \<le> of_int n" using xn pos by (simp add: divide_le_eq)
    then have "of_int (round_even (x / 2 powi e)) * (2::real) powi e \<le> of_int n * 2 powi e"
      using round_even_le_of_int scale by blast
    then have "of_int (round_even (x / 2 powi e)) * (2::real) powi e \<le> - (2 powi (e - 1 + int (prec F)))"
      by (simp only: pn)
    then show ?thesis using zb by linarith
  qed
qed

lemma ulp_exp_uminus [simp]: "ulp_exp F (- x) = ulp_exp F x"
  by (simp add: ulp_exp_def)

lemma rnd_uminus:
  assumes "x \<noteq> 0"
  shows "rnd F (- x) = fl_neg (rnd F x)"
  using assms
  by (auto simp: rnd_def overflow_def round_even_uminus Let_def split: option.splits)

definition fmt_ok :: "fmt \<Rightarrow> bool" where
  "fmt_ok F \<longleftrightarrow> 0 < prec F \<and> emin F \<le> etop F"

lemma fmt_ok_binary [simp]: "fmt_ok binary64" "fmt_ok binary32" "fmt_ok binary16"
  by (simp_all add: fmt_ok_def binary64_def binary32_def binary16_def)

text \<open>Rounding never crosses a representable number.\<close>

lemma rnd_le:
  assumes F: "fmt_ok F" and z: "representable F z" and le: "x \<le> z"
  shows "fl_le (rnd F x) (Fin z)"
proof (cases "ulp_exp F x")
  case None
  then have "2 powi (etop F + int (prec F)) \<le> \<bar>x\<bar>"
    using F ulp_exp_None by (simp add: fmt_ok_def)
  then have "x < 0" using representable_bound [OF z] le by linarith
  then show ?thesis using None by (simp add: rnd_def overflow_def)
next
  case (Some e)
  let ?y = "of_int (round_even (x / 2 powi e)) * (2::real) powi e"
  have y: "?y \<le> z" using grid_le [OF Some z le] F by (simp add: fmt_ok_def)
  show ?thesis
  proof (cases "2 powi (etop F + int (prec F)) \<le> \<bar>?y\<bar>")
    case True
    have "?y < 0" using True y representable_bound [OF z] by linarith
    have "round_even (x / 2 powi e) < 0"
      using \<open>?y < 0\<close> by (metis mult_nonneg_nonneg not_less of_int_0_le_iff zero_le_numeral zero_le_power_int)
    moreover have "0 \<le> round_even (x / 2 powi e)" if "0 < x"
      by (rule round_even_ge_of_int) (use that in simp)
    ultimately have "\<not> 0 < x" by fastforce
    then show ?thesis using Some True by (simp add: rnd_def overflow_def)
  next
    case False
    then show ?thesis using Some y by (simp add: rnd_def)
  qed
qed

lemma rnd_zero: "fmt_ok F \<Longrightarrow> rnd F 0 = Fin 0"
proof -
  assume F: "fmt_ok F"
  have u: "ulp_exp F 0 \<noteq> None"
    using F by (auto simp: ulp_exp_def find_None_iff fmt_ok_def)
  have "\<not> (2::real) powi k \<le> 0" for k by (simp add: not_le)
  with u show ?thesis by (auto simp: rnd_def round_even_def)
qed

lemma fl_le_neg: "fl_le (fl_neg x) (fl_neg y) \<longleftrightarrow> fl_le y x"
  by (cases x; cases y) auto

lemma rnd_ge:
  assumes F: "fmt_ok F" and z: "representable F z" and le: "z \<le> x"
  shows "fl_le (Fin z) (rnd F x)"
proof (cases "x = 0")
  case True
  then show ?thesis using le F by (simp add: rnd_zero)
next
  case False
  have "fl_le (rnd F (- x)) (Fin (- z))"
    by (rule rnd_le [OF F representable_uminus [OF z]]) (use le in simp)
  then have "fl_le (fl_neg (rnd F x)) (fl_neg (Fin z))" using False by (simp add: rnd_uminus)
  then show ?thesis by (simp only: fl_le_neg)
qed

lemma rnd_representable:
  assumes "fmt_ok F" "representable F z"
  shows "rnd F z = Fin z"
  using rnd_le [OF assms order_refl] rnd_ge [OF assms order_refl] by (cases "rnd F z") auto

lemma rnd_between:
  assumes "fmt_ok F" "representable F a" "representable F b" "a \<le> x" "x \<le> b"
  obtains y where "rnd F x = Fin y" "a \<le> y" "y \<le> b"
  using rnd_ge [OF assms(1,2,4)] rnd_le [OF assms(1,3,5)] by (auto elim: fl_between_Fin)

section \<open>Representable numbers\<close>

lemma representable_dyadic:
  "\<bar>m\<bar> < 2 ^ prec F \<Longrightarrow> emin F \<le> e \<Longrightarrow> e \<le> etop F \<Longrightarrow> representable F (of_int m * 2 powi e)"
  by (auto simp: representable_def)

lemma representable_int:
  "\<bar>m\<bar> < 2 ^ prec F \<Longrightarrow> emin F \<le> 0 \<Longrightarrow> 0 \<le> etop F \<Longrightarrow> representable F (of_int m)"
  using representable_dyadic [of m F 0] by simp

lemma representable_double:
  assumes "representable F z" "\<bar>z\<bar> < 2 powi (etop F - 1 + int (prec F))" "fmt_ok F"
    and "emin F < etop F"
  shows "representable F (2 * z)"
proof -
  obtain m e where z: "z = of_int m * 2 powi e" "\<bar>m\<bar> < 2 ^ prec F" "emin F \<le> e" "e \<le> etop F"
    using assms(1) by (auto simp: representable_def)
  show ?thesis
  proof (cases "e < etop F")
    case True
    have "2 * z = of_int m * 2 powi (e + 1)" using z(1) by (simp add: power_int_add)
    then show ?thesis using representable_dyadic [of m F "e + 1"] z(2,3) True by simp
  next
    case False
    with z(4) have e: "e = etop F" by simp
    have "of_int (2 * \<bar>m\<bar>) * (2::real) powi (etop F - 1) = \<bar>z\<bar>"
      using z(1) e by (simp add: abs_mult power_int_diff)
    also have "\<dots> < 2 powi (etop F - 1 + int (prec F))" by (rule assms(2))
    also have "\<dots> = 2 ^ prec F * 2 powi (etop F - 1)" by (simp only: powi_split mult.commute)
    finally have "of_int (2 * \<bar>m\<bar>) < (2::real) ^ prec F" by (simp add: mult_less_cancel_right)
    then have "2 * \<bar>m\<bar> < 2 ^ prec F" by (metis of_int_less_iff of_int_numeral of_int_power)
    then have "\<bar>2 * m\<bar> < 2 ^ prec F" by simp
    moreover have "2 * z = of_int (2 * m) * 2 powi e" using z(1) by simp
    ultimately show ?thesis using representable_dyadic [of "2 * m" F e] z(3,4) by metis
  qed
qed

text \<open>
  The midpoint of two binary32 values, computed as the code computes it, stays between any
  two binary32 bounds that enclose them, unless the sum can overflow.
\<close>

lemma f32_midpoint_between:
  assumes rep: "representable binary32 lo" "representable binary32 hi"
    and small: "\<bar>lo\<bar> < 2 powi 127" "\<bar>hi\<bar> < 2 powi 127"
    and a: "lo \<le> a" "a \<le> hi" and b: "lo \<le> b" "b \<le> hi"
  obtains y where "f32_mul (f32_add (Fin a) (Fin b)) (Fin (1 / 2)) = Fin y" "lo \<le> y" "y \<le> hi"
proof -
  have ok: "fmt_ok binary32" by simp
  have d: "representable binary32 (2 * lo)" "representable binary32 (2 * hi)"
    using representable_double [OF rep(1) _ ok] representable_double [OF rep(2) _ ok] small
    by (simp_all add: binary32_def)
  obtain s where s: "rnd binary32 (a + b) = Fin s" "2 * lo \<le> s" "s \<le> 2 * hi"
    using rnd_between [OF ok d, of "a + b"] a b by auto
  obtain y where "rnd binary32 (s * (1 / 2)) = Fin y" "lo \<le> y" "y \<le> hi"
    using rnd_between [OF ok rep, of "s * (1 / 2)"] s by auto
  then show ?thesis using that s(1) by simp
qed

lemma rnd64_int: "\<bar>n\<bar> < 2 ^ 53 \<Longrightarrow> rnd binary64 (of_int n) = Fin (of_int n)"
  by (rule rnd_representable [OF fmt_ok_binary(1)]) (rule representable_int; simp add: binary64_def)

lemma py_float_small: "\<bar>n\<bar> < 2 ^ 53 \<Longrightarrow> py_float n = Fin (of_int n)"
  by (simp add: py_float_def rnd64_int)

section \<open>Rounding is monotone and idempotent\<close>

lemma rnd_Fin_representable:
  assumes F: "fmt_ok F" and r: "rnd F x = Fin y"
  shows "representable F y"
proof (cases "ulp_exp F x")
  case None
  then show ?thesis using r by (simp add: rnd_def overflow_def split: if_splits)
next
  case (Some e)
  define n where "n = round_even (x / 2 powi e)"
  note ue = ulp_exp_Some [OF Some]
  have y: "y = of_int n * 2 powi e" "\<bar>y\<bar> < 2 powi (etop F + int (prec F))"
    using r Some by (auto simp: rnd_def n_def Let_def overflow_def split: if_splits)
  have "\<bar>x / 2 powi e\<bar> < 2 ^ prec F"
    using ue(1) by (simp add: powi_split abs_divide field_simps)
  then have "x / 2 powi e \<le> of_int (2 ^ prec F)" "of_int (- (2 ^ prec F)) \<le> x / 2 powi e"
    unfolding of_int_minus of_int_power of_int_numeral by linarith+
  then have n: "\<bar>n\<bar> \<le> 2 ^ prec F"
    using round_even_le_of_int round_even_ge_of_int by (fastforce simp: n_def abs_le_iff)
  show ?thesis
  proof (cases "\<bar>n\<bar> = 2 ^ prec F")
    case False
    then show ?thesis using n ue(2,3) y(1) by (auto intro: representable_dyadic)
  next
    case True
    have "\<bar>y\<bar> = of_int \<bar>n\<bar> * 2 powi e" using y(1) by (simp add: abs_mult)
    also have "\<dots> = 2 powi (e + int (prec F))" using True by (simp add: powi_split)
    finally have "(2::real) powi (e + int (prec F)) < 2 powi (etop F + int (prec F))" using y(2) by simp
    then have e: "e + 1 \<le> etop F" by (smt (verit) powi_mono2)
    obtain p where p: "prec F = Suc p" using F by (cases "prec F") (auto simp: fmt_ok_def)
    define h where "h = n div 2"
    have "n = 2 * 2 ^ p \<or> n = - (2 * 2 ^ p)" using True p by (auto simp: abs_if split: if_splits)
    then have nh: "n = 2 * h" unfolding h_def by (elim disjE) simp_all
    have "\<bar>h\<bar> < 2 ^ prec F" using True p nh by (simp add: abs_mult)
    moreover have "y = of_int h * 2 powi (e + 1)" using y(1) nh by (simp add: power_int_add)
    ultimately show ?thesis using e ue(2) by (auto intro: representable_dyadic)
  qed
qed

lemma rnd_idem: "fmt_ok F \<Longrightarrow> to_fmt F (rnd F x) = rnd F x"
  by (cases "rnd F x") (simp_all add: rnd_representable rnd_Fin_representable)

lemma rnd_not_NaN: "rnd F x \<noteq> NaN"
  by (auto simp: rnd_def overflow_def Let_def split: option.splits)

lemma round_even_mono: "x \<le> y \<Longrightarrow> round_even x \<le> round_even y"
proof -
  assume xy: "x \<le> y"
  show ?thesis
  proof (cases "\<lfloor>x\<rfloor> = \<lfloor>y\<rfloor>")
    case True
    then show ?thesis using xy by (auto simp: round_even_def Let_def)
  next
    case False
    then have "\<lfloor>x\<rfloor> + 1 \<le> \<lfloor>y\<rfloor>" using floor_mono [OF xy] by linarith
    then show ?thesis by (simp add: round_even_def Let_def)
  qed
qed

lemma representable_zero: "fmt_ok F \<Longrightarrow> representable F 0"
  using representable_dyadic [of 0 F "emin F"] by (simp add: fmt_ok_def)

lemma rnd_nonneg: "fmt_ok F \<Longrightarrow> 0 \<le> x \<Longrightarrow> fl_le (Fin 0) (rnd F x)"
  by (rule rnd_ge [OF _ representable_zero])

lemma rnd_nonpos: "fmt_ok F \<Longrightarrow> x \<le> 0 \<Longrightarrow> fl_le (rnd F x) (Fin 0)"
  by (rule rnd_le [OF _ representable_zero])

lemma representable_power:
  assumes "fmt_ok F" "emin F \<le> e" "e < etop F"
  shows "representable F (2 powi (e + int (prec F)))"
proof -
  obtain p where p: "prec F = Suc p" using assms by (cases "prec F") (auto simp: fmt_ok_def)
  have "(2::real) powi (e + int (prec F)) = 2 powi ((e + 1) + int p)" using p by (simp add: algebra_simps)
  also have "\<dots> = of_int (2 ^ p) * 2 powi (e + 1)" by (simp only: powi_split) simp
  finally have b: "(2::real) powi (e + int (prec F)) = of_int (2 ^ p) * 2 powi (e + 1)" .
  show ?thesis unfolding b using assms p by (intro representable_dyadic) auto
qed

lemma rnd_mono_nonneg:
  assumes F: "fmt_ok F" and x: "0 \<le> x" "x \<le> y"
  shows "fl_le (rnd F x) (rnd F y)"
proof (cases "ulp_exp F y")
  case None
  have "0 < (2::real) powi (etop F + int (prec F))" by simp
  moreover have "2 powi (etop F + int (prec F)) \<le> \<bar>y\<bar>" using None F ulp_exp_None by (simp add: fmt_ok_def)
  ultimately have "0 < y" using x by linarith
  then show ?thesis using None rnd_not_NaN [of F x] by (cases "rnd F x") (simp_all add: rnd_def overflow_def)
next
  case (Some ey)
  note uy = ulp_exp_Some [OF Some]
  have xy: "\<bar>x\<bar> \<le> \<bar>y\<bar>" using x by simp
  obtain ex where ex: "ulp_exp F x = Some ex"
  proof (cases "ulp_exp F x")
    case None
    then have "2 powi (etop F + int (prec F)) \<le> \<bar>x\<bar>" using F ulp_exp_None by (simp add: fmt_ok_def)
    moreover have "(2::real) powi (ey + int (prec F)) \<le> 2 powi (etop F + int (prec F))" using uy(3) by (intro powi_mono2) simp
    ultimately have False using uy(1) xy by linarith
    then show ?thesis ..
  qed (use that in blast)
  note ux = ulp_exp_Some [OF ex]
  consider "ex < ey" | "ex = ey" | "ey < ex" by linarith
  then show ?thesis
  proof cases
    case 1
    let ?b = "(2::real) powi (ex + int (prec F))"
    have rep: "representable F ?b" using F ux(2) uy(3) 1 by (intro representable_power) auto
    have "?b \<le> 2 powi (ey - 1 + int (prec F))" using 1 by (intro powi_mono2) simp
    then have b_y: "?b \<le> y" using uy(4) ux(2) 1 x by auto
    have "x \<le> ?b" using ux(1) x by simp
    then have "fl_le (rnd F x) (Fin ?b)" by (rule rnd_le [OF F rep])
    moreover have "fl_le (Fin ?b) (rnd F y)" by (rule rnd_ge [OF F rep b_y])
    ultimately show ?thesis by (rule fl_le_trans)
  next
    case 2
    let ?r = "\<lambda>z. of_int (round_even (z / 2 powi ey)) * (2::real) powi ey"
    have m: "?r x \<le> ?r y" using x by (intro mult_right_mono) (auto intro!: round_even_mono divide_right_mono)
    show ?thesis
    proof (cases "x = 0")
      case True
      then show ?thesis using x by (simp add: rnd_zero [OF F] rnd_nonneg [OF F])
    next
      case False
      have "0 \<le> round_even (x / 2 powi ey)" using x by (intro round_even_ge_of_int) simp
      then have "0 \<le> ?r x" by simp
      then have a: "\<bar>?r x\<bar> = ?r x" "\<bar>?r y\<bar> = ?r y" using m by linarith+
      define t where "t = (2::real) powi (etop F + int (prec F))"
      have key: "a \<le> b \<Longrightarrow> fl_le (if t \<le> a then PInf else Fin a) (if t \<le> b then PInf else Fin b)" for a b
        by auto
      have r: "rnd F x = (if t \<le> ?r x then PInf else Fin (?r x))" "rnd F y = (if t \<le> ?r y then PInf else Fin (?r y))"
        using Some ex 2 x False by (simp_all only: rnd_def Let_def overflow_def option.case a t_def [symmetric]) auto
      show ?thesis unfolding r by (rule key [OF m])
    qed
  next
    case 3
    have "(2::real) powi (ey + int (prec F)) \<le> 2 powi (ex - 1 + int (prec F))" using 3 by (intro powi_mono2) simp
    then show ?thesis using ux(4) 3 uy(1,2) xy by linarith
  qed
qed

text \<open>Rounding is monotone.\<close>

lemma rnd_mono:
  assumes F: "fmt_ok F" and xy: "x \<le> y"
  shows "fl_le (rnd F x) (rnd F y)"
proof -
  consider "0 \<le> x" | "x < 0" "0 \<le> y" | "y < 0" by linarith
  then show ?thesis
  proof cases
    case 1
    then show ?thesis using xy by (rule rnd_mono_nonneg [OF F])
  next
    case 2
    then have "fl_le (rnd F x) (Fin 0)" "fl_le (Fin 0) (rnd F y)"
      using F by (auto intro: rnd_nonpos rnd_nonneg)
    then show ?thesis by (rule fl_le_trans)
  next
    case 3
    then have "fl_le (rnd F (- y)) (rnd F (- x))" using xy by (intro rnd_mono_nonneg [OF F]) auto
    then have "fl_le (fl_neg (rnd F y)) (fl_neg (rnd F x))" using 3 xy by (simp add: rnd_uminus)
    then show ?thesis by (simp only: fl_le_neg)
  qed
qed

end
