(* ===== verification/Tensor.thy ===== *)
theory Tensor
  imports IEEE_Float
begin

text \<open>
  Tensors as the sources handle them, and the PyTorch operations they call.

  A tensor is its shape, its elements in row order, and the dtype, device and layout the code tests.
  Elementwise float32 arithmetic is IEEE-754 binary32 (theory \<open>IEEE_Float\<close>). Reductions, norms,
  distances, sorting and selection are fields of the parameter record \<open>torch\<close>: PyTorch leaves the
  order of a reduction and the choice among ties open. What its documentation promises is stated by
  the predicates below, each used as a hypothesis only where it is needed.
\<close>

section \<open>Tensors\<close>

datatype dtype = Float16 | Float32 | Float64 | Int64

record tensor =
  tshape :: "nat list"
  tdata :: "fl list"
  tdtype :: dtype
  tdevice :: string
  tcontiguous :: bool

text \<open>An argument of a function that tests \<open>isinstance(x, torch.Tensor)\<close>.\<close>

datatype pyobj = PyTensor tensor | PyOther

definition numel :: "tensor \<Rightarrow> nat" where
  "numel t = length (tdata t)"

definition ndim :: "tensor \<Rightarrow> nat" where
  "ndim t = length (tshape t)"

definition wf_tensor :: "tensor \<Rightarrow> bool" where
  "wf_tensor t \<longleftrightarrow> length (tdata t) = prod_list (tshape t)"

text \<open>\<open>torch.isfinite(t).all()\<close>\<close>

definition all_finite :: "fl list \<Rightarrow> bool" where
  "all_finite xs = list_all is_fin xs"

definition is_floating_point :: "tensor \<Rightarrow> bool" where
  "is_floating_point t = (tdtype t \<in> {Float16, Float32, Float64})"

text \<open>The arithmetic of a dtype, and multiplication and division of a tensor by a Python number.\<close>

definition fmt_of :: "dtype \<Rightarrow> fmt" where
  "fmt_of d = (case d of Float16 \<Rightarrow> binary16 | Float32 \<Rightarrow> binary32 | Float64 \<Rightarrow> binary64 | Int64 \<Rightarrow> binary32)"

text \<open>A Python number takes part in the arithmetic at the width PyTorch computes in, float32 for float16.\<close>

definition opmath :: "dtype \<Rightarrow> fmt" where
  "opmath d = (if d = Float64 then binary64 else binary32)"

definition scalar_mul :: "dtype \<Rightarrow> fl \<Rightarrow> fl \<Rightarrow> fl" where
  "scalar_mul d x c = to_fmt (fmt_of d) (fl_mul (opmath d) x (to_fmt (opmath d) c))"

definition scalar_div :: "dtype \<Rightarrow> fl \<Rightarrow> fl \<Rightarrow> fl" where
  "scalar_div d x c = to_fmt (fmt_of d) (fl_div (opmath d) x (to_fmt (opmath d) c))"

definition scale_tensor :: "tensor \<Rightarrow> fl \<Rightarrow> tensor" where
  "scale_tensor t c = t\<lparr>tdata := map (\<lambda>x. scalar_mul (tdtype t) x c) (tdata t)\<rparr>"

text \<open>\<open>t.detach().cpu().float()\<close> and the flat float32 vectors of the parameter protocol.\<close>

definition cpu_float :: "tensor \<Rightarrow> tensor" where
  "cpu_float t = t\<lparr>tdata := map (to_fmt binary32) (tdata t), tdtype := Float32, tdevice := ''cpu''\<rparr>"

definition f32_tensor :: "nat list \<Rightarrow> fl list \<Rightarrow> tensor" where
  "f32_tensor sh xs = \<lparr>tshape = sh, tdata = xs, tdtype = Float32, tdevice = ''cpu'', tcontiguous = True\<rparr>"

definition flat_vector :: "fl list \<Rightarrow> tensor" where
  "flat_vector xs = f32_tensor [length xs] xs"

lemma flat_vector_simps [simp]:
  "tshape (flat_vector xs) = [length xs]" "tdata (flat_vector xs) = xs" "ndim (flat_vector xs) = 1"
  by (simp_all add: flat_vector_def f32_tensor_def ndim_def)

lemma cpu_float_simps [simp]:
  "tshape (cpu_float t) = tshape t" "tdata (cpu_float t) = map (to_fmt binary32) (tdata t)"
  by (simp_all add: cpu_float_def)

section \<open>PyTorch as a parameter\<close>

record torch =
  t_sort :: "fl list \<Rightarrow> fl list"                        \<comment> \<open>values of \<open>torch.sort\<close>\<close>
  t_topk_smallest :: "nat \<Rightarrow> fl list \<Rightarrow> nat list"        \<comment> \<open>indices of \<open>torch.topk(largest=False)\<close>\<close>
  t_mean :: "fl list \<Rightarrow> fl"                             \<comment> \<open>one column of \<open>mean(dim=0)\<close>, float32\<close>
  t_sum64 :: "fl list \<Rightarrow> fl"                            \<comment> \<open>\<open>sum()\<close> of a float64 tensor\<close>
  t_cdist2 :: "fl list list \<Rightarrow> fl list list"            \<comment> \<open>\<open>cdist(x, x, p=2).pow(2)\<close>, float64\<close>
  t_norm :: "fl list \<Rightarrow> fl"                             \<comment> \<open>\<open>linalg.vector_norm\<close>\<close>
  t_axpy :: "fl \<Rightarrow> fl \<Rightarrow> fl \<Rightarrow> fl"                      \<comment> \<open>\<open>acc.add_(x, alpha=a)\<close> elementwise: \<open>acc\<close>, \<open>x\<close>, \<open>a\<close>\<close>

definition vals :: "fl list \<Rightarrow> real list" where
  "vals xs = map val xs"

text \<open>\<open>torch.sort\<close> on finite values: ascending, a permutation of the input.\<close>

definition sort_ok :: "torch \<Rightarrow> bool" where
  "sort_ok T \<longleftrightarrow> (\<forall>xs. all_finite xs \<longrightarrow> mset (t_sort T xs) = mset xs \<and> sorted (vals (t_sort T xs)))"

text \<open>\<open>torch.topk(k, largest=False)\<close>: \<open>k\<close> distinct positions, none left out is smaller than one taken.\<close>

definition topk_ok :: "torch \<Rightarrow> bool" where
  "topk_ok T \<longleftrightarrow>
     (\<forall>k xs. k \<le> length xs \<longrightarrow> all_finite xs \<longrightarrow>
        length (t_topk_smallest T k xs) = k \<and> distinct (t_topk_smallest T k xs) \<and>
        set (t_topk_smallest T k xs) \<subseteq> {..<length xs} \<and>
        (\<forall>i \<in> set (t_topk_smallest T k xs). \<forall>j \<in> {..<length xs} - set (t_topk_smallest T k xs).
           val (xs ! i) \<le> val (xs ! j)))"

text \<open>
  The mean of \<open>n\<close> values of magnitude at most \<open>B\<close> is finite and has relative accuracy \<open>eps\<close>: the
  accuracy of a float32 reduction, whatever its order.
\<close>

definition mean_accurate :: "torch \<Rightarrow> nat \<Rightarrow> real \<Rightarrow> real \<Rightarrow> bool" where
  "mean_accurate T n B eps \<longleftrightarrow>
     (\<forall>xs. length xs = n \<longrightarrow> xs \<noteq> [] \<longrightarrow> (\<forall>x \<in> set xs. is_fin x \<and> \<bar>val x\<bar> \<le> B) \<longrightarrow>
        is_fin (t_mean T xs) \<and>
        \<bar>val (t_mean T xs) - sum_list (vals xs) / real n\<bar> \<le> eps * (sum_list (map abs (vals xs)) / real n))"

text \<open>\<open>acc.add_(x, alpha=a)\<close>: the same for one fused or unfused multiply and add below \<open>B\<close>.\<close>

definition axpy_accurate :: "torch \<Rightarrow> real \<Rightarrow> real \<Rightarrow> bool" where
  "axpy_accurate T B eps \<longleftrightarrow>
     (\<forall>acc x a. \<bar>acc\<bar> + \<bar>a * x\<bar> \<le> B \<longrightarrow>
        is_fin (t_axpy T (Fin acc) (Fin x) (Fin a)) \<and>
        \<bar>val (t_axpy T (Fin acc) (Fin x) (Fin a)) - (acc + a * x)\<bar> \<le> eps * (\<bar>acc\<bar> + \<bar>a * x\<bar>))"

text \<open>The mean of one value is that value.\<close>

definition mean_singleton :: "torch \<Rightarrow> bool" where
  "mean_singleton T \<longleftrightarrow> (\<forall>x. is_fin x \<longrightarrow> t_mean T [x] = x)"

text \<open>A sum of non-negative finite terms is at least each of its terms.\<close>

definition sum_dominates :: "torch \<Rightarrow> bool" where
  "sum_dominates T \<longleftrightarrow>
     (\<forall>xs. (\<forall>x \<in> set xs. fl_le (Fin 0) x) \<longrightarrow> (\<forall>x \<in> set xs. fl_le x (t_sum64 T xs)))"

text \<open>The squared distances of \<open>n\<close> finite vectors form an \<open>n \<times> n\<close> matrix of finite non-negative entries.\<close>

definition cdist_ok :: "torch \<Rightarrow> bool" where
  "cdist_ok T \<longleftrightarrow>
     (\<forall>rows. list_all all_finite rows \<longrightarrow>
        length (t_cdist2 T rows) = length rows \<and>
        (\<forall>r \<in> set (t_cdist2 T rows). length r = length rows \<and> (\<forall>d \<in> set r. is_fin d \<and> 0 \<le> val d)))"

lemma sort_okD:
  assumes "sort_ok T" "all_finite xs"
  shows "mset (t_sort T xs) = mset xs" "sorted (vals (t_sort T xs))"
    "length (t_sort T xs) = length xs" "all_finite (t_sort T xs)"
proof -
  show m: "mset (t_sort T xs) = mset xs" "sorted (vals (t_sort T xs))"
    using assms by (simp_all add: sort_ok_def)
  show "length (t_sort T xs) = length xs" by (rule mset_eq_length [OF m(1)])
  show "all_finite (t_sort T xs)"
    using assms(2) mset_eq_setD [OF m(1)] by (simp add: all_finite_def list_all_iff)
qed

lemma topk_okD:
  assumes "topk_ok T" "k \<le> length xs" "all_finite xs"
  shows "length (t_topk_smallest T k xs) = k" "distinct (t_topk_smallest T k xs)"
    "set (t_topk_smallest T k xs) \<subseteq> {..<length xs}"
    "i \<in> set (t_topk_smallest T k xs) \<Longrightarrow> j < length xs \<Longrightarrow> j \<notin> set (t_topk_smallest T k xs) \<Longrightarrow>
       val (xs ! i) \<le> val (xs ! j)"
  using assms by (simp_all add: topk_ok_def)

lemma mean_accurate_hull:
  assumes acc: "mean_accurate T (length xs) B eps" and ne: "xs \<noteq> []" and eps: "0 \<le> eps"
    and xs: "\<forall>x \<in> set xs. is_fin x \<and> lo \<le> val x \<and> val x \<le> hi" and M: "\<bar>lo\<bar> \<le> M" "\<bar>hi\<bar> \<le> M" "M \<le> B"
  shows "is_fin (t_mean T xs) \<and> lo - eps * M \<le> val (t_mean T xs) \<and> val (t_mean T xs) \<le> hi + eps * M"
proof -
  have b: "\<bar>val x\<bar> \<le> M" if "x \<in> set xs" for x using xs M that by fastforce
  have sums: "real (length ys) * lo \<le> sum_list (vals ys) \<and> sum_list (vals ys) \<le> real (length ys) * hi \<and>
      sum_list (map abs (vals ys)) \<le> real (length ys) * M" if "set ys \<subseteq> set xs" for ys
    using that
  proof (induction ys)
    case (Cons y ys)
    then show ?case using xs b [of y] by (auto simp: vals_def algebra_simps)
  qed (simp add: vals_def)
  have n: "0 < real (length xs)" using ne by simp
  have s: "lo \<le> sum_list (vals xs) / real (length xs)" "sum_list (vals xs) / real (length xs) \<le> hi"
    "sum_list (map abs (vals xs)) / real (length xs) \<le> M"
    using sums [of xs] n by (auto simp: field_simps)
  have "\<forall>x \<in> set xs. is_fin x \<and> \<bar>val x\<bar> \<le> B" using xs b M(3) by fastforce
  then have "is_fin (t_mean T xs) \<and> \<bar>val (t_mean T xs) - sum_list (vals xs) / real (length xs)\<bar> \<le>
      eps * (sum_list (map abs (vals xs)) / real (length xs))"
    using acc ne by (simp add: mean_accurate_def)
  moreover have "eps * (sum_list (map abs (vals xs)) / real (length xs)) \<le> eps * M"
    using s(3) eps by (rule mult_left_mono)
  ultimately show ?thesis using s by linarith
qed

lemma cdist_okD:
  assumes "cdist_ok T" "list_all all_finite rows"
  shows "length (t_cdist2 T rows) = length rows"
    "i < length rows \<Longrightarrow> length (t_cdist2 T rows ! i) = length rows"
    "i < length rows \<Longrightarrow> j < length rows \<Longrightarrow>
       is_fin (t_cdist2 T rows ! i ! j) \<and> 0 \<le> val (t_cdist2 T rows ! i ! j)"
proof -
  have *: "length (t_cdist2 T rows) = length rows"
    "\<forall>r \<in> set (t_cdist2 T rows). length r = length rows \<and> (\<forall>d \<in> set r. is_fin d \<and> 0 \<le> val d)"
    using assms by (simp_all add: cdist_ok_def)
  show "length (t_cdist2 T rows) = length rows" by (rule *)
  show len: "length (t_cdist2 T rows ! i) = length rows" if "i < length rows"
    using * that by simp
  show "is_fin (t_cdist2 T rows ! i ! j) \<and> 0 \<le> val (t_cdist2 T rows ! i ! j)"
    if "i < length rows" "j < length rows"
  proof -
    have "t_cdist2 T rows ! i \<in> set (t_cdist2 T rows)" using * that by simp
    moreover have "t_cdist2 T rows ! i ! j \<in> set (t_cdist2 T rows ! i)" using len that by simp
    ultimately show ?thesis using *(2) by blast
  qed
qed

section \<open>Stacks of vectors\<close>

text \<open>Column \<open>j\<close> of \<open>torch.stack(rows)\<close>, and an operation applied along \<open>dim=0\<close>.\<close>

definition column :: "nat \<Rightarrow> fl list list \<Rightarrow> fl list" where
  "column j rows = map (\<lambda>r. r ! j) rows"

definition along_dim0 :: "(fl list \<Rightarrow> fl) \<Rightarrow> nat \<Rightarrow> fl list list \<Rightarrow> fl list" where
  "along_dim0 f width rows = map (\<lambda>j. f (column j rows)) [0..<width]"

lemma length_column [simp]: "length (column j rows) = length rows"
  by (simp add: column_def)

lemma nth_column [simp]: "i < length rows \<Longrightarrow> column j rows ! i = rows ! i ! j"
  by (simp add: column_def)

lemma length_along_dim0 [simp]: "length (along_dim0 f w rows) = w"
  by (simp add: along_dim0_def)

lemma nth_along_dim0 [simp]: "j < w \<Longrightarrow> along_dim0 f w rows ! j = f (column j rows)"
  by (simp add: along_dim0_def)

lemma all_finite_column:
  assumes "\<forall>r \<in> set rows. all_finite r \<and> j < length r"
  shows "all_finite (column j rows)"
  using assms by (auto simp: all_finite_def column_def list_all_iff)

section \<open>A concrete PyTorch\<close>

text \<open>Exact reductions, for evaluation: the laws above hold of it.\<close>

definition fin_sort :: "fl list \<Rightarrow> fl list" where
  "fin_sort xs = map Fin (sort (vals xs))"

definition exact_mean :: "fl list \<Rightarrow> fl" where
  "exact_mean xs = Fin (sum_list (vals xs) / of_nat (length xs))"

definition exact_sum :: "fl list \<Rightarrow> fl" where
  "exact_sum xs = (if all_finite xs then Fin (sum_list (vals xs)) else if NaN \<in> set xs then NaN else PInf)"

definition exact_sqdist :: "fl list \<Rightarrow> fl list \<Rightarrow> fl" where
  "exact_sqdist u v = Fin (sum_list (map2 (\<lambda>x y. (val x - val y)\<^sup>2) u v))"

definition exact_cdist2 :: "fl list list \<Rightarrow> fl list list" where
  "exact_cdist2 rows = map (\<lambda>u. map (exact_sqdist u) rows) rows"

definition exact_norm :: "fl list \<Rightarrow> fl" where
  "exact_norm xs = (if all_finite xs then Fin (sqrt (sum_list (map (\<lambda>x. (val x)\<^sup>2) xs))) else NaN)"

definition exact_axpy :: "fl \<Rightarrow> fl \<Rightarrow> fl \<Rightarrow> fl" where
  "exact_axpy acc x a = Fin (val acc + val a * val x)"

text \<open>Positions of the \<open>k\<close> smallest values, the first ones among ties.\<close>

definition stable_topk :: "nat \<Rightarrow> fl list \<Rightarrow> nat list" where
  "stable_topk k xs = take k (sort_key (\<lambda>i. val (xs ! i)) [0..<length xs])"

definition torch_exact :: torch where
  "torch_exact =
     \<lparr>t_sort = fin_sort, t_topk_smallest = stable_topk, t_mean = exact_mean, t_sum64 = exact_sum,
      t_cdist2 = exact_cdist2, t_norm = exact_norm, t_axpy = exact_axpy\<rparr>"

lemma map_Fin_vals: "all_finite xs \<Longrightarrow> map Fin (vals xs) = xs"
  by (induction xs) (auto simp: all_finite_def vals_def is_fin_iff)

lemma sort_ok_exact: "sort_ok torch_exact"
proof -
  have "mset (fin_sort xs) = mset xs \<and> sorted (vals (fin_sort xs))" if "all_finite xs" for xs
  proof -
    have "mset (fin_sort xs) = image_mset Fin (mset (vals xs))" by (simp add: fin_sort_def)
    also have "\<dots> = mset xs" using map_Fin_vals [OF that] by (metis mset_map)
    finally show ?thesis by (simp add: fin_sort_def vals_def comp_def)
  qed
  then show ?thesis by (simp add: sort_ok_def torch_exact_def)
qed

lemma topk_ok_exact: "topk_ok torch_exact"
proof -
  have "length (stable_topk k xs) = k \<and> distinct (stable_topk k xs) \<and>
      set (stable_topk k xs) \<subseteq> {..<length xs} \<and>
      (\<forall>i \<in> set (stable_topk k xs). \<forall>j \<in> {..<length xs} - set (stable_topk k xs).
         val (xs ! i) \<le> val (xs ! j))" if k: "k \<le> length xs" for k xs
  proof -
    define s where "s = sort_key (\<lambda>i. val (xs ! i)) [0..<length xs]"
    have s: "length s = length xs" "distinct s" "set s = {..<length xs}"
      "sorted (map (\<lambda>i. val (xs ! i)) s)"
      by (auto simp: s_def)
    have "val (xs ! i) \<le> val (xs ! j)" if "i \<in> set (take k s)" "j \<in> set s" "j \<notin> set (take k s)" for i j
    proof -
      have "j \<in> set (drop k s)" using that by (metis Un_iff append_take_drop_id set_append)
      moreover have "sorted (map (\<lambda>i. val (xs ! i)) (take k s) @ map (\<lambda>i. val (xs ! i)) (drop k s))"
        using s(4) by (metis append_take_drop_id map_append)
      ultimately show ?thesis using that(1) by (auto simp: sorted_append)
    qed
    then show ?thesis
      using s k set_take_subset [of k s] by (auto simp: stable_topk_def s_def [symmetric])
  qed
  then show ?thesis by (simp add: topk_ok_def torch_exact_def)
qed

lemma mean_accurate_exact: "0 \<le> eps \<Longrightarrow> mean_accurate torch_exact n B eps"
proof -
  assume "0 \<le> eps"
  moreover have "0 \<le> sum_list (map abs (vals xs))" for xs by (rule sum_list_nonneg) auto
  ultimately show ?thesis by (simp add: mean_accurate_def torch_exact_def exact_mean_def)
qed

lemma axpy_accurate_exact: "0 \<le> eps \<Longrightarrow> axpy_accurate torch_exact B eps"
  by (simp add: axpy_accurate_def torch_exact_def exact_axpy_def)

lemma mean_singleton_exact: "mean_singleton torch_exact"
  by (simp add: mean_singleton_def torch_exact_def exact_mean_def vals_def is_fin_iff)

lemma cdist_ok_exact: "cdist_ok torch_exact"
proof -
  have "0 \<le> sum_list (map2 (\<lambda>x y. (val x - val y)\<^sup>2) u v)" for u v
    by (induction u v rule: list_induct2') auto
  then show ?thesis by (auto simp: cdist_ok_def torch_exact_def exact_cdist2_def exact_sqdist_def)
qed

lemma sum_dominates_exact: "sum_dominates torch_exact"
proof -
  have "fl_le x (exact_sum xs)" if nn: "\<forall>x \<in> set xs. fl_le (Fin 0) x" and x: "x \<in> set xs" for xs x
  proof (cases "all_finite xs")
    case True
    have "0 \<le> val y" if "y \<in> set xs" for y using nn that by (cases y) auto
    then have "val x \<le> sum_list (vals xs)"
      by (intro member_le_sum_list) (use x in \<open>auto simp: vals_def\<close>)
    moreover have "x = Fin (val x)" using True x by (simp add: all_finite_def list_all_iff is_fin_iff)
    ultimately show ?thesis using True by (simp add: exact_sum_def) (metis fl_le_Fin)
  next
    case False
    have "NaN \<notin> set xs" using nn by force
    with False nn x show ?thesis by (cases x) (auto simp: exact_sum_def)
  qed
  then show ?thesis by (simp add: sum_dominates_def torch_exact_def)
qed

end
