(* ===== verification/Attacks.thy ===== *)
theory Attacks
  imports Tensor
begin

text \<open>
  \<open>fl/zerotrust_fl/attacks/poisoning.py\<close>: the attack configuration, label flipping, the update attacks
  and their convenience wrappers. A generator is fresh for every call, so what it draws is a function of
  its device and seed; these functions are the fields of the parameter record \<open>torch_rng\<close>.
\<close>

section \<open>Configuration\<close>

record AttackConfig =
  kind :: string
  probability :: fl
  source_class :: "int option"
  target_class :: "int option"
  label_mapping :: "(int \<times> int) list"
  noise_mean :: fl
  attack_noise_std :: fl
  sign_scale :: fl
  adaptive_scale :: fl
  adaptive_max_norm_ratio :: fl
  collusion_scale :: fl
  collusion_seed :: int
  attack_seed :: int

definition default_AttackConfig :: AttackConfig where
  "default_AttackConfig =
     \<lparr>kind = ''none'', probability = Fin 1, source_class = None, target_class = None, label_mapping = [],
      noise_mean = Fin 0, attack_noise_std = Fin 5, sign_scale = Fin 1, adaptive_scale = Fin 4,
      adaptive_max_norm_ratio = Fin 1, collusion_scale = Fin 8, collusion_seed = 20271, attack_seed = 42\<rparr>"

definition attack_kinds :: "string set" where
  "attack_kinds = {''none'', ''label_flip'', ''gaussian'', ''sign_flip'', ''adaptive'', ''collusion''}"

definition AttackConfig_post_init :: "AttackConfig \<Rightarrow> unit res" where
  "AttackConfig_post_init c =
     (if kind c \<notin> attack_kinds then Inl (ValueError ''unsupported attack kind'')
      else if \<not> (fl_le (Fin 0) (probability c) \<and> fl_le (probability c) (Fin 1))
        then Inl (ValueError ''attack probability must be in [0, 1]'')
      else if fl_less (attack_noise_std c) (Fin 0) then Inl (ValueError ''noise_std cannot be negative'')
      else if fl_less (sign_scale c) (Fin 0) then Inl (ValueError ''sign_scale cannot be negative'')
      else if fl_less (adaptive_scale c) (Fin 0) then Inl (ValueError ''adaptive_scale cannot be negative'')
      else if fl_le (adaptive_max_norm_ratio c) (Fin 0)
        then Inl (ValueError ''adaptive_max_norm_ratio must be positive'')
      else if fl_less (collusion_scale c) (Fin 0) then Inl (ValueError ''collusion_scale cannot be negative'')
      else if source_class c \<noteq> None \<and> target_class c = None \<and> label_mapping c = []
        then Inl (ValueError ''target_class is required when source_class is configured'')
      else Inr ())"

section \<open>Generators\<close>

record generator =
  gen_device :: string
  gen_seed :: int

record torch_rng =
  g_rand :: "generator \<Rightarrow> nat \<Rightarrow> fl list"                \<comment> \<open>\<open>torch.rand\<close>\<close>
  g_normal :: "generator \<Rightarrow> fl \<Rightarrow> fl \<Rightarrow> nat \<Rightarrow> fl list"    \<comment> \<open>\<open>torch.normal(mean, std)\<close>\<close>
  g_randn :: "generator \<Rightarrow> nat \<Rightarrow> fl list"                \<comment> \<open>\<open>torch.randn\<close>\<close>
  g_randint2 :: "generator \<Rightarrow> nat \<Rightarrow> int list"            \<comment> \<open>\<open>torch.randint(0, 2)\<close>\<close>

definition rand_ok :: "torch_rng \<Rightarrow> bool" where
  "rand_ok R \<longleftrightarrow>
     (\<forall>g n. length (g_rand R g n) = n \<and>
        (\<forall>u \<in> set (g_rand R g n). fl_le (Fin 0) u \<and> fl_less u (Fin 1))) \<and>
     (\<forall>g n. length (g_randint2 R g n) = n \<and> set (g_randint2 R g n) \<subseteq> {0, 1}) \<and>
     (\<forall>g m s n. length (g_normal R g m s n) = n) \<and> (\<forall>g n. length (g_randn R g n) = n)"

definition generator_for :: "string \<Rightarrow> int \<Rightarrow> int \<Rightarrow> int \<Rightarrow> int \<Rightarrow> generator" where
  "generator_for device seed round_id batch_id stream =
     (let generator_device = (if take 4 device = ''cuda'' then device else ''cpu'');
          mixed = (seed + 1000003 * round_id + 9176 * batch_id + 65537 * stream) mod (2 ^ 63 - 1)
      in \<lparr>gen_device = generator_device, gen_seed = mixed\<rparr>)"

section \<open>Label attacks\<close>

datatype labels_obj = LabelTensor string "int list" | OtherLabels

definition enabled :: "AttackConfig \<Rightarrow> bool" where
  "enabled c = (kind c \<noteq> ''none'')"

definition attacks_labels :: "AttackConfig \<Rightarrow> bool" where
  "attacks_labels c = (kind c = ''label_flip'')"

definition attacks_updates :: "AttackConfig \<Rightarrow> bool" where
  "attacks_updates c = (kind c \<in> {''gaussian'', ''sign_flip'', ''adaptive'', ''collusion''})"

text \<open>\<open>output[mask] = v\<close> and \<open>selected & labels.eq(v)\<close>.\<close>

definition mask_assign :: "bool list \<Rightarrow> int \<Rightarrow> int list \<Rightarrow> int list" where
  "mask_assign ms v output = map2 (\<lambda>m x. if m then v else x) ms output"

definition mask_eq :: "bool list \<Rightarrow> int list \<Rightarrow> int \<Rightarrow> bool list" where
  "mask_eq selected original v = map2 (\<lambda>s x. s \<and> x = v) selected original"

fun apply_mapping :: "bool list \<Rightarrow> int list \<Rightarrow> (int \<times> int) list \<Rightarrow> int list \<Rightarrow> int list" where
  "apply_mapping selected original [] output = output"
| "apply_mapping selected original ((source, target) # rest) output =
     apply_mapping selected original rest (mask_assign (mask_eq selected original source) target output)"

definition transform_labels ::
  "torch_rng \<Rightarrow> AttackConfig \<Rightarrow> labels_obj \<Rightarrow> int \<Rightarrow> int \<Rightarrow> labels_obj res" where
  "transform_labels R c labels round_id batch_id =
     (if kind c \<noteq> ''label_flip'' \<or> fl_eq (probability c) (Fin 0) then Inr labels
      else case labels of
        OtherLabels \<Rightarrow> Inl (TypeError ''labels must be a torch.Tensor'')
      | LabelTensor device original \<Rightarrow>
          let generator = generator_for device (attack_seed c) round_id batch_id 11;
              selected = map (\<lambda>u. fl_less u (probability c)) (g_rand R generator (length original))
          in if label_mapping c \<noteq> []
             then Inr (LabelTensor device (apply_mapping selected original (label_mapping c) original))
             else case source_class c of
               Some source \<Rightarrow>
                 (case target_class c of
                    None \<Rightarrow> Inl (TypeError ''int() argument must be a string or a real number'')
                  | Some target \<Rightarrow>
                      Inr (LabelTensor device (mask_assign (mask_eq selected original source) target original)))
             | None \<Rightarrow>
                 (case target_class c of
                    Some target \<Rightarrow> Inr (LabelTensor device (mask_assign selected target original))
                  | None \<Rightarrow>
                      (case sort (remdups original) of
                         [first, second] \<Rightarrow>
                           Inr (LabelTensor device
                             (mask_assign (mask_eq selected original second) first
                               (mask_assign (mask_eq selected original first) second original)))
                       | _ \<Rightarrow> Inl (ValueError
                           ''multiclass label flipping requires label_mapping or source_class/target_class''))))"

section \<open>Update attacks\<close>

definition adaptive_poison_impl :: "torch \<Rightarrow> tensor \<Rightarrow> fl \<Rightarrow> fl \<Rightarrow> tensor res" where
  "adaptive_poison_impl T update scale max_norm_ratio =
     (let F = fmt_of (tdtype update); original_norm = t_norm T (tdata update) in
      if \<not> is_fin original_norm then Inl (ValueError ''update norm must be finite'')
      else if original_norm = Fin 0 then Inr update
      else
        let candidate = scale_tensor update (fl_neg scale);
            candidate_norm = t_norm T (tdata candidate);
            max_norm = scalar_mul (tdtype update) original_norm max_norm_ratio
        in if fl_less max_norm candidate_norm
           then Inr (candidate\<lparr>tdata := map (\<lambda>x. fl_mul F x (fl_div F max_norm candidate_norm)) (tdata candidate)\<rparr>)
           else Inr candidate)"

definition coordinated_collusion_impl ::
  "torch \<Rightarrow> torch_rng \<Rightarrow> tensor \<Rightarrow> int \<Rightarrow> fl \<Rightarrow> int \<Rightarrow> tensor res" where
  "coordinated_collusion_impl T R update round_id scale shared_seed =
     (let F = fmt_of (tdtype update); original_norm = t_norm T (tdata update) in
      if \<not> is_fin original_norm then Inl (ValueError ''update norm must be finite'')
      else if original_norm = Fin 0 \<or> fl_eq scale (Fin 0)
        then Inr (update\<lparr>tdata := replicate (numel update) (Fin 0)\<rparr>)
      else
        let generator = generator_for (tdevice update) shared_seed round_id 0 47;
            signs = map (\<lambda>b. fl_sub F (fl_mul F (rnd F (of_int b)) (Fin 2)) (Fin 1)) (g_randint2 R generator (numel update))
        in res_bind (py_sqrt (py_float (int (numel update)))) (\<lambda>root.
             let direction = map (\<lambda>s. scalar_div (tdtype update) s root) signs;
                 amplitude = scalar_mul (tdtype update) original_norm scale
             in Inr (update\<lparr>tdata := map (\<lambda>d. fl_mul F d amplitude) direction\<rparr>)))"

definition transform_update ::
  "torch \<Rightarrow> torch_rng \<Rightarrow> AttackConfig \<Rightarrow> pyobj \<Rightarrow> int \<Rightarrow> tensor res" where
  "transform_update T R c obj round_id =
     (case obj of
        PyOther \<Rightarrow> Inl (TypeError ''update must be a torch.Tensor'')
      | PyTensor update \<Rightarrow>
          if \<not> is_floating_point update
            then Inl (TypeError ''model updates must use a floating-point dtype'')
          else if kind c \<in> {''none'', ''label_flip''} \<or> fl_eq (probability c) (Fin 0) then Inr update
          else if fl_less (probability c) (Fin 1) \<and>
              (let generator = generator_for (tdevice update) (attack_seed c) round_id 0 23
               in fl_le (probability c) (hd (g_rand R generator 1)))
            then Inr update
          else if kind c = ''gaussian'' then
            (let generator = generator_for (tdevice update) (attack_seed c) round_id 0 31;
                 noise = g_normal R generator (noise_mean c) (attack_noise_std c) (numel update)
             in Inr (update\<lparr>tdata := map2 (fl_add (fmt_of (tdtype update))) (tdata update) noise\<rparr>))
          else if kind c = ''sign_flip'' then Inr (scale_tensor update (fl_neg (sign_scale c)))
          else if kind c = ''adaptive''
            then adaptive_poison_impl T update (adaptive_scale c) (adaptive_max_norm_ratio c)
          else if kind c = ''collusion''
            then coordinated_collusion_impl T R update round_id (collusion_scale c) (collusion_seed c)
          else Inl (RuntimeError ''unhandled attack kind''))"

section \<open>Convenience wrappers\<close>

text \<open>\<open>PoisoningAttack(AttackConfig(\<dots>))\<close>: the configuration is validated when it is built.\<close>

definition make_attack :: "AttackConfig \<Rightarrow> AttackConfig res" where
  "make_attack c = res_bind (AttackConfig_post_init c) (\<lambda>_. Inr c)"

definition label_flip :: "torch_rng \<Rightarrow> labels_obj \<Rightarrow> int \<Rightarrow> int \<Rightarrow> fl \<Rightarrow> int \<Rightarrow> labels_obj res" where
  "label_flip R labels source target prob seed =
     res_bind (make_attack (default_AttackConfig\<lparr>kind := ''label_flip'', source_class := Some source,
         target_class := Some target, probability := prob, attack_seed := seed\<rparr>))
       (\<lambda>c. transform_labels R c labels 0 0)"

definition gaussian_noise :: "torch \<Rightarrow> torch_rng \<Rightarrow> pyobj \<Rightarrow> fl \<Rightarrow> fl \<Rightarrow> int \<Rightarrow> tensor res" where
  "gaussian_noise T R update mean std seed =
     res_bind (make_attack (default_AttackConfig\<lparr>kind := ''gaussian'', noise_mean := mean,
         attack_noise_std := std, attack_seed := seed\<rparr>))
       (\<lambda>c. transform_update T R c update 0)"

definition sign_flip :: "torch \<Rightarrow> torch_rng \<Rightarrow> pyobj \<Rightarrow> fl \<Rightarrow> tensor res" where
  "sign_flip T R update gamma =
     res_bind (make_attack (default_AttackConfig\<lparr>kind := ''sign_flip'', sign_scale := gamma\<rparr>))
       (\<lambda>c. transform_update T R c update 0)"

definition adaptive_poison :: "torch \<Rightarrow> tensor \<Rightarrow> fl \<Rightarrow> fl \<Rightarrow> tensor res" where
  "adaptive_poison T update scale max_norm_ratio = adaptive_poison_impl T update scale max_norm_ratio"

definition coordinated_collusion ::
  "torch \<Rightarrow> torch_rng \<Rightarrow> tensor \<Rightarrow> int \<Rightarrow> fl \<Rightarrow> int \<Rightarrow> tensor res" where
  "coordinated_collusion T R update round_id scale shared_seed =
     coordinated_collusion_impl T R update round_id scale shared_seed"

section \<open>Correctness\<close>

definition wf_AttackConfig :: "AttackConfig \<Rightarrow> bool" where
  "wf_AttackConfig c \<longleftrightarrow>
     kind c \<in> attack_kinds \<and> fl_le (Fin 0) (probability c) \<and> fl_le (probability c) (Fin 1) \<and>
     \<not> fl_less (attack_noise_std c) (Fin 0) \<and> \<not> fl_less (sign_scale c) (Fin 0) \<and>
     \<not> fl_less (adaptive_scale c) (Fin 0) \<and> \<not> fl_le (adaptive_max_norm_ratio c) (Fin 0) \<and>
     \<not> fl_less (collusion_scale c) (Fin 0) \<and>
     (source_class c = None \<or> target_class c \<noteq> None \<or> label_mapping c \<noteq> [])"

interpretation attack_config: validated_record AttackConfig_post_init wf_AttackConfig
  by unfold_locales (auto simp: AttackConfig_post_init_def wf_AttackConfig_def)

lemma make_attack_Inr: "make_attack c = Inr d \<Longrightarrow> d = c \<and> wf_AttackConfig c"
  using attack_config.construct_Inr [of c "\<lambda>c. c" d] by (simp add: make_attack_def)

text \<open>What a label flip does to one label, and to a list of labels of which some are selected.\<close>

definition flip_target :: "AttackConfig \<Rightarrow> int list \<Rightarrow> int \<Rightarrow> int option" where
  "flip_target c classes l =
     (if label_mapping c \<noteq> [] then map_of (label_mapping c) l
      else case source_class c of
        Some source \<Rightarrow> if l = source then target_class c else None
      | None \<Rightarrow>
          (case target_class c of
             Some target \<Rightarrow> Some target
           | None \<Rightarrow> if l = classes ! 0 then Some (classes ! 1)
                     else if l = classes ! 1 then Some (classes ! 0) else None))"

definition flipped :: "(int \<Rightarrow> int option) \<Rightarrow> bool \<Rightarrow> int \<Rightarrow> int" where
  "flipped f sel l = (if sel then (case f l of None \<Rightarrow> l | Some t \<Rightarrow> t) else l)"

lemma length_mask_assign [simp]: "length (mask_assign ms v xs) = min (length ms) (length xs)"
  by (simp add: mask_assign_def)

lemma length_mask_eq [simp]: "length (mask_eq ms xs v) = min (length ms) (length xs)"
  by (simp add: mask_eq_def)

lemma nth_mask_assign [simp]:
  "i < length ms \<Longrightarrow> i < length xs \<Longrightarrow> mask_assign ms v xs ! i = (if ms ! i then v else xs ! i)"
  by (simp add: mask_assign_def)

lemma nth_mask_eq [simp]:
  "i < length ms \<Longrightarrow> i < length xs \<Longrightarrow> mask_eq ms xs v ! i = (ms ! i \<and> xs ! i = v)"
  by (simp add: mask_eq_def)

lemma apply_mapping_nth:
  assumes "length sel = length orig" "length out = length orig" "distinct (map fst m)"
  shows "length (apply_mapping sel orig m out) = length orig \<and>
    (\<forall>i < length orig. apply_mapping sel orig m out ! i =
       (if sel ! i then (case map_of m (orig ! i) of None \<Rightarrow> out ! i | Some t \<Rightarrow> t) else out ! i))"
  using assms
proof (induction m arbitrary: out)
  case Nil
  then show ?case by simp
next
  case (Cons p m)
  obtain s t where p: "p = (s, t)" by (cases p)
  have "map_of m (orig ! i) = None" if "orig ! i = s" for i
    using Cons.prems(3) p that by (auto simp: map_of_eq_None_iff)
  with Cons p show ?case by (auto split: option.splits)
qed

lemma map2_flippedI:
  assumes "length sel = length ls" "length xs = length ls"
    and "\<And>i. i < length ls \<Longrightarrow> xs ! i = flipped f (sel ! i) (ls ! i)"
  shows "xs = map2 (flipped f) sel ls"
  by (rule nth_equalityI) (use assms in simp_all)

lemma rand_okD:
  assumes "rand_ok R"
  shows "length (g_rand R g n) = n" "u \<in> set (g_rand R g n) \<Longrightarrow> fl_le (Fin 0) u \<and> fl_less u (Fin 1)"
    "length (g_randint2 R g n) = n" "b \<in> set (g_randint2 R g n) \<Longrightarrow> b = 0 \<or> b = 1"
    "length (g_normal R g m s n) = n" "length (g_randn R g n) = n"
proof -
  note d = assms [unfolded rand_ok_def]
  show "length (g_rand R g n) = n" using d by simp
  show "fl_le (Fin 0) u \<and> fl_less u (Fin 1)" if "u \<in> set (g_rand R g n)" using d that by simp
  show "length (g_randint2 R g n) = n" using d by simp
  show "length (g_normal R g m s n) = n" using d by simp
  show "length (g_randn R g n) = n" using d by simp
  show "b = 0 \<or> b = 1" if "b \<in> set (g_randint2 R g n)"
  proof -
    have "set (g_randint2 R g n) \<subseteq> {0, 1}" using d by simp
    with that show ?thesis by auto
  qed
qed

text \<open>
  A label flip rewrites exactly the labels the configuration names. When a batch is attacked, the result
  has the batch's device and length; each position is either not selected by its own uniform draw and
  unchanged, or selected and replaced by the label that the mapping, the source and target classes, the
  target class alone or the swap of the two classes present assigns to it. With probability 1 every
  position is selected.
\<close>

theorem transform_labels_exact:
  assumes R: "rand_ok R" and k: "kind c = ''label_flip''" and p: "\<not> fl_eq (probability c) (Fin 0)"
    and m: "distinct (map fst (label_mapping c))"
    and out: "transform_labels R c (LabelTensor d ls) round_id batch_id = Inr out"
  shows "\<exists>sel. length sel = length ls \<and>
    out = LabelTensor d (map2 (flipped (flip_target c (sort (remdups ls)))) sel ls) \<and>
    (probability c = Fin 1 \<longrightarrow> (\<forall>i < length ls. sel ! i))"
proof -
  define us where "us = g_rand R (generator_for d (attack_seed c) round_id batch_id 11) (length ls)"
  define sel where "sel = map (\<lambda>u. fl_less u (probability c)) us"
  have len: "length sel = length ls" using rand_okD(1) [OF R] by (simp add: sel_def us_def)
  have all: "sel ! i" if "probability c = Fin 1" "i < length ls" for i
  proof -
    have "us ! i \<in> set us" using that(2) len by (simp add: sel_def)
    then have "fl_less (us ! i) (Fin 1)" using rand_okD(2) [OF R] unfolding us_def by blast
    then show ?thesis using that len by (simp add: sel_def)
  qed
  note eq = out [unfolded transform_labels_def Let_def labels_obj.case, folded us_def, folded sel_def]
  let ?goal = "out = LabelTensor d (map2 (flipped (flip_target c (sort (remdups ls)))) sel ls)"
  have ?goal
  proof (cases "label_mapping c = []")
    case False
    then have o: "out = LabelTensor d (apply_mapping sel ls (label_mapping c) ls)"
      using eq k p by simp
    show ?thesis unfolding o labels_obj.inject
      by (intro conjI refl map2_flippedI [OF len])
        (use apply_mapping_nth [OF len refl m] False in \<open>simp_all add: flipped_def flip_target_def\<close>)
  next
    case True
    consider (source) s t where "source_class c = Some s" "target_class c = Some t"
        "out = LabelTensor d (mask_assign (mask_eq sel ls s) t ls)"
      | (target) t where "source_class c = None" "target_class c = Some t" "out = LabelTensor d (mask_assign sel t ls)"
      | (swap) a b where "source_class c = None" "target_class c = None" "sort (remdups ls) = [a, b]"
        "out = LabelTensor d (mask_assign (mask_eq sel ls b) a (mask_assign (mask_eq sel ls a) b ls))"
      using eq k p True by (simp split: option.splits list.splits)
    then show ?thesis
    proof cases
      case swap
      have "distinct [a, b]" by (metis swap(3) distinct_remdups distinct_sort)
      then show ?thesis unfolding swap(4) labels_obj.inject using len True swap(1-3)
        by (intro conjI refl map2_flippedI) (auto simp: flipped_def flip_target_def)
    next
      case source
      show ?thesis unfolding source(3) labels_obj.inject using len True source(1,2)
        by (intro conjI refl map2_flippedI) (auto simp: flipped_def flip_target_def)
    next
      case target
      show ?thesis unfolding target(3) labels_obj.inject using len True target(1,2)
        by (intro conjI refl map2_flippedI) (auto simp: flipped_def flip_target_def)
    qed
  qed
  with len all show ?thesis by blast
qed

text \<open>A generator that draws constants, for evaluation.\<close>

definition rng_const :: torch_rng where
  "rng_const =
     \<lparr>g_rand = (\<lambda>g n. replicate n (Fin 0)), g_normal = (\<lambda>g m s n. replicate n m),
      g_randn = (\<lambda>g n. replicate n (Fin 0)), g_randint2 = (\<lambda>g n. replicate n 1)\<rparr>"

lemma rand_ok_const: "rand_ok rng_const"
  by (auto simp: rand_ok_def rng_const_def)

theorem transform_labels_exact_witness:
  "\<exists>sel. length sel = length [1, 7, 1] \<and>
    LabelTensor ''cpu'' [7, 7, 7] = LabelTensor ''cpu''
      (map2 (flipped (flip_target (default_AttackConfig\<lparr>kind := ''label_flip'', source_class := Some 1,
         target_class := Some 7\<rparr>) (sort (remdups [1, 7, 1])))) sel [1, 7, 1])"
proof -
  let ?c = "default_AttackConfig\<lparr>kind := ''label_flip'', source_class := Some 1, target_class := Some 7\<rparr>"
  have "transform_labels rng_const ?c (LabelTensor ''cpu'' [1, 7, 1]) 0 0 = Inr (LabelTensor ''cpu'' [7, 7, 7])"
    by (simp add: transform_labels_def default_AttackConfig_def fl_eq_def rng_const_def mask_assign_def mask_eq_def)
  from transform_labels_exact [OF rand_ok_const _ _ _ this] show ?thesis
    by (auto simp: default_AttackConfig_def fl_eq_def)
qed

section \<open>Directions of the update attacks\<close>

text \<open>A vector norm is not negative.\<close>

definition norm_nonneg :: "torch \<Rightarrow> bool" where
  "norm_nonneg T \<longleftrightarrow> (\<forall>xs. all_finite xs \<longrightarrow> fl_le (Fin 0) (t_norm T xs))"

lemma norm_nonneg_exact: "norm_nonneg torch_exact"
proof -
  have "0 \<le> sum_list (map (\<lambda>x. (val x)\<^sup>2) xs)" for xs by (rule sum_list_nonneg) auto
  then show ?thesis by (simp add: norm_nonneg_def torch_exact_def exact_norm_def)
qed

lemma fmt_ok_of [simp]: "fmt_ok (fmt_of d)" "fmt_ok (opmath d)"
  by (simp_all add: fmt_of_def opmath_def split: dtype.splits)

lemma to_fmt_Fin:
  assumes "fmt_ok F" "to_fmt F x = Fin r"
  obtains u where "x = Fin u" "0 \<le> u \<Longrightarrow> 0 \<le> r" "u \<le> 0 \<Longrightarrow> r \<le> 0"
proof (cases x)
  case (Fin u)
  have "0 \<le> r" if "0 \<le> u" using rnd_nonneg [OF assms(1) that] assms(2) Fin by simp
  moreover have "r \<le> 0" if "u \<le> 0" using rnd_nonpos [OF assms(1) that] assms(2) Fin by simp
  ultimately show ?thesis using that Fin by blast
qed (use assms in simp_all)

lemma fl_mul_Fin:
  assumes "fmt_ok F" "fl_mul F x y = Fin r"
  obtains u v where "x = Fin u" "y = Fin v" "0 \<le> u * v \<Longrightarrow> 0 \<le> r" "u * v \<le> 0 \<Longrightarrow> r \<le> 0"
proof -
  obtain u v where uv: "x = Fin u" "y = Fin v" "rnd F (u * v) = Fin r"
    using assms(2) by (cases x; cases y) (auto simp: sgn_inf_def split: if_splits)
  have "0 \<le> r" if "0 \<le> u * v" using rnd_nonneg [OF assms(1) that] uv(3) by simp
  moreover have "r \<le> 0" if "u * v \<le> 0" using rnd_nonpos [OF assms(1) that] uv(3) by simp
  ultimately show ?thesis using that uv by blast
qed

lemma scalar_mul_Fin:
  assumes "scalar_mul d x c = Fin r"
  obtains u v where "x = Fin u" "c = Fin v" "0 \<le> u * v \<Longrightarrow> 0 \<le> r" "u * v \<le> 0 \<Longrightarrow> r \<le> 0"
proof -
  obtain q where q: "fl_mul (opmath d) x (to_fmt (opmath d) c) = Fin q" "0 \<le> q \<Longrightarrow> 0 \<le> r" "q \<le> 0 \<Longrightarrow> r \<le> 0"
    using assms by (auto simp: scalar_mul_def elim!: to_fmt_Fin [rotated])
  obtain u w where u: "x = Fin u" "to_fmt (opmath d) c = Fin w" "0 \<le> u * w \<Longrightarrow> 0 \<le> q" "u * w \<le> 0 \<Longrightarrow> q \<le> 0"
    using q(1) by (auto elim!: fl_mul_Fin [rotated])
  obtain v where v: "c = Fin v" "0 \<le> v \<Longrightarrow> 0 \<le> w" "v \<le> 0 \<Longrightarrow> w \<le> 0"
    using u(2) by (auto elim!: to_fmt_Fin [rotated])
  show ?thesis
  proof (rule that [OF u(1) v(1)])
    show "0 \<le> r" if "0 \<le> u * v"
      using that u v q by (metis mult_nonneg_nonneg mult_nonpos_nonpos mult_zero_left order_refl zero_le_mult_iff)
    show "r \<le> 0" if "u * v \<le> 0"
      using that u v q by (metis mult_le_0_iff)
  qed
qed

lemma adaptive_poison_impl_Inr:
  assumes "adaptive_poison_impl T update scale ratio = Inr r" "t_norm T (tdata update) \<noteq> Fin 0"
  obtains (kept) "is_fin (t_norm T (tdata update))" "r = scale_tensor update (fl_neg scale)"
  | (shrunk) m where "is_fin (t_norm T (tdata update))"
      "m = scalar_mul (tdtype update) (t_norm T (tdata update)) ratio"
      "fl_less m (t_norm T (tdata (scale_tensor update (fl_neg scale))))"
      "tdata r = map (\<lambda>x. fl_mul (fmt_of (tdtype update)) x
         (fl_div (fmt_of (tdtype update)) m (t_norm T (tdata (scale_tensor update (fl_neg scale))))))
         (tdata (scale_tensor update (fl_neg scale)))"
  using assms by (auto simp: adaptive_poison_impl_def Let_def split: if_splits)

text \<open>The factor that shrinks the candidate is a finite number, not negative.\<close>

lemma shrink_factor_nonneg:
  assumes "fmt_ok F" "fl_le (Fin 0) m" "fl_less m n" "fl_div F m n = Fin q"
  shows "0 \<le> q"
proof -
  obtain a where a: "m = Fin a" "0 \<le> a" using assms(2,3) by (cases m; cases n) auto
  show ?thesis
  proof (cases n)
    case (Fin b)
    then have "rnd F (a / b) = Fin q" "0 < b" using assms(3,4) a by auto
    then show ?thesis using rnd_nonneg [OF assms(1), of "a / b"] a by simp
  qed (use assms a in auto)
qed

text \<open>
  The adaptive attack pushes against the honest update in every coordinate. When the update is finite
  with a non-zero norm, the scale is not negative and the norm ratio positive, and the poisoned vector is
  finite (the worker checks this before it sends it), each poisoned coordinate has the opposite sign of the
  honest one or is zero, whether or not the norm envelope had to shrink the candidate, and the shape is kept.
\<close>

theorem adaptive_poison_opposes:
  assumes T: "norm_nonneg T" and u: "all_finite (tdata update)" "t_norm T (tdata update) \<noteq> Fin 0"
    and sc: "\<not> fl_less scale (Fin 0)" and ratio: "fl_less (Fin 0) ratio"
    and r: "adaptive_poison T update scale ratio = Inr r" "all_finite (tdata r)"
  shows "numel r = numel update \<and>
    (\<forall>i < numel update. (0 \<le> val (tdata update ! i) \<longrightarrow> val (tdata r ! i) \<le> 0) \<and>
       (val (tdata update ! i) \<le> 0 \<longrightarrow> 0 \<le> val (tdata r ! i)))"
proof -
  let ?cand = "scale_tensor update (fl_neg scale)"
  have nth: "tdata ?cand ! i = scalar_mul (tdtype update) (tdata update ! i) (fl_neg scale)"
    if "i < numel update" for i
    using that by (simp add: scale_tensor_def numel_def)
  have len: "numel ?cand = numel update" by (simp add: scale_tensor_def numel_def)
  have opp: "(0 \<le> val (tdata update ! i) \<longrightarrow> val (tdata ?cand ! i) \<le> 0) \<and>
      (val (tdata update ! i) \<le> 0 \<longrightarrow> 0 \<le> val (tdata ?cand ! i))"
    if i: "i < numel update" and fin: "is_fin (tdata ?cand ! i)" for i
  proof -
    obtain q where q: "scalar_mul (tdtype update) (tdata update ! i) (fl_neg scale) = Fin q"
      using fin nth [OF i] by (metis is_fin_iff)
    then obtain a b where ab: "tdata update ! i = Fin a" "fl_neg scale = Fin b"
        "0 \<le> a * b \<Longrightarrow> 0 \<le> q" "a * b \<le> 0 \<Longrightarrow> q \<le> 0"
      by (elim scalar_mul_Fin) blast
    have "b \<le> 0" using sc ab(2) by (cases scale) auto
    then show ?thesis using ab(3,4) nth [OF i] q ab(1)
      by (auto simp: mult_le_0_iff zero_le_mult_iff)
  qed
  have fin_r: "is_fin (tdata r ! i)" if "i < length (tdata r)" for i
    using r(2) that by (simp add: all_finite_def list_all_iff)
  show ?thesis using r(1) [unfolded adaptive_poison_def] u(2)
  proof (cases rule: adaptive_poison_impl_Inr)
    case kept
    then show ?thesis using opp len fin_r by (simp add: numel_def)
  next
    case (shrunk m)
    let ?F = "fmt_of (tdtype update)" and ?n = "t_norm T (tdata ?cand)"
    have lr: "numel r = numel update" using shrunk(4) len by (simp add: numel_def)
    have n0: "fl_le (Fin 0) (t_norm T (tdata update))" using T u(1) by (simp add: norm_nonneg_def)
    have m0: "fl_le (Fin 0) m" if ma: "m = Fin a" for a
    proof -
      obtain x y where xy: "t_norm T (tdata update) = Fin x" "ratio = Fin y" "0 \<le> x * y \<Longrightarrow> 0 \<le> a"
        using shrunk(2) [unfolded ma, symmetric] by (elim scalar_mul_Fin) blast
      then show ?thesis using n0 ratio ma by simp
    qed
    show ?thesis
    proof (intro conjI lr allI impI)
      fix i assume i: "i < numel update"
      have ri: "tdata r ! i = fl_mul ?F (tdata ?cand ! i) (fl_div ?F m ?n)"
        using shrunk(4) i len by (simp add: numel_def)
      obtain q where q: "fl_mul ?F (tdata ?cand ! i) (fl_div ?F m ?n) = Fin q"
        using fin_r [of i] i lr ri by (auto simp: numel_def elim: is_finE)
      then obtain a b where ab: "tdata ?cand ! i = Fin a" "fl_div ?F m ?n = Fin b"
          "0 \<le> a * b \<Longrightarrow> 0 \<le> q" "a * b \<le> 0 \<Longrightarrow> q \<le> 0"
        by (auto elim!: fl_mul_Fin [rotated])
      obtain w where w: "m = Fin w" using ab(2) shrunk(3) by (cases m; cases ?n) (auto split: if_splits)
      have b: "0 \<le> b" by (rule shrink_factor_nonneg [OF fmt_ok_of(1) m0 [OF w] shrunk(3) ab(2)])
      have o: "(0 \<le> val (tdata update ! i) \<longrightarrow> a \<le> 0) \<and> (val (tdata update ! i) \<le> 0 \<longrightarrow> 0 \<le> a)"
        using opp [OF i] ab(1) by simp
      show "val (tdata r ! i) \<le> 0" if "0 \<le> val (tdata update ! i)"
        using that o b ab(4) ri q by (simp add: mult_nonpos_nonneg)
      show "0 \<le> val (tdata r ! i)" if "val (tdata update ! i) \<le> 0"
        using that o b ab(3) ri q by simp
    qed
  qed
qed

lemma rnd32_int: "\<bar>n\<bar> < 2 ^ 24 \<Longrightarrow> rnd binary32 (of_int n) = Fin (of_int n)"
  by (rule rnd_representable [OF fmt_ok_binary(2)]) (auto intro!: representable_int simp: binary32_def)

lemmas rnd32_ints =
  rnd32_int [of 0, simplified] rnd32_int [of 1, simplified] rnd32_int [of "-1", simplified]
  rnd32_int [of "numeral k" for k, simplified] rnd32_int [of "- numeral k" for k, simplified]

lemma adaptive_poison_example:
  "adaptive_poison torch_exact (flat_vector [Fin 3, Fin (- 4)]) (Fin 4) (Fin 1) = Inr (flat_vector [Fin (- 3), Fin 4])"
proof -
  have q: "rnd binary32 (1 / 4) = Fin (1 / 4)"
    using rnd_representable [OF fmt_ok_binary(2) representable_dyadic [of 1 binary32 "- 2"]]
    by (simp add: binary32_def)
  have s: "sqrt 25 = 5" "sqrt 400 = 20" by (rule real_sqrt_unique; simp)+
  show ?thesis
    by (simp add: adaptive_poison_def adaptive_poison_impl_def flat_vector_def f32_tensor_def scale_tensor_def
        scalar_mul_def fmt_of_def opmath_def torch_exact_def exact_norm_def all_finite_def Let_def
        rnd32_ints q s power2_eq_square)
qed

theorem adaptive_poison_opposes_witness:
  "numel (flat_vector [Fin (- 3), Fin 4]) = numel (flat_vector [Fin 3, Fin (- 4)]) \<and>
   val (tdata (flat_vector [Fin (- 3), Fin 4]) ! 0) \<le> 0 \<and> 0 \<le> val (tdata (flat_vector [Fin (- 3), Fin 4]) ! 1)"
proof -
  have n: "t_norm torch_exact (tdata (flat_vector [Fin 3, Fin (- 4)])) \<noteq> Fin 0"
    by (simp add: torch_exact_def exact_norm_def all_finite_def)
  have f: "all_finite (tdata (flat_vector [Fin 3, Fin (- 4)]))" "all_finite (tdata (flat_vector [Fin (- 3), Fin 4]))"
    by (simp_all add: all_finite_def)
  have "\<not> fl_less (Fin 4) (Fin 0)" "fl_less (Fin 0) (Fin 1)" by simp_all
  from adaptive_poison_opposes [OF norm_nonneg_exact f(1) n this adaptive_poison_example f(2)]
  show ?thesis by (simp add: numel_def)
qed

lemma coordinated_collusion_Inr:
  assumes "coordinated_collusion T R update round_id scale seed = Inr r"
    and "t_norm T (tdata update) \<noteq> Fin 0" "\<not> fl_eq scale (Fin 0)"
  obtains root where "is_fin (t_norm T (tdata update))" "py_sqrt (py_float (int (numel update))) = Inr root"
    "tdata r = map (\<lambda>b. fl_mul (fmt_of (tdtype update))
       (scalar_div (tdtype update) (fl_sub (fmt_of (tdtype update))
          (fl_mul (fmt_of (tdtype update)) (rnd (fmt_of (tdtype update)) (of_int b)) (Fin 2)) (Fin 1)) root)
       (scalar_mul (tdtype update) (t_norm T (tdata update)) scale))
       (g_randint2 R (generator_for (tdevice update) seed round_id 0 47) (numel update))"
  using assms by (auto simp: coordinated_collusion_def coordinated_collusion_impl_def Let_def res_simps comp_def split: if_splits)

text \<open>
  Colluding workers pull the same way. Two workers that share the collusion seed and attack in the same
  round, with updates of one size, dtype and device and of non-zero norm, send finite poisoned vectors
  whose coordinates have the same sign position by position, however different their honest updates are.
\<close>

theorem coordinated_collusion_aligned:
  assumes T: "norm_nonneg T" and R: "rand_ok R" and sc: "fl_less (Fin 0) scale"
    and like: "numel u2 = numel u1" "tdtype u2 = tdtype u1" "tdevice u2 = tdevice u1"
    and u: "all_finite (tdata u1)" "all_finite (tdata u2)" "t_norm T (tdata u1) \<noteq> Fin 0" "t_norm T (tdata u2) \<noteq> Fin 0"
    and r1: "coordinated_collusion T R u1 round_id scale seed = Inr r1" "all_finite (tdata r1)"
    and r2: "coordinated_collusion T R u2 round_id scale seed = Inr r2" "all_finite (tdata r2)"
  shows "numel r1 = numel u1 \<and> numel r2 = numel u1 \<and>
    (\<forall>i < numel u1. 0 \<le> val (tdata r1 ! i) \<and> 0 \<le> val (tdata r2 ! i) \<or>
       val (tdata r1 ! i) \<le> 0 \<and> val (tdata r2 ! i) \<le> 0)"
proof -
  have s0: "\<not> fl_eq scale (Fin 0)" using sc by (cases scale) (auto simp: fl_eq_def)
  let ?F = "fmt_of (tdtype u1)"
  obtain root1 where e1: "py_sqrt (py_float (int (numel u1))) = Inr root1" "tdata r1 = map (\<lambda>b. fl_mul ?F
       (scalar_div (tdtype u1) (fl_sub ?F (fl_mul ?F (rnd ?F (of_int b)) (Fin 2)) (Fin 1)) root1)
       (scalar_mul (tdtype u1) (t_norm T (tdata u1)) scale))
       (g_randint2 R (generator_for (tdevice u1) seed round_id 0 47) (numel u1))"
    using r1(1) u(3) s0 by (rule coordinated_collusion_Inr) blast
  obtain root2 where e2: "py_sqrt (py_float (int (numel u1))) = Inr root2" "tdata r2 = map (\<lambda>b. fl_mul ?F
       (scalar_div (tdtype u1) (fl_sub ?F (fl_mul ?F (rnd ?F (of_int b)) (Fin 2)) (Fin 1)) root2)
       (scalar_mul (tdtype u1) (t_norm T (tdata u2)) scale))
       (g_randint2 R (generator_for (tdevice u1) seed round_id 0 47) (numel u1))"
    by (rule coordinated_collusion_Inr [OF r2(1) u(4) s0, unfolded like]) blast
  have root: "root2 = root1" using e1(1) e2(1) by simp
  define bs where "bs = g_randint2 R (generator_for (tdevice u1) seed round_id 0 47) (numel u1)"
  define dir where "dir = (\<lambda>b. scalar_div (tdtype u1) (fl_sub ?F (fl_mul ?F (rnd ?F (of_int b)) (Fin 2)) (Fin 1)) root1)"
  have t1: "tdata r1 = map (\<lambda>b. fl_mul ?F (dir b) (scalar_mul (tdtype u1) (t_norm T (tdata u1)) scale)) bs"
    using e1(2) by (simp only: bs_def dir_def)
  have t2: "tdata r2 = map (\<lambda>b. fl_mul ?F (dir b) (scalar_mul (tdtype u1) (t_norm T (tdata u2)) scale)) bs"
    using e2(2) by (simp only: bs_def dir_def root)
  have len: "length bs = numel u1" using rand_okD(3) [OF R] by (simp add: bs_def)
  have amp: "0 \<le> a" if w: "all_finite (tdata w)" and a: "scalar_mul (tdtype u1) (t_norm T (tdata w)) scale = Fin a" for w a
  proof -
    obtain x y where xy: "t_norm T (tdata w) = Fin x" "scale = Fin y" "0 \<le> x * y \<Longrightarrow> 0 \<le> a"
      using a by (elim scalar_mul_Fin) blast
    have "fl_le (Fin 0) (t_norm T (tdata w))" using T w by (simp add: norm_nonneg_def)
    then show ?thesis using xy sc by simp
  qed
  have sign: "\<exists>x. dir (bs ! i) = Fin x \<and> (0 \<le> x \<longrightarrow> 0 \<le> val (tdata r ! i)) \<and> (x \<le> 0 \<longrightarrow> val (tdata r ! i) \<le> 0)"
    if t: "tdata r = map (\<lambda>b. fl_mul ?F (dir b) (scalar_mul (tdtype u1) (t_norm T (tdata w)) scale)) bs"
      and w: "all_finite (tdata w)" and f: "all_finite (tdata r)" and i: "i < numel u1" for r w i
  proof -
    have ri: "tdata r ! i = fl_mul ?F (dir (bs ! i)) (scalar_mul (tdtype u1) (t_norm T (tdata w)) scale)"
      using t i len by simp
    have "is_fin (tdata r ! i)" using f i len t by (simp add: all_finite_def list_all_iff)
    then obtain q where q: "tdata r ! i = Fin q" by (rule is_finE)
    then obtain x a where "dir (bs ! i) = Fin x" "scalar_mul (tdtype u1) (t_norm T (tdata w)) scale = Fin a"
        "0 \<le> x * a \<Longrightarrow> 0 \<le> q" "x * a \<le> 0 \<Longrightarrow> q \<le> 0"
      using ri by (auto elim!: fl_mul_Fin [rotated])
    with amp [OF w] q show ?thesis by (auto simp: mult_nonpos_nonneg)
  qed
  show ?thesis
  proof (intro conjI allI impI)
    show "numel r1 = numel u1" "numel r2 = numel u1" using t1 t2 len by (simp_all add: numel_def)
    fix i assume i: "i < numel u1"
    from sign [OF t1 u(1) r1(2) i] sign [OF t2 u(2) r2(2) i]
    show "0 \<le> val (tdata r1 ! i) \<and> 0 \<le> val (tdata r2 ! i) \<or> val (tdata r1 ! i) \<le> 0 \<and> val (tdata r2 ! i) \<le> 0"
      by (metis fl.inject linear)
  qed
qed

lemma collusion_example:
  assumes "sqrt (a * a + b * b + c * c + d * d) = of_int n" "0 < n" "2 * n < 2 ^ 24"
  shows "coordinated_collusion torch_exact rng_const (flat_vector [Fin a, Fin b, Fin c, Fin d]) 3 (Fin 2) 7
     = Inr (flat_vector (replicate 4 (Fin (of_int n))))"
proof -
  have h: "rnd binary32 (1 / 2) = Fin (1 / 2)"
    using rnd_representable [OF fmt_ok_binary(2) representable_dyadic [of 1 binary32 "- 1"]]
    by (simp add: binary32_def)
  have s: "sqrt 4 = 2" by (rule real_sqrt_unique) simp_all
  have f: "py_float 4 = Fin 4" "rnd binary64 2 = Fin 2"
    using py_float_small [of 4] rnd64_int [of 2] by simp_all
  have n: "rnd binary32 (of_int n) = Fin (of_int n)" "rnd binary32 (of_int n * 2) = Fin (of_int n * 2)"
    using rnd32_int [of n] rnd32_int [of "n * 2"] assms by simp_all
  have q: "sqrt (a * a + (b * b + (c * c + d * d))) = of_int n" using assms(1) by (simp add: add.assoc)
  with assms(2) have "a * a + (b * b + (c * c + d * d)) \<noteq> 0" by auto
  then show ?thesis using assms(2)
    by (simp add: coordinated_collusion_def coordinated_collusion_impl_def flat_vector_def f32_tensor_def numel_def
        scalar_mul_def scalar_div_def fmt_of_def opmath_def torch_exact_def exact_norm_def all_finite_def Let_def
        rng_const_def fl_sub_def fl_eq_def rnd32_ints h s f n q eval_nat_numeral)
qed

theorem coordinated_collusion_aligned_witness:
  "numel (flat_vector (replicate 4 (Fin 2))) = numel (flat_vector [Fin 1, Fin 1, Fin 1, Fin 1]) \<and>
   (0 \<le> val (tdata (flat_vector (replicate 4 (Fin 2))) ! 0) \<and> 0 \<le> val (tdata (flat_vector (replicate 4 (Fin 4))) ! 0) \<or>
    val (tdata (flat_vector (replicate 4 (Fin 2))) ! 0) \<le> 0 \<and> val (tdata (flat_vector (replicate 4 (Fin 4))) ! 0) \<le> 0)"
proof -
  let ?u = "flat_vector [Fin 1, Fin 1, Fin 1, Fin 1]" and ?v = "flat_vector [Fin (- 2), Fin 2, Fin 2, Fin 2]"
  have s: "sqrt 4 = 2" "sqrt 16 = 4" by (rule real_sqrt_unique; simp)+
  have e: "coordinated_collusion torch_exact rng_const ?u 3 (Fin 2) 7 = Inr (flat_vector (replicate 4 (Fin 2)))"
    "coordinated_collusion torch_exact rng_const ?v 3 (Fin 2) 7 = Inr (flat_vector (replicate 4 (Fin 4)))"
    using collusion_example [of 1 1 1 1 2] collusion_example [of "- 2" 2 2 2 4] s by simp_all
  have l: "numel ?v = numel ?u" "tdtype ?v = tdtype ?u" "tdevice ?v = tdevice ?u"
    by (simp_all add: numel_def flat_vector_def f32_tensor_def)
  have f: "all_finite (tdata ?u)" "all_finite (tdata ?v)"
    "t_norm torch_exact (tdata ?u) \<noteq> Fin 0" "t_norm torch_exact (tdata ?v) \<noteq> Fin 0"
    by (simp_all add: all_finite_def torch_exact_def exact_norm_def)
  have g: "all_finite (tdata (flat_vector (replicate 4 (Fin 2))))" "all_finite (tdata (flat_vector (replicate 4 (Fin 4))))"
    by (simp_all add: all_finite_def list_all_iff)
  have "fl_less (Fin 0) (Fin 2)" by simp
  from coordinated_collusion_aligned [OF norm_nonneg_exact rand_ok_const this l f e(1) g(1) e(2) g(2)]
  show ?thesis by (simp add: numel_def)
qed

end
