(* ===== verification/Privacy_RDP.thy ===== *)
theory Privacy_RDP
  imports Attacks
begin

text \<open>
  \<open>fl/zerotrust_fl/privacy/rdp.py\<close>: the local differential privacy configuration, the Renyi accountant
  and the clip-and-noise release of an update. \<open>math.log\<close> (a C library function) is the parameter \<open>mlog\<close>.
\<close>

section \<open>Configuration\<close>

record LocalDPConfig =
  dp_enabled :: bool
  clip_norm :: fl
  noise_multiplier :: fl
  dp_delta :: fl
  adjacency :: string
  orders :: "fl list"

definition default_orders :: "fl list" where
  "default_orders =
     [Fin (5 / 4), Fin (3 / 2), Fin (7 / 4), Fin 2, Fin 3, Fin 4, Fin 5, Fin 8, Fin 10, Fin 16, Fin 32, Fin 64]"

definition default_LocalDPConfig :: LocalDPConfig where
  "default_LocalDPConfig =
     \<lparr>dp_enabled = False, clip_norm = Fin 1, noise_multiplier = Fin 1, dp_delta = rnd binary64 (1 / 100000),
      adjacency = ''replace'', orders = default_orders\<rparr>"

definition LocalDPConfig_post_init :: "LocalDPConfig \<Rightarrow> unit res" where
  "LocalDPConfig_post_init c =
     (if fl_le (clip_norm c) (Fin 0) then Inl (ValueError ''clip_norm must be positive'')
      else if fl_le (noise_multiplier c) (Fin 0) then Inl (ValueError ''noise_multiplier must be positive'')
      else if \<not> (fl_less (Fin 0) (dp_delta c) \<and> fl_less (dp_delta c) (Fin 1))
        then Inl (ValueError ''delta must be in (0, 1)'')
      else if adjacency c \<notin> {''add_remove'', ''replace''}
        then Inl (ValueError ''adjacency must be add_remove or replace'')
      else if orders c = [] \<or> list_ex (\<lambda>alpha. fl_le alpha (Fin 1)) (orders c)
        then Inl (ValueError ''every RDP order must be > 1'')
      else Inr ())"

definition sensitivity :: "LocalDPConfig \<Rightarrow> fl" where
  "sensitivity c = py_mul (clip_norm c) (if adjacency c = ''replace'' then Fin 2 else Fin 1)"

definition dp_noise_std :: "LocalDPConfig \<Rightarrow> fl" where
  "dp_noise_std c = py_mul (noise_multiplier c) (sensitivity c)"

section \<open>The accountant\<close>

record RDPAccountant =
  acc_config :: LocalDPConfig
  releases :: int

definition RDPAccountant_init :: "LocalDPConfig \<Rightarrow> int \<Rightarrow> RDPAccountant res" where
  "RDPAccountant_init config n =
     (if n < 0 then Inl (ValueError ''releases cannot be negative'')
      else Inr \<lparr>acc_config = config, releases = n\<rparr>)"

definition acc_step :: "RDPAccountant \<Rightarrow> int \<Rightarrow> RDPAccountant res" where
  "acc_step a cnt =
     (if cnt \<le> 0 then Inl (ValueError ''cnt must be positive'')
      else Inr (a\<lparr>releases := releases a + cnt\<rparr>))"

definition rdp :: "RDPAccountant \<Rightarrow> fl \<Rightarrow> fl res" where
  "rdp a alpha =
     (if fl_le alpha (Fin 1) then Inl (ValueError ''alpha must be > 1'')
      else if \<not> dp_enabled (acc_config a) \<or> releases a = 0 then Inr (Fin 0)
      else
        let sigma = noise_multiplier (acc_config a)
        in res_bind (py_int_float (releases a)) (\<lambda>n.
             py_div (py_mul n alpha) (py_mul (py_mul (Fin 2) sigma) sigma)))"

text \<open>The loop over the orders keeps the first strictly smallest bound.\<close>

fun best_order_loop :: "(fl \<Rightarrow> fl res) \<Rightarrow> fl list \<Rightarrow> fl \<Rightarrow> fl \<Rightarrow> (fl \<times> fl) res" where
  "best_order_loop bound [] best_epsilon best_order = Inr (best_epsilon, best_order)"
| "best_order_loop bound (alpha # rest) best_epsilon best_order =
     res_bind (bound alpha) (\<lambda>eps.
       if fl_less eps best_epsilon then best_order_loop bound rest eps alpha
       else best_order_loop bound rest best_epsilon best_order)"

text \<open>\<open>self.rdp(alpha) + math.log(1.0 / target_delta) / (alpha - 1.0)\<close>\<close>

definition order_bound :: "(fl \<Rightarrow> fl) \<Rightarrow> RDPAccountant \<Rightarrow> fl \<Rightarrow> fl \<Rightarrow> fl res" where
  "order_bound mlog a target_delta alpha =
     res_bind (rdp a alpha) (\<lambda>r.
     res_bind (py_div (Fin 1) target_delta) (\<lambda>inv.
     res_bind (py_div (mlog inv) (py_sub alpha (Fin 1))) (\<lambda>q. Inr (py_add r q))))"

definition epsilon :: "(fl \<Rightarrow> fl) \<Rightarrow> RDPAccountant \<Rightarrow> fl option \<Rightarrow> (fl \<times> fl) res" where
  "epsilon mlog a delta =
     (let target_delta = (case delta of None \<Rightarrow> dp_delta (acc_config a) | Some d \<Rightarrow> d) in
      if \<not> (fl_less (Fin 0) target_delta \<and> fl_less target_delta (Fin 1))
        then Inl (ValueError ''delta must be in (0, 1)'')
      else case orders (acc_config a) of
        [] \<Rightarrow> Inl IndexError
      | first # rest \<Rightarrow>
          if \<not> dp_enabled (acc_config a) \<or> releases a = 0 then Inr (Fin 0, first)
          else best_order_loop (order_bound mlog a target_delta) (first # rest) PInf first)"

section \<open>Protected releases\<close>

record ProtectedUpdate =
  p_update :: tensor
  original_norm :: fl
  clipped_norm :: fl
  clipping_factor :: fl
  p_noise_std :: fl
  epsilon_per_release :: fl
  optimal_order :: fl

text \<open>\<open>os_seed\<close> is what \<open>secrets.randbits(63)\<close> returns; it is used only when no seed is given.\<close>

definition protect_model_update ::
  "torch \<Rightarrow> torch_rng \<Rightarrow> (fl \<Rightarrow> fl) \<Rightarrow> int \<Rightarrow> tensor \<Rightarrow> LocalDPConfig \<Rightarrow> int option \<Rightarrow> ProtectedUpdate res" where
  "protect_model_update T R mlog os_seed update config seed =
     (if numel update = 0 then Inl (ValueError ''model update must not be empty'')
      else if \<not> all_finite (tdata update) then Inl (ValueError ''model update contains non-finite values'')
      else
        let working = (cpu_float update)\<lparr>tcontiguous := True\<rparr>;
            norm = t_norm T (tdata working)
        in if \<not> dp_enabled config then
             (case orders config of
                [] \<Rightarrow> Inl IndexError
              | first # _ \<Rightarrow>
                  Inr \<lparr>p_update = working, original_norm = norm, clipped_norm = norm, clipping_factor = Fin 1,
                       p_noise_std = Fin 0, epsilon_per_release = Fin 0, optimal_order = first\<rparr>)
           else
             res_bind (py_div (clip_norm config) (py_max norm (rnd binary64 (1 / 10 ^ 12)))) (\<lambda>ratio.
               let factor = py_min (Fin 1) ratio;
                   clipped = scale_tensor working factor;
                   effective_seed = (case seed of None \<Rightarrow> os_seed | Some s \<Rightarrow> s);
                   noise = map (\<lambda>z. scalar_mul Float32 z (dp_noise_std config))
                     (g_randn R \<lparr>gen_device = ''cpu'', gen_seed = effective_seed\<rparr> (numel clipped));
                   protected = clipped\<lparr>tdata := map2 f32_add (tdata clipped) noise\<rparr>
               in res_bind (RDPAccountant_init config 1) (\<lambda>accountant.
                  res_bind (epsilon mlog accountant None) (\<lambda>(eps, order).
                    Inr \<lparr>p_update = protected, original_norm = norm,
                         clipped_norm = t_norm T (tdata clipped), clipping_factor = factor,
                         p_noise_std = dp_noise_std config, epsilon_per_release = eps,
                         optimal_order = order\<rparr>))))"

section \<open>Correctness\<close>

definition wf_LocalDPConfig :: "LocalDPConfig \<Rightarrow> bool" where
  "wf_LocalDPConfig c \<longleftrightarrow>
     \<not> fl_le (clip_norm c) (Fin 0) \<and> \<not> fl_le (noise_multiplier c) (Fin 0) \<and>
     fl_less (Fin 0) (dp_delta c) \<and> fl_less (dp_delta c) (Fin 1) \<and>
     adjacency c \<in> {''add_remove'', ''replace''} \<and>
     orders c \<noteq> [] \<and> list_all (\<lambda>alpha. \<not> fl_le alpha (Fin 1)) (orders c)"

interpretation dp_config: validated_record LocalDPConfig_post_init wf_LocalDPConfig
  by unfold_locales (auto simp: LocalDPConfig_post_init_def wf_LocalDPConfig_def list_all_iff list_ex_iff)

lemma fl_less_irrefl: "\<not> fl_less x x"
  by (cases x) auto

lemma fl_less_trans: "fl_less x y \<Longrightarrow> fl_less y z \<Longrightarrow> fl_less x z"
  by (cases x; cases y; cases z) auto

lemma best_order_loop_Inr:
  assumes "best_order_loop bound as best order = Inr (eps, ord)"
  shows "(eps = best \<and> ord = order \<or> ord \<in> set as \<and> bound ord = Inr eps \<and> fl_less eps best) \<and>
    \<not> fl_less best eps \<and> (\<forall>alpha \<in> set as. \<exists>b. bound alpha = Inr b \<and> \<not> fl_less b eps)"
  using assms
proof (induction as arbitrary: best order)
  case Nil
  then show ?case by (simp add: fl_less_irrefl)
next
  case (Cons a as)
  from Cons.prems obtain b where b: "bound a = Inr b" by (auto simp: res_simps)
  show ?case
  proof (cases "fl_less b best")
    case True
    then have "best_order_loop bound as b a = Inr (eps, ord)" using Cons.prems b by simp
    from Cons.IH [OF this] show ?thesis using b True fl_less_trans [of eps b best] fl_less_trans [of best eps b]
      by (cases best; cases b; cases eps) auto
  next
    case False
    then have "best_order_loop bound as best order = Inr (eps, ord)" using Cons.prems b by simp
    from Cons.IH [OF this] show ?thesis using b False fl_less_trans [of b eps best] by (cases best; cases b; cases eps) auto
  qed
qed

definition target_delta :: "RDPAccountant \<Rightarrow> fl option \<Rightarrow> fl" where
  "target_delta a delta = (case delta of None \<Rightarrow> dp_delta (acc_config a) | Some d \<Rightarrow> d)"

lemma epsilon_Inr:
  assumes a: "dp_enabled (acc_config a)" "releases a \<noteq> 0"
    and e: "epsilon mlog a delta = Inr (eps, order)"
  shows "fl_less (Fin 0) (target_delta a delta)" "fl_less (target_delta a delta) (Fin 1)"
    "order \<in> set (orders (acc_config a))"
    "alpha \<in> set (orders (acc_config a)) \<Longrightarrow>
       \<exists>b. order_bound mlog a (target_delta a delta) alpha = Inr b \<and> \<not> fl_less b eps"
    "eps = PInf \<or> order_bound mlog a (target_delta a delta) order = Inr eps"
proof -
  let ?d = "target_delta a delta"
  have d: "fl_less (Fin 0) ?d \<and> fl_less ?d (Fin 1)"
    using e by (cases "fl_less (Fin 0) ?d \<and> fl_less ?d (Fin 1)") (simp_all only: epsilon_def Let_def target_delta_def if_False if_True simp_thms, simp_all)
  then show "fl_less (Fin 0) ?d" "fl_less ?d (Fin 1)" by auto
  obtain first rest where o: "orders (acc_config a) = first # rest"
    and l: "best_order_loop (order_bound mlog a ?d) (first # rest) PInf first = Inr (eps, order)"
    using a e d unfolding epsilon_def Let_def target_delta_def [symmetric]
    by (cases "orders (acc_config a)") (simp_all del: best_order_loop.simps)
  note best = best_order_loop_Inr [OF l]
  show "order \<in> set (orders (acc_config a))" "eps = PInf \<or> order_bound mlog a ?d order = Inr eps"
    using best unfolding o by auto
  show "\<exists>b. order_bound mlog a ?d alpha = Inr b \<and> \<not> fl_less b eps" if "alpha \<in> set (orders (acc_config a))"
    using best that unfolding o by blast
qed

text \<open>
  The reported epsilon is the best bound the configured Renyi orders give. For an enabled accountant
  with at least one release, every configured order has a bound, none is below the epsilon returned, and
  the order returned attains it (or every bound is infinite and the first order is reported).
\<close>

theorem epsilon_optimal:
  assumes a: "dp_enabled (acc_config a)" "releases a \<noteq> 0"
    and e: "epsilon mlog a delta = Inr (eps, order)"
  shows "order \<in> set (orders (acc_config a)) \<and>
    (\<forall>alpha \<in> set (orders (acc_config a)). \<exists>b.
       order_bound mlog a (target_delta a delta) alpha = Inr b \<and> \<not> fl_less b eps) \<and>
    (eps = PInf \<or> order_bound mlog a (target_delta a delta) order = Inr eps)"
  using epsilon_Inr(3-5) [OF assms] by blast

lemma fl_le_inf [simp]: "fl_le x PInf \<longleftrightarrow> x \<noteq> NaN" "fl_le NInf x \<longleftrightarrow> x \<noteq> NaN"
  by (cases x; simp)+

lemma fl_div_mono:
  assumes "fmt_ok F" "fl_le x y" "0 < c"
  shows "fl_le (fl_div F x (Fin c)) (fl_div F y (Fin c))"
  using assms by (cases x; cases y) (auto simp: rnd_mono divide_right_mono rnd_not_NaN)

lemma fl_add_mono:
  assumes "fmt_ok F" "fl_le (Fin 0) x" "fl_le x y" "fl_le (Fin 0) c"
  shows "fl_le (fl_add F x c) (fl_add F y c)"
  using assms by (cases x; cases y; cases c) (auto simp: rnd_mono rnd_not_NaN)

lemma fl_div_nonneg:
  assumes "fmt_ok F" "fl_le (Fin 0) x" "0 < c"
  shows "fl_le (Fin 0) (fl_div F x (Fin c))"
  using assms by (cases x) (auto simp: rnd_nonneg)

text \<open>A finite Python float.\<close>

definition finite_float :: "fl \<Rightarrow> bool" where
  "finite_float x \<longleftrightarrow> is_fin x \<and> representable binary64 (val x)"

text \<open>The logarithm is not negative from 1 on.\<close>

definition log_ok :: "(fl \<Rightarrow> fl) \<Rightarrow> bool" where
  "log_ok mlog \<longleftrightarrow> (\<forall>x. fl_le (Fin 1) x \<longrightarrow> fl_le (Fin 0) (mlog x))"

lemma rdp_mono:
  assumes cfg: "fl_less (Fin 1) alpha" "finite_float alpha" "fl_less (Fin 0) (noise_multiplier c)"
      "is_fin (py_mul (py_mul (Fin 2) (noise_multiplier c)) (noise_multiplier c))"
    and nm: "0 \<le> n" "n \<le> m" and en: "dp_enabled c"
    and r: "rdp \<lparr>acc_config = c, releases = n\<rparr> alpha = Inr x" "rdp \<lparr>acc_config = c, releases = m\<rparr> alpha = Inr y"
  shows "fl_le (Fin 0) x \<and> fl_le x y"
proof -
  obtain al where al: "alpha = Fin al" "1 < al" using cfg(1,2) by (cases alpha) (auto simp: finite_float_def)
  obtain d where d: "py_mul (py_mul (Fin 2) (noise_multiplier c)) (noise_multiplier c) = Fin d"
    using cfg(4) by (rule is_finE)
  have d0: "0 \<le> d"
  proof -
    obtain u v where uv: "py_mul (Fin 2) (noise_multiplier c) = Fin u" "noise_multiplier c = Fin v"
        "0 \<le> u * v \<Longrightarrow> 0 \<le> d"
      using d by (rule fl_mul_Fin [OF fmt_ok_binary(1)]) blast
    moreover have "0 < v" using cfg(3) uv(2) by simp
    moreover have "0 \<le> u" using uv(1,2) \<open>0 < v\<close> rnd_nonneg [OF fmt_ok_binary(1), of "2 * v"] by simp
    ultimately show ?thesis by simp
  qed
  have shape: "(k = 0 \<and> z = Fin 0) \<or> (\<exists>w. py_float k = Fin w \<and> 0 < d \<and> z = fl_div binary64 (rnd binary64 (w * al)) (Fin d))"
    if "rdp \<lparr>acc_config = c, releases = k\<rparr> alpha = Inr z" for k z
  proof (cases "k = 0")
    case True
    then show ?thesis using that en al by (simp add: rdp_def)
  next
    case False
    then show ?thesis using that en al d d0
      by (auto simp: rdp_def Let_def res_simps py_int_float_def py_div_def is_fin_iff split: if_splits)
        (metis fl.inject fl_mul.simps(1) less_le)
  qed
  have fl: "fl_le (Fin 0) (rnd binary64 (w * al))" if "py_float k = Fin w" "0 \<le> k" for k w
  proof -
    have "0 \<le> w" using rnd_nonneg [OF fmt_ok_binary(1), of "of_int k"] that by (simp add: py_float_def)
    then show ?thesis using al by (intro rnd_nonneg) auto
  qed
  show ?thesis
  proof (cases "n = 0")
    case True
    then have "x = Fin 0" using r(1) al by (simp add: rdp_def)
    moreover have "fl_le (Fin 0) y" using shape [OF r(2)] fl [of m] nm by (auto intro: fl_div_nonneg)
    ultimately show ?thesis by simp
  next
    case False
    obtain wn where n: "py_float n = Fin wn" "0 < d" "x = fl_div binary64 (rnd binary64 (wn * al)) (Fin d)"
      using shape [OF r(1)] False by auto
    obtain wm where m: "py_float m = Fin wm" "y = fl_div binary64 (rnd binary64 (wm * al)) (Fin d)"
      using shape [OF r(2)] False nm by auto
    have "wn \<le> wm"
      using rnd_mono [OF fmt_ok_binary(1), of "of_int n" "of_int m"] nm(2) n(1) m(1) by (simp add: py_float_def)
    then have "fl_le (rnd binary64 (wn * al)) (rnd binary64 (wm * al))" using al by (intro rnd_mono) auto
    then show ?thesis using n m(2) fl [OF n(1) nm(1)] by (auto intro: fl_div_mono fl_div_nonneg)
  qed
qed

lemma order_bound_mono:
  assumes L: "log_ok mlog" and delta: "fl_less (Fin 0) delta" "fl_less delta (Fin 1)"
    and cfg: "fl_less (Fin 1) alpha" "finite_float alpha" "fl_less (Fin 0) (noise_multiplier c)"
      "is_fin (py_mul (py_mul (Fin 2) (noise_multiplier c)) (noise_multiplier c))" "dp_enabled c"
    and nm: "0 \<le> n" "n \<le> m"
    and b: "order_bound mlog \<lparr>acc_config = c, releases = n\<rparr> delta alpha = Inr x"
      "order_bound mlog \<lparr>acc_config = c, releases = m\<rparr> delta alpha = Inr y"
  shows "fl_le x y"
proof -
  obtain rn rm inv q where e: "rdp \<lparr>acc_config = c, releases = n\<rparr> alpha = Inr rn"
      "rdp \<lparr>acc_config = c, releases = m\<rparr> alpha = Inr rm" "py_div (Fin 1) delta = Inr inv"
      "py_div (mlog inv) (py_sub alpha (Fin 1)) = Inr q" "x = py_add rn q" "y = py_add rm q"
    using b by (auto simp: order_bound_def res_simps)
  obtain dl where dl: "delta = Fin dl" "0 < dl" "dl < 1" using delta by (cases delta) auto
  have "fl_le (Fin 1) inv"
    using e(3) dl rnd_ge [OF fmt_ok_binary(1) representable_int [of 1 binary64], of "1 / dl"]
    by (auto simp: py_div_def binary64_def)
  then have l0: "fl_le (Fin 0) (mlog inv)" using L by (simp add: log_ok_def)
  obtain al where al: "alpha = Fin al" "1 < al" using cfg(1,2) by (cases alpha) (auto simp: finite_float_def)
  have rep: "representable binary64 al" using cfg(2) al by (simp add: finite_float_def)
  obtain w where w: "py_sub alpha (Fin 1) = Fin w" "0 \<le> w"
    using rnd_between [OF fmt_ok_binary(1) representable_zero [OF fmt_ok_binary(1)] rep, of "al - 1"] al
    by (auto simp: fl_sub_def)
  have "w \<noteq> 0" "q = fl_div binary64 (mlog inv) (Fin w)" using e(4) w by (auto simp: py_div_def split: if_splits)
  then have "fl_le (Fin 0) q" using l0 w by (auto intro: fl_div_nonneg)
  moreover have "fl_le (Fin 0) rn \<and> fl_le rn rm" by (rule rdp_mono [OF cfg(1-4) nm cfg(5) e(1,2)])
  ultimately show ?thesis using e(5,6) by (auto intro: fl_add_mono)
qed

text \<open>
  C23: Composing more releases never lowers the privacy bound. For one enabled configuration with finite
  orders above 1 and a positive noise multiplier, and one target delta, the epsilon of an accountant with
  more releases is at least the epsilon of one with fewer, in the rounded arithmetic of Python floats.
\<close>

theorem epsilon_monotone:
  assumes L: "log_ok mlog" and en: "dp_enabled c"
    and cfg: "list_all (\<lambda>alpha. fl_less (Fin 1) alpha \<and> finite_float alpha) (orders c)"
      "fl_less (Fin 0) (noise_multiplier c)"
      "is_fin (py_mul (py_mul (Fin 2) (noise_multiplier c)) (noise_multiplier c))"
    and nm: "0 < n" "n \<le> m"
    and e1: "epsilon mlog \<lparr>acc_config = c, releases = n\<rparr> delta = Inr (eps1, o1)"
    and e2: "epsilon mlog \<lparr>acc_config = c, releases = m\<rparr> delta = Inr (eps2, o2)"
  shows "fl_le eps1 eps2"
proof -
  let ?d = "target_delta \<lparr>acc_config = c, releases = n\<rparr> delta"
  have dm: "target_delta \<lparr>acc_config = c, releases = m\<rparr> delta = ?d" by (simp add: target_delta_def split: option.split)
  let ?b = "\<lambda>k. order_bound mlog \<lparr>acc_config = c, releases = k\<rparr> ?d"
  have en': "dp_enabled (acc_config \<lparr>acc_config = c, releases = n\<rparr>)" "releases \<lparr>acc_config = c, releases = n\<rparr> \<noteq> 0"
    "dp_enabled (acc_config \<lparr>acc_config = c, releases = m\<rparr>)" "releases \<lparr>acc_config = c, releases = m\<rparr> \<noteq> 0"
    using en nm by simp_all
  note o1 = epsilon_Inr [OF en'(1,2) e1, simplified]
  note o2 = epsilon_Inr [OF en'(3,4) e2, unfolded dm, simplified]
  note d = o1(1,2)
  have mono: "fl_le x y" if "alpha \<in> set (orders c)" "?b i alpha = Inr x" "?b j alpha = Inr y" "0 \<le> i" "i \<le> j" for alpha i j x y
    using that cfg(1) by (intro order_bound_mono [OF L d _ _ cfg(2,3) en that(4,5,2,3)]) (auto simp: list_all_iff)
  have "eps1 \<noteq> NaN" using o1(3,5) mono [of o1 n _ n] nm by auto
  show ?thesis
  proof (cases "eps2 = PInf")
    case True
    then show ?thesis using \<open>eps1 \<noteq> NaN\<close> by simp
  next
    case False
    then have b2: "?b m o2 = Inr eps2" "o2 \<in> set (orders c)" using o2(3,5) by auto
    obtain b where b: "?b n o2 = Inr b" "\<not> fl_less b eps1" using o1(4) b2(2) by blast
    have "fl_le b eps2" using mono [OF b2(2) b(1) b2(1)] nm by simp
    then show ?thesis using b(2) \<open>eps1 \<noteq> NaN\<close> by (cases b; cases eps1; cases eps2) auto
  qed
qed

text \<open>A small configuration and an upper bound of the logarithm, for evaluation.\<close>

definition dp_example :: LocalDPConfig where
  "dp_example = \<lparr>dp_enabled = True, clip_norm = Fin 1, noise_multiplier = Fin 1, dp_delta = Fin (1 / 2),
     adjacency = ''replace'', orders = [Fin 2, Fin 3]\<rparr>"

definition log_upper :: "fl \<Rightarrow> fl" where
  "log_upper x = py_sub x (Fin 1)"

lemma log_ok_upper: "log_ok log_upper"
proof -
  have "fl_le (Fin 0) (log_upper x)" if "fl_le (Fin 1) x" for x
    using that by (cases x) (auto simp: log_upper_def fl_sub_def rnd_nonneg)
  then show ?thesis by (simp add: log_ok_def)
qed

lemmas rnd64_ints =
  rnd64_int [of 0, simplified] rnd64_int [of 1, simplified] rnd64_int [of "-1", simplified]
  rnd64_int [of "numeral k" for k, simplified] rnd64_int [of "- numeral k" for k, simplified]

lemma rnd64_halves: "rnd binary64 (1 / 2) = Fin (1 / 2)" "rnd binary64 (3 / 2) = Fin (3 / 2)"
    "rnd binary64 (7 / 2) = Fin (7 / 2)"
  using rnd_representable [OF fmt_ok_binary(1) representable_dyadic [of 1 binary64 "- 1"]]
    rnd_representable [OF fmt_ok_binary(1) representable_dyadic [of 3 binary64 "- 1"]]
    rnd_representable [OF fmt_ok_binary(1) representable_dyadic [of 7 binary64 "- 1"]]
  by (simp_all add: binary64_def)

lemma epsilon_example:
  "epsilon log_upper \<lparr>acc_config = dp_example, releases = 1\<rparr> None = Inr (Fin 2, Fin 2)"
  "epsilon log_upper \<lparr>acc_config = dp_example, releases = 2\<rparr> None = Inr (Fin 3, Fin 2)"
  by (simp_all add: epsilon_def dp_example_def order_bound_def rdp_def py_int_float_def py_float_def py_div_def
      log_upper_def fl_sub_def rnd64_ints rnd64_halves)

theorem epsilon_optimal_witness:
  "\<exists>b. order_bound log_upper \<lparr>acc_config = dp_example, releases = 1\<rparr>
     (target_delta \<lparr>acc_config = dp_example, releases = 1\<rparr> None) (Fin 3) = Inr b \<and> \<not> fl_less b (Fin 2)"
  using epsilon_optimal [OF _ _ epsilon_example(1)] by (simp add: dp_example_def)

theorem epsilon_monotone_witness:
  "\<exists>eps1 o1 eps2 o2.
     epsilon log_upper \<lparr>acc_config = dp_example, releases = 1\<rparr> None = Inr (eps1, o1) \<and>
     epsilon log_upper \<lparr>acc_config = dp_example, releases = 2\<rparr> None = Inr (eps2, o2) \<and> fl_le eps1 eps2"
proof -
  have rep: "representable binary64 2" "representable binary64 3"
    using representable_int [of 2 binary64] representable_int [of 3 binary64] by (simp_all add: binary64_def)
  have "fl_le (Fin 2) (Fin 3)"
    by (rule epsilon_monotone [OF log_ok_upper _ _ _ _ _ _ epsilon_example])
      (simp_all add: dp_example_def finite_float_def rnd64_ints rep)
  then show ?thesis using epsilon_example by blast
qed

section \<open>Clipping and noise\<close>

lemma clip_coordinate:
  assumes a: "representable binary32 a" and f: "0 \<le> f" "f \<le> 1"
  obtains b where "scalar_mul Float32 (Fin a) (Fin f) = Fin b" "\<bar>b\<bar> \<le> \<bar>a\<bar>"
proof -
  have ok: "fmt_ok binary32" by simp
  have rep: "representable binary32 0" "representable binary32 1"
    using representable_zero [OF ok] representable_int [of 1 binary32] by (simp_all add: binary32_def)
  obtain g where g: "rnd binary32 f = Fin g" "0 \<le> g" "g \<le> 1" using rnd_between [OF ok rep f] by blast
  have "\<exists>b. rnd binary32 (a * g) = Fin b \<and> \<bar>b\<bar> \<le> \<bar>a\<bar>"
  proof (cases "0 \<le> a")
    case True
    have "0 \<le> a * g" "a * g \<le> a" using True g by (auto simp: mult_left_le)
    from rnd_between [OF ok rep(1) a this] True show ?thesis by fastforce
  next
    case False
    then have "a \<le> a * g" "a * g \<le> 0" using g by (auto simp: mult_nonpos_nonneg mult_le_cancel_left1)
    from rnd_between [OF ok a rep(1) this] False show ?thesis by fastforce
  qed
  then obtain b where b: "rnd binary32 (a * g) = Fin b" "\<bar>b\<bar> \<le> \<bar>a\<bar>" by blast
  have "scalar_mul Float32 (Fin a) (Fin f) = to_fmt binary32 (rnd binary32 (a * g))"
    using g by (simp add: scalar_mul_def fmt_of_def opmath_def)
  also have "\<dots> = Fin b" using rnd_idem [OF ok, of "a * g"] b by simp
  finally show ?thesis using b(2) by (rule that)
qed

lemma clipping_factor_unit:
  assumes c: "\<not> fl_le clip (Fin 0)" and n: "fl_le (Fin 0) nrm"
    and r: "py_div clip (py_max nrm tiny) = Inr ratio" and t: "fl_le (Fin 0) tiny"
  obtains f where "py_min (Fin 1) ratio = Fin f" "0 \<le> f" "f \<le> 1"
proof -
  let ?d = "py_max nrm tiny"
  have d: "fl_le (Fin 0) ?d" "?d \<noteq> Fin 0" "ratio = fl_div binary64 clip ?d"
    using n t r by (auto simp: py_max_def py_div_def split: if_splits)
  have "\<not> fl_less ratio (Fin 0)"
  proof (cases ?d)
    case (Fin b)
    then have "0 < b" using d by auto
    show ?thesis
    proof (cases clip)
      case (Fin a)
      then have "fl_le (Fin 0) (rnd binary64 (a / b))" using c \<open>0 < b\<close> by (intro rnd_nonneg) auto
      then show ?thesis using d(3) Fin \<open>?d = Fin b\<close> \<open>0 < b\<close> by (cases "rnd binary64 (a / b)") auto
    qed (use c d(3) \<open>?d = Fin b\<close> \<open>0 < b\<close> in auto)
  next
    case PInf
    then show ?thesis using c d(3) by (cases clip) auto
  qed (use d in auto)
  then show ?thesis using that [of 1] that [of "val ratio"]
    by (cases "fl_less ratio (Fin 1)"; cases ratio) (simp_all add: py_min_def)
qed

lemma tiny_nonneg: "fl_le (Fin 0) (rnd binary64 (1 / 10 ^ 12))"
  by (rule rnd_nonneg) simp_all



end
