(* ===== verification/Py_String.thy ===== *)
theory Py_String
  imports ZT_Prelude
begin

text \<open>
  The \<open>str\<close> methods the sources call, on strings of code points below 256 (Isabelle's \<open>char\<close>).
\<close>

definition py_isspace :: "char \<Rightarrow> bool" where
  "py_isspace c = (let n = of_char c :: nat in (9 \<le> n \<and> n \<le> 13) \<or> (28 \<le> n \<and> n \<le> 32) \<or> n = 133 \<or> n = 160)"

definition py_lstrip :: "string \<Rightarrow> string" where
  "py_lstrip s = dropWhile py_isspace s"

definition py_rstrip :: "string \<Rightarrow> string" where
  "py_rstrip s = rev (dropWhile py_isspace (rev s))"

text \<open>\<open>s.strip()\<close>\<close>

definition py_strip :: "string \<Rightarrow> string" where
  "py_strip s = py_rstrip (py_lstrip s)"

text \<open>\<open>s.lower()\<close>\<close>

definition py_lower_char :: "char \<Rightarrow> char" where
  "py_lower_char c =
     (let n = of_char c :: nat
      in if (65 \<le> n \<and> n \<le> 90) \<or> (192 \<le> n \<and> n \<le> 222 \<and> n \<noteq> 215) then char_of (n + 32) else c)"

definition py_lower :: "string \<Rightarrow> string" where
  "py_lower s = map py_lower_char s"

text \<open>\<open>s.replace(a, b)\<close> for a one-character \<open>a\<close>\<close>

definition py_replace :: "char \<Rightarrow> string \<Rightarrow> string \<Rightarrow> string" where
  "py_replace a b s = concat (map (\<lambda>c. if c = a then b else [c]) s)"

lemma dropWhile_isspace_Nil: "dropWhile py_isspace s = [] \<longleftrightarrow> (\<forall>c \<in> set s. py_isspace c)"
  by (induction s) auto

lemma py_strip_Nil: "py_strip s = [] \<longleftrightarrow> (\<forall>c \<in> set s. py_isspace c)"
proof -
  have "py_strip s = [] \<longleftrightarrow> (\<forall>c \<in> set (dropWhile py_isspace s). py_isspace c)"
    by (simp add: py_strip_def py_rstrip_def py_lstrip_def dropWhile_isspace_Nil)
  also have "\<dots> \<longleftrightarrow> (\<forall>c \<in> set s. py_isspace c)"
    by (induction s) auto
  finally show ?thesis .
qed

lemma py_strip_no_space:
  assumes "\<forall>c \<in> set s. \<not> py_isspace c"
  shows "py_strip s = s"
proof -
  have "dropWhile py_isspace s = s" using assms by (cases s) auto
  moreover have "dropWhile py_isspace (rev s) = rev s"
    using assms by (cases "rev s") (auto simp: dropWhile_eq_self_iff hd_in_set)
  ultimately show ?thesis by (simp add: py_strip_def py_lstrip_def py_rstrip_def)
qed

section \<open>Numbers as text\<close>

definition is_digit :: "char \<Rightarrow> bool" where
  "is_digit c = (let n = of_char c :: nat in 48 \<le> n \<and> n \<le> 57)"

definition digit_value :: "char \<Rightarrow> int" where
  "digit_value c = int (of_char c) - 48"

text \<open>The digits of an integer literal: single underscores may separate them. The flag: a digit came last.\<close>

fun py_digits :: "int \<Rightarrow> bool \<Rightarrow> string \<Rightarrow> int option" where
  "py_digits acc digit [] = (if digit then Some acc else None)"
| "py_digits acc digit (c # cs) =
     (if is_digit c then py_digits (acc * 10 + digit_value c) True cs
      else if c = CHR ''_'' \<and> digit then py_digits acc False cs
      else None)"

text \<open>\<open>int(s)\<close>, with the interpreter's limit of 4300 digits.\<close>

definition py_int :: "string \<Rightarrow> int res" where
  "py_int s =
     (let t = py_strip s;
          negative = (t \<noteq> [] \<and> hd t = CHR ''-'');
          body = (if t \<noteq> [] \<and> (hd t = CHR ''-'' \<or> hd t = CHR ''+'') then tl t else t)
      in if 4300 < length (filter is_digit body) then Inl (ValueError ''Exceeds the limit for integer string conversion'')
         else case py_digits 0 False body of
            None \<Rightarrow> Inl (ValueError ''invalid literal for int()'')
          | Some n \<Rightarrow> Inr (if negative then - n else n))"

text \<open>\<open>str(n)\<close> of a natural number.\<close>

fun py_str_nat :: "nat \<Rightarrow> string" where
  "py_str_nat n = (if n < 10 then [char_of (48 + n)] else py_str_nat (n div 10) @ [char_of (48 + n mod 10)])"

declare py_str_nat.simps [simp del]

text \<open>\<open>str(n)\<close> of an integer, and its zero-padded form \<open>f"{n:02d}"\<close> for a natural number.\<close>

definition py_str_int :: "int \<Rightarrow> string" where
  "py_str_int n = (if n < 0 then CHR ''-'' # py_str_nat (nat (- n)) else py_str_nat (nat n))"

definition py_pad2 :: "nat \<Rightarrow> string" where
  "py_pad2 n = (if n < 10 then CHR ''0'' # py_str_nat n else py_str_nat n)"

lemma is_digit_char [simp]: "n < 10 \<Longrightarrow> is_digit (char_of (48 + n))" "n < 10 \<Longrightarrow> digit_value (char_of (48 + n)) = int n"
  by (simp_all add: is_digit_def digit_value_def of_char_of)

lemma py_digits_str: "\<exists>k. py_digits acc d (py_str_nat n @ s) = py_digits (acc * 10 ^ k + int n) True s"
proof (induction n arbitrary: acc d s rule: py_str_nat.induct)
  case (1 n)
  show ?case
  proof (cases "n < 10")
    case True
    then show ?thesis by (subst py_str_nat.simps) (auto intro!: exI [of _ 1])
  next
    case False
    let ?c = "char_of (48 + n mod 10) :: char"
    from 1 [OF False, of acc d "?c # s"] obtain k where
      "py_digits acc d (py_str_nat (n div 10) @ ?c # s) = py_digits (acc * 10 ^ k + int (n div 10)) True (?c # s)" by blast
    also have "\<dots> = py_digits ((acc * 10 ^ k + int (n div 10)) * 10 + int (n mod 10)) True s" by simp
    also have "(acc * 10 ^ k + int (n div 10)) * 10 + int (n mod 10) = acc * 10 ^ Suc k + int n"
      by (simp add: algebra_simps flip: of_nat_mult of_nat_add) (metis mult.commute of_nat_add of_nat_mult of_nat_numeral mod_div_mult_eq add.commute)
    finally show ?thesis using False by (subst py_str_nat.simps) (auto intro!: exI [of _ "Suc k"])
  qed
qed

lemma set_py_str_nat: "c \<in> set (py_str_nat n) \<Longrightarrow> is_digit c"
proof (induction n rule: py_str_nat.induct)
  case (1 n)
  then show ?case by (subst (asm) py_str_nat.simps) (auto split: if_splits)
qed

lemma py_str_nat_ne [simp]: "py_str_nat n \<noteq> []"
  by (subst py_str_nat.simps) auto

lemma length_py_str_nat: "n < 10 ^ k \<Longrightarrow> 0 < k \<Longrightarrow> length (py_str_nat n) \<le> k"
proof (induction k arbitrary: n)
  case (Suc k)
  show ?case
  proof (cases "n < 10")
    case True
    then show ?thesis by (subst py_str_nat.simps) simp
  next
    case False
    then have "0 < k" "n div 10 < 10 ^ k" using Suc.prems by (cases k; simp add: less_mult_imp_div_less)+
    then show ?thesis using Suc.IH False by (subst py_str_nat.simps) simp
  qed
qed simp

lemma digit_not_space: "is_digit c \<Longrightarrow> \<not> py_isspace c" "is_digit c \<Longrightarrow> c \<noteq> CHR ''-''" "is_digit c \<Longrightarrow> c \<noteq> CHR ''+''"
  "is_digit c \<Longrightarrow> c \<noteq> CHR '':''" "is_digit c \<Longrightarrow> c \<noteq> CHR '']''"
  by (auto simp: is_digit_def py_isspace_def Let_def)

lemma py_int_str:
  assumes "length (py_str_nat n) \<le> 4300"
  shows "py_int (py_str_nat n) = Inr (int n)"
proof -
  let ?s = "py_str_nat n"
  have "py_strip ?s = ?s" using set_py_str_nat digit_not_space(1) by (intro py_strip_no_space) blast
  moreover have "hd ?s \<noteq> CHR ''-''" "hd ?s \<noteq> CHR ''+''"
    using set_py_str_nat [OF hd_in_set [OF py_str_nat_ne]] digit_not_space(2,3) by blast+
  moreover have "length (filter is_digit ?s) \<le> 4300"
    using length_filter_le [of is_digit ?s] assms by (rule le_trans)
  moreover obtain k where "py_digits 0 False (?s @ []) = py_digits (0 * 10 ^ k + int n) True []" using py_digits_str by blast
  ultimately show ?thesis by (simp add: py_int_def Let_def)
qed

lemma py_digits_str_nat: "py_digits 0 d (py_str_nat n) = Some (int n)"
  using py_digits_str [of 0 d n "[]"] by auto

lemma few_digits: "length s \<le> k \<Longrightarrow> length (filter P s) \<le> k"
  using length_filter_le [of P s] by (rule le_trans)

lemma py_int_str_int:
  assumes "length (py_str_nat (nat \<bar>n\<bar>)) \<le> 4300"
  shows "py_int (py_str_int n) = Inr n"
proof (cases "n < 0")
  case True
  let ?s = "py_str_nat (nat (- n))"
  have strip: "py_strip (CHR ''-'' # ?s) = CHR ''-'' # ?s"
    using set_py_str_nat digit_not_space(1) by (intro py_strip_no_space) (auto simp: py_isspace_def)
  have "nat \<bar>n\<bar> = nat (- n)" using True by simp
  with assms have "\<not> 4300 < length (filter is_digit ?s)" using few_digits [of ?s 4300 is_digit] by (simp only: not_less)
  then show ?thesis
    using True unfolding py_int_def py_str_int_def Let_def
    by (simp only: if_True strip list.sel list.distinct simp_thms if_False py_digits_str_nat option.case) simp
next
  case False
  then show ?thesis using py_int_str [of "nat n"] assms by (simp add: py_str_int_def)
qed

lemma py_str_nat_inject [simp]: "py_str_nat m = py_str_nat n \<longleftrightarrow> m = n"
  using py_digits_str_nat [of False m] py_digits_str_nat [of False n] by (metis option.inject of_nat_eq_iff)

lemma py_pad2_inject [simp]: "py_pad2 m = py_pad2 n \<longleftrightarrow> m = n"
proof -
  have "py_digits 0 False (py_pad2 k) = Some (int k)" for k
    by (simp add: py_pad2_def is_digit_def digit_value_def py_digits_str_nat)
  from this [of m] this [of n] show ?thesis by (metis option.inject of_nat_eq_iff)
qed

end
