(* ===== verification/Worker.thy ===== *)
theory Worker
  imports Privacy_RDP Py_String
begin

text \<open>
  \<open>fl/zerotrust_fl/engine/worker.py\<close>: the worker's configuration and messages, loading of the global
  parameters, one local training round and the process loop.

  The neural network, its optimizer and the data loader are PyTorch's: they are the fields of the
  parameter record \<open>nn\<close>, over a type \<open>'m\<close> of models with their optimizer and a type \<open>'x\<close> of inputs.
  NumPy's generator is the parameter record \<open>wrng\<close>. A method that mutates the model returns it together
  with its result, also when it raises. Sleeping has no effect on the state and is left out; the
  elapsed time of a round is an argument.
\<close>

section \<open>Configuration and messages\<close>

datatype kwarg = KInt int | KInts "int list" | KFloat fl | KOther

record ModelSpec =
  factory_path :: string
  spec_kwargs :: "(string \<times> kwarg) list"

record WorkerConfig =
  node_id :: string
  batch_size :: int
  local_epochs_min :: int
  local_epochs_max :: int
  learning_rate :: fl
  learning_rate_jitter :: fl
  optimizer :: string
  optimizer_kwargs :: "(string \<times> fl) list"
  w_device :: string
  compute_delay_seconds :: "fl list"
  network_delay_seconds :: "fl list"
  max_grad_norm :: "fl option"
  torch_num_threads :: int
  w_seed :: int
  w_malicious :: bool
  attack :: AttackConfig
  local_dp :: LocalDPConfig

definition validate_delay_range :: "fl list \<Rightarrow> unit res" where
  "validate_delay_range value =
     (case value of
        [low, high] \<Rightarrow>
          if fl_less low (Fin 0) \<or> fl_less high low
            then Inl (ValueError ''delay range must satisfy 0 <= min <= max'') else Inr ()
      | _ \<Rightarrow> Inl (ValueError ''delay range must be a two-value range''))"

definition WorkerConfig_post_init :: "WorkerConfig \<Rightarrow> unit res" where
  "WorkerConfig_post_init c =
     (if py_strip (node_id c) = [] then Inl (ValueError ''node_id is required'')
      else if batch_size c \<le> 0 then Inl (ValueError ''batch_size must be positive'')
      else if local_epochs_min c \<le> 0 \<or> local_epochs_max c < local_epochs_min c
        then Inl (ValueError ''local epoch range is invalid'')
      else if fl_le (learning_rate c) (Fin 0) then Inl (ValueError ''learning_rate must be positive'')
      else if fl_less (learning_rate_jitter c) (Fin 0)
        then Inl (ValueError ''learning_rate_jitter cannot be negative'')
      else if py_lower (optimizer c) \<notin> {''sgd'', ''adam''}
        then Inl (ValueError ''optimizer must be sgd or adam'')
      else res_bind (validate_delay_range (compute_delay_seconds c)) (\<lambda>_.
           res_bind (validate_delay_range (network_delay_seconds c)) (\<lambda>_.
           if (case max_grad_norm c of None \<Rightarrow> False | Some g \<Rightarrow> fl_le g (Fin 0))
             then Inl (ValueError ''max_grad_norm must be positive'')
           else if torch_num_threads c \<le> 0 then Inl (ValueError ''torch_num_threads must be positive'')
           else Inr ())))"

record WorkerSpec =
  spec_config :: WorkerConfig
  sample_indices :: "nat list"

record TrainCommand =
  cmd_round_id :: int
  cmd_global_parameters :: pyobj

datatype command = Train TrainCommand | Stop | OtherCommand

record WorkerResult =
  r_node_id :: string
  r_round_id :: int
  r_update :: "tensor option"
  r_sample_count :: int
  r_loss :: fl
  r_gradient_norms :: "fl list"
  r_dynamic_epochs :: int
  r_training_duration_ms :: int
  r_simulated_latency_ms :: int
  r_malicious :: bool
  r_attack_kind :: string
  r_dp_original_norm :: "fl option"
  r_dp_clipped_norm :: "fl option"
  r_dp_noise_std :: "fl option"
  r_dp_epsilon_per_release :: "fl option"
  r_error :: "string option"

definition succeeded :: "WorkerResult \<Rightarrow> bool" where
  "succeeded r = (r_error r = None \<and> r_update r \<noteq> None)"

section \<open>Networks, loaders and generators as parameters\<close>

text \<open>A batch as the loader yields it: a pair of inputs and labels, or anything else.\<close>

datatype 'x batch = Batch 'x "int list" | BadBatch

record ('m, 'x) nn =
  nn_vector :: "'m \<Rightarrow> tensor"                           \<comment> \<open>\<open>parameters_to_vector(model.parameters())\<close>\<close>
  nn_load :: "'m \<Rightarrow> tensor \<Rightarrow> 'm"                       \<comment> \<open>\<open>vector_to_parameters\<close>\<close>
  nn_buffers :: "'m \<Rightarrow> nat list"                        \<comment> \<open>\<open>numel()\<close> of every buffer\<close>
  nn_optimizer :: "string \<Rightarrow> (string \<times> fl) list \<Rightarrow> fl \<Rightarrow> 'm \<Rightarrow> 'm"   \<comment> \<open>a fresh SGD or Adam with this rate\<close>
  nn_loss :: "'m \<Rightarrow> 'x \<Rightarrow> int list \<Rightarrow> fl"                \<comment> \<open>\<open>criterion(model(inputs), labels)\<close>\<close>
  nn_backward :: "'m \<Rightarrow> 'x \<Rightarrow> int list \<Rightarrow> fl list option list"   \<comment> \<open>the gradient of each parameter\<close>
  nn_step :: "'m \<Rightarrow> fl list option list \<Rightarrow> fl option \<Rightarrow> 'm"    \<comment> \<open>clip to the norm if given, \<open>optimizer.step()\<close>\<close>
  nn_loader :: "nat list \<Rightarrow> int \<Rightarrow> int \<Rightarrow> nat \<Rightarrow> 'x batch list"  \<comment> \<open>subset, batch size, seed, epoch\<close>

record 'g wrng =
  wr_init :: "int \<Rightarrow> 'g"
  wr_integers :: "'g \<Rightarrow> int \<Rightarrow> int \<Rightarrow> (int \<times> 'g) res"
  wr_uniform :: "'g \<Rightarrow> fl \<Rightarrow> fl \<Rightarrow> (fl \<times> 'g) res"

text \<open>What the round relies on: loading a vector and training keep the number of parameters.\<close>

definition nn_ok :: "('m, 'x) nn \<Rightarrow> bool" where
  "nn_ok M \<longleftrightarrow>
     (\<forall>m v. numel v = numel (nn_vector M m) \<longrightarrow> numel (nn_vector M (nn_load M m v)) = numel v) \<and>
     (\<forall>m o_name kw lr. numel (nn_vector M (nn_optimizer M o_name kw lr m)) = numel (nn_vector M m)) \<and>
     (\<forall>m g c. numel (nn_vector M (nn_step M m g c)) = numel (nn_vector M m))"

section \<open>Building the model\<close>

datatype 'm factory_result = IsModule 'm | NotModule

text \<open>\<open>s.partition(":")\<close>\<close>

definition py_partition_colon :: "string \<Rightarrow> string \<times> string \<times> string" where
  "py_partition_colon s =
     (let before = takeWhile (\<lambda>ch. ch \<noteq> CHR '':'') s; rest = drop (length before) s
      in case rest of [] \<Rightarrow> (s, [], []) | ch # after \<Rightarrow> (before, [ch], after))"

text \<open>\<open>call_factory\<close> imports the module, looks the attribute up and calls it; each step may raise.\<close>

definition build_model ::
  "(string \<Rightarrow> string \<Rightarrow> (string \<times> kwarg) list \<Rightarrow> 'm factory_result res) \<Rightarrow> ModelSpec \<Rightarrow> 'm res" where
  "build_model call_factory spec =
     (case py_partition_colon (factory_path spec) of
        (module_name, separator, attribute) \<Rightarrow>
          if separator = [] \<or> module_name = [] \<or> attribute = []
            then Inl (ValueError ''model factory path must use module.submodule:function format'')
          else res_bind (call_factory module_name attribute (spec_kwargs spec)) (\<lambda>r.
            case r of IsModule m \<Rightarrow> Inr m
            | NotModule \<Rightarrow> Inl (TypeError ''model factory must return torch.nn.Module'')))"

section \<open>One training round\<close>

text \<open>The result and the model afterwards; the model is loaded only when every check passes.\<close>

definition load_global_parameters :: "('m, 'x) nn \<Rightarrow> string \<Rightarrow> 'm \<Rightarrow> pyobj \<Rightarrow> 'm \<times> tensor res" where
  "load_global_parameters M device model global_parameters =
     (case global_parameters of
        PyOther \<Rightarrow> (model, Inl (TypeError ''global parameter vector must be a torch.Tensor''))
      | PyTensor g \<Rightarrow>
          let prepared = (cpu_float g)\<lparr>tdevice := device\<rparr>;
              expected = numel (nn_vector M model)
          in if ndim prepared \<noteq> 1
               then (model, Inl (ValueError ''global parameter vector must be one-dimensional''))
             else if expected \<le> 0
               then (model, Inl (ValueError ''model must contain at least one trainable parameter''))
             else if numel prepared \<noteq> expected
               then (model, Inl (ValueError ''global parameter vector has the wrong number of values''))
             else if \<not> all_finite (tdata prepared)
               then (model, Inl (ValueError ''global parameter vector contains non-finite values''))
             else (nn_load M model prepared, Inr prepared))"

definition make_optimizer :: "('m, 'x) nn \<Rightarrow> WorkerConfig \<Rightarrow> fl \<Rightarrow> 'm \<Rightarrow> 'm res" where
  "make_optimizer M c lr model =
     (if py_lower (optimizer c) = ''sgd'' then Inr (nn_optimizer M ''sgd'' (optimizer_kwargs c) lr model)
      else if py_lower (optimizer c) = ''adam'' then Inr (nn_optimizer M ''adam'' (optimizer_kwargs c) lr model)
      else Inl (RuntimeError ''unsupported optimizer''))"

definition sample_delay :: "'g wrng \<Rightarrow> 'g \<Rightarrow> fl list \<Rightarrow> (fl \<times> 'g) res" where
  "sample_delay G g delay_range =
     (case delay_range of
        [low, high] \<Rightarrow> if fl_eq high (Fin 0) then Inr (Fin 0, g) else wr_uniform G g low high
      | _ \<Rightarrow> Inl (ValueError ''wrong number of values to unpack''))"

text \<open>\<open>torch.sqrt\<close> of the float64 sum of the squared gradients of the parameters that have one.\<close>

fun f64_sqrt :: "fl \<Rightarrow> fl" where
  "f64_sqrt (Fin x) = (if x < 0 then NaN else rnd binary64 (sqrt x))"
| "f64_sqrt NInf = NaN"
| "f64_sqrt x = x"

definition gradient_norm :: "torch \<Rightarrow> fl list option list \<Rightarrow> fl" where
  "gradient_norm T grads =
     f64_sqrt (foldl (\<lambda>squared grad. case grad of None \<Rightarrow> squared
         | Some xs \<Rightarrow> py_add squared (t_sum64 T (map (\<lambda>x. py_mul x x) xs))) (Fin 0) grads)"

record 'm tstate =
  ts_model :: 'm
  ts_total_loss :: fl
  ts_total_examples :: int
  ts_batch_id :: int
  ts_epoch_norm_sum :: fl
  ts_epoch_batches :: int
  ts_gradient_norms :: "fl list"

text \<open>The body of the batch loop: label attack, loss, gradients, step, running totals.\<close>

definition train_batch ::
  "torch \<Rightarrow> torch_rng \<Rightarrow> ('m, 'x) nn \<Rightarrow> WorkerConfig \<Rightarrow> int \<Rightarrow> 'x batch \<Rightarrow> 'm tstate \<Rightarrow> 'm tstate \<times> unit res" where
  "train_batch T R M c round_id b st =
     (case b of
        BadBatch \<Rightarrow> (st, Inl (TypeError ''training dataset must return (inputs, labels)''))
      | Batch inputs raw_labels \<Rightarrow>
          (case (if w_malicious c \<and> attacks_labels (attack c)
                 then transform_labels R (attack c) (LabelTensor (w_device c) raw_labels) round_id (ts_batch_id st)
                 else Inr (LabelTensor (w_device c) raw_labels)) of
             Inl e \<Rightarrow> (st, Inl e)
           | Inr OtherLabels \<Rightarrow> (st, Inl (TypeError ''labels must be a torch.Tensor''))
           | Inr (LabelTensor d labels) \<Rightarrow>
               let loss = nn_loss M (ts_model st) inputs labels in
               if \<not> is_fin loss then (st, Inl (FloatingPointError ''local training produced non-finite loss''))
               else
                 let grads = nn_backward M (ts_model st) inputs labels;
                     grad_norm = gradient_norm T grads;
                     cnt = int (length labels)
                 in (\<lparr>ts_model = nn_step M (ts_model st) grads (max_grad_norm c),
                      ts_total_loss = py_add (ts_total_loss st) (py_mul loss (py_float cnt)),
                      ts_total_examples = ts_total_examples st + cnt,
                      ts_batch_id = ts_batch_id st + 1,
                      ts_epoch_norm_sum = py_add (ts_epoch_norm_sum st) grad_norm,
                      ts_epoch_batches = ts_epoch_batches st + 1,
                      ts_gradient_norms = ts_gradient_norms st\<rparr>, Inr ())))"

fun train_batches ::
  "torch \<Rightarrow> torch_rng \<Rightarrow> ('m, 'x) nn \<Rightarrow> WorkerConfig \<Rightarrow> int \<Rightarrow> 'x batch list \<Rightarrow> 'm tstate \<Rightarrow> 'm tstate \<times> unit res" where
  "train_batches T R M c round_id [] st = (st, Inr ())"
| "train_batches T R M c round_id (b # bs) st =
     (case train_batch T R M c round_id b st of
        (st', Inl e) \<Rightarrow> (st', Inl e)
      | (st', Inr _) \<Rightarrow> train_batches T R M c round_id bs st')"

fun train_epochs ::
  "torch \<Rightarrow> torch_rng \<Rightarrow> ('m, 'x) nn \<Rightarrow> WorkerConfig \<Rightarrow> int \<Rightarrow> (nat \<Rightarrow> 'x batch list) \<Rightarrow> nat list \<Rightarrow>
   'm tstate \<Rightarrow> 'm tstate \<times> unit res" where
  "train_epochs T R M c round_id loader [] st = (st, Inr ())"
| "train_epochs T R M c round_id loader (ep # eps) st =
     (case train_batches T R M c round_id (loader ep) (st\<lparr>ts_epoch_norm_sum := Fin 0, ts_epoch_batches := 0\<rparr>) of
        (st', Inl e) \<Rightarrow> (st', Inl e)
      | (st', Inr _) \<Rightarrow>
          train_epochs T R M c round_id loader eps
            (st'\<lparr>ts_gradient_norms := ts_gradient_norms st' @
               [fl_div binary64 (ts_epoch_norm_sum st') (py_float (max 1 (ts_epoch_batches st')))]\<rparr>))"

text \<open>\<open>int(x)\<close> of a float.\<close>

fun py_trunc :: "fl \<Rightarrow> int res" where
  "py_trunc (Fin x) = Inr (if 0 \<le> x then \<lfloor>x\<rfloor> else \<lceil>x\<rceil>)"
| "py_trunc NaN = Inl (ValueError ''cannot convert float NaN to integer'')"
| "py_trunc _ = Inl OverflowError"

definition round_seed_of :: "WorkerConfig \<Rightarrow> int \<Rightarrow> int" where
  "round_seed_of c round_id = w_seed c + round_id * 100003"

text \<open>Everything after the local epochs: difference, update attack, privacy, the result record.\<close>

definition finish_round ::
  "torch \<Rightarrow> torch_rng \<Rightarrow> (fl \<Rightarrow> fl) \<Rightarrow> ('m, 'x) nn \<Rightarrow> 'g wrng \<Rightarrow> WorkerConfig \<Rightarrow> nat list \<Rightarrow> int \<Rightarrow> fl \<Rightarrow>
   tensor \<Rightarrow> int \<Rightarrow> fl \<Rightarrow> fl \<Rightarrow> 'g \<Rightarrow> 'm tstate \<Rightarrow> WorkerResult res" where
  "finish_round T R mlog M G c owned round_id elapsed global dynamic_epochs pre_network compute_delay g st =
     (let local_parameters = cpu_float (nn_vector M (ts_model st));
          baseline = cpu_float global;
          delta = local_parameters\<lparr>tdata := map2 f32_sub (tdata local_parameters) (tdata baseline)\<rparr>
      in res_bind (if w_malicious c \<and> attacks_updates (attack c)
                   then transform_update T R (attack c) (PyTensor delta) round_id else Inr delta) (\<lambda>update.
         if \<not> all_finite (tdata update)
           then Inl (FloatingPointError ''worker produced a non-finite model update'')
         else res_bind (protect_model_update T R mlog 0 update (local_dp c)
                          (Some (round_seed_of c round_id + 47117))) (\<lambda>protected.
         res_bind (py_trunc (py_mul elapsed (Fin 1000))) (\<lambda>training_duration_ms.
         res_bind (sample_delay G g (network_delay_seconds c)) (\<lambda>(post_network, g').
         res_bind (py_trunc (py_mul (py_add (py_add pre_network compute_delay) post_network) (Fin 1000)))
           (\<lambda>simulated_latency_ms.
         let dp = (\<lambda>x. if dp_enabled (local_dp c) then Some x else None) in
         Inr \<lparr>r_node_id = node_id c, r_round_id = round_id,
              r_update = Some ((p_update protected)\<lparr>tcontiguous := True\<rparr>),
              r_sample_count = int (length owned),
              r_loss = fl_div binary64 (ts_total_loss st) (py_float (max 1 (ts_total_examples st))),
              r_gradient_norms = ts_gradient_norms st, r_dynamic_epochs = dynamic_epochs,
              r_training_duration_ms = training_duration_ms,
              r_simulated_latency_ms = simulated_latency_ms, r_malicious = w_malicious c,
              r_attack_kind = (if w_malicious c then kind (attack c) else ''none''),
              r_dp_original_norm = dp (original_norm protected),
              r_dp_clipped_norm = dp (clipped_norm protected), r_dp_noise_std = dp (p_noise_std protected),
              r_dp_epsilon_per_release = dp (epsilon_per_release protected), r_error = None\<rparr>))))))"

text \<open>The draws before training: epochs, learning rate, optimizer, delays; in the order of the code.\<close>

definition round_setup :: "('m, 'x) nn \<Rightarrow> 'g wrng \<Rightarrow> WorkerConfig \<Rightarrow> 'g \<Rightarrow> 'm \<Rightarrow> (int \<times> 'm \<times> fl \<times> fl \<times> 'g) res" where
  "round_setup M G c g0 model1 =
     res_bind (wr_integers G g0 (local_epochs_min c) (local_epochs_max c + 1)) (\<lambda>(dynamic_epochs, g1).
     res_bind (wr_uniform G g1 (fl_neg (learning_rate_jitter c)) (learning_rate_jitter c)) (\<lambda>(jitter, g2).
     let local_lr = py_mul (learning_rate c) (py_max (rnd binary64 (1 / 10 ^ 6)) (py_add (Fin 1) jitter)) in
     res_bind (make_optimizer M c local_lr model1) (\<lambda>model2.
     res_bind (sample_delay G g2 (network_delay_seconds c)) (\<lambda>(pre_network, g3).
     res_bind (sample_delay G g3 (compute_delay_seconds c)) (\<lambda>(compute_delay, g4).
     Inr (dynamic_epochs, model2, pre_network, compute_delay, g4))))))"

definition execute_training_round ::
  "torch \<Rightarrow> torch_rng \<Rightarrow> (fl \<Rightarrow> fl) \<Rightarrow> ('m, 'x) nn \<Rightarrow> 'g wrng \<Rightarrow> WorkerConfig \<Rightarrow> nat list \<Rightarrow> fl \<Rightarrow>
   'm \<Rightarrow> TrainCommand \<Rightarrow> 'm \<times> WorkerResult res" where
  "execute_training_round T R mlog M G c owned elapsed model command =
     (let round_id = cmd_round_id command; round_seed = round_seed_of c round_id; g0 = wr_init G round_seed in
      case load_global_parameters M (w_device c) model (cmd_global_parameters command) of
        (model1, Inl e) \<Rightarrow> (model1, Inl e)
      | (model1, Inr global) \<Rightarrow>
          (case round_setup M G c g0 model1 of
             Inl e \<Rightarrow> (model1, Inl e)
           | Inr (dynamic_epochs, model2, pre_network, compute_delay, g4) \<Rightarrow>
               (case train_epochs T R M c round_id (nn_loader M owned (batch_size c) round_seed)
                       [0..<nat dynamic_epochs]
                       \<lparr>ts_model = model2, ts_total_loss = Fin 0, ts_total_examples = 0, ts_batch_id = 0,
                        ts_epoch_norm_sum = Fin 0, ts_epoch_batches = 0, ts_gradient_norms = []\<rparr> of
                  (st, Inl e) \<Rightarrow> (ts_model st, Inl e)
                | (st, Inr _) \<Rightarrow>
                    (ts_model st,
                     finish_round T R mlog M G c owned round_id elapsed global dynamic_epochs pre_network
                       compute_delay g4 st))))"

section \<open>The process\<close>

text \<open>The result a worker reports for a round that raised.\<close>

definition error_result :: "(exn \<Rightarrow> string) \<Rightarrow> WorkerConfig \<Rightarrow> nat list \<Rightarrow> int \<Rightarrow> exn \<Rightarrow> WorkerResult" where
  "error_result format_exc c owned round_id e =
     \<lparr>r_node_id = node_id c, r_round_id = round_id, r_update = None, r_sample_count = int (length owned),
      r_loss = NaN, r_gradient_norms = [], r_dynamic_epochs = 0, r_training_duration_ms = 0,
      r_simulated_latency_ms = 0, r_malicious = w_malicious c,
      r_attack_kind = (if w_malicious c then kind (attack c) else ''none''),
      r_dp_original_norm = None, r_dp_clipped_norm = None, r_dp_noise_std = None,
      r_dp_epsilon_per_release = None, r_error = Some (format_exc e)\<rparr>"

text \<open>
  The loop on the commands that arrive, in order: the results put on the queue, and whether the
  worker has returned. It is still waiting in \<open>command_queue.get()\<close> when the list ends.
\<close>

fun worker_loop ::
  "('m \<Rightarrow> TrainCommand \<Rightarrow> 'm \<times> WorkerResult res) \<Rightarrow> (int \<Rightarrow> exn \<Rightarrow> WorkerResult) \<Rightarrow> 'm \<Rightarrow> command list \<Rightarrow>
   WorkerResult list \<times> bool" where
  "worker_loop execute on_error model [] = ([], False)"
| "worker_loop execute on_error model (Stop # rest) = ([], True)"
| "worker_loop execute on_error model (OtherCommand # rest) = worker_loop execute on_error model rest"
| "worker_loop execute on_error model (Train command # rest) =
     (case execute model command of
        (model', outcome) \<Rightarrow>
          let result = (case outcome of Inl e \<Rightarrow> on_error (cmd_round_id command) e | Inr r \<Rightarrow> r);
              (results, returned) = worker_loop execute on_error model' rest
          in (result # results, returned))"

definition seed_everything :: "int \<Rightarrow> int \<times> int \<times> int" where
  "seed_everything seed = (seed, seed mod (2 ^ 32 - 1), seed)"

definition worker_process_main ::
  "torch \<Rightarrow> torch_rng \<Rightarrow> (fl \<Rightarrow> fl) \<Rightarrow> ('m, 'x) nn \<Rightarrow> 'g wrng \<Rightarrow>
   (string \<Rightarrow> string \<Rightarrow> (string \<times> kwarg) list \<Rightarrow> 'm factory_result res) \<Rightarrow> (exn \<Rightarrow> string) \<Rightarrow> bool \<Rightarrow> (int \<Rightarrow> fl) \<Rightarrow>
   WorkerConfig \<Rightarrow> ModelSpec \<Rightarrow> nat list \<Rightarrow> command list \<Rightarrow> (WorkerResult list \<times> bool) res" where
  "worker_process_main T R mlog M G call_factory format_exc cuda_available elapsed c spec owned commands =
     (if take 4 (w_device c) = ''cuda'' \<and> \<not> cuda_available
        then Inl (RuntimeError ''CUDA device requested but unavailable'')
      else res_bind (build_model call_factory spec) (\<lambda>model.
        if list_ex (\<lambda>n. n \<noteq> 0) (nn_buffers M model)
          then Inl (ValueError ''models with registered buffers are not supported by the current vector protocol'')
        else Inr (worker_loop
                    (\<lambda>m command. execute_training_round T R mlog M G c owned (elapsed (cmd_round_id command)) m command)
                    (error_result format_exc c owned) model commands)))"

section \<open>Correctness\<close>

definition wf_delay_range :: "fl list \<Rightarrow> bool" where
  "wf_delay_range value \<longleftrightarrow> length value = 2 \<and> \<not> fl_less (value ! 0) (Fin 0) \<and> \<not> fl_less (value ! 1) (value ! 0)"

definition wf_WorkerConfig :: "WorkerConfig \<Rightarrow> bool" where
  "wf_WorkerConfig c \<longleftrightarrow>
     py_strip (node_id c) \<noteq> [] \<and> 0 < batch_size c \<and> 0 < local_epochs_min c \<and>
     local_epochs_min c \<le> local_epochs_max c \<and> \<not> fl_le (learning_rate c) (Fin 0) \<and>
     \<not> fl_less (learning_rate_jitter c) (Fin 0) \<and> py_lower (optimizer c) \<in> {''sgd'', ''adam''} \<and>
     wf_delay_range (compute_delay_seconds c) \<and> wf_delay_range (network_delay_seconds c) \<and>
     (\<forall>g. max_grad_norm c = Some g \<longrightarrow> \<not> fl_le g (Fin 0)) \<and> 0 < torch_num_threads c"

lemma validate_delay_range_iff: "validate_delay_range v = Inr () \<longleftrightarrow> wf_delay_range v"
  by (auto simp: validate_delay_range_def wf_delay_range_def numeral_2_eq_2 length_Suc_conv split: list.splits)

interpretation worker_config: validated_record WorkerConfig_post_init wf_WorkerConfig
proof unfold_locales
  fix c
  show "WorkerConfig_post_init c = Inr () \<longleftrightarrow> wf_WorkerConfig c"
    by (simp add: WorkerConfig_post_init_def wf_WorkerConfig_def res_simps validate_delay_range_iff not_le not_less
        split: option.split)
qed

subsection \<open>The loop\<close>

text \<open>The training commands a worker handles: those before the first stop command.\<close>

definition handled :: "command list \<Rightarrow> TrainCommand list" where
  "handled cmds = concat (map (\<lambda>c. case c of Train t \<Rightarrow> [t] | _ \<Rightarrow> []) (takeWhile (\<lambda>c. c \<noteq> Stop) cmds))"

lemma handled_simps [simp]:
  "handled [] = []" "handled (Stop # cs) = []" "handled (OtherCommand # cs) = handled cs"
  "handled (Train t # cs) = t # handled cs"
  by (simp_all add: handled_def)

text \<open>
  The contract of the round executor: whatever happens in a round, the result put on the queue answers the
  command that started it. \<open>answers\<close> relates a command to an acceptable result.
\<close>

locale round_executor =
  fixes execute :: "'m \<Rightarrow> TrainCommand \<Rightarrow> 'm \<times> WorkerResult res"
    and on_error :: "int \<Rightarrow> exn \<Rightarrow> WorkerResult"
    and answers :: "TrainCommand \<Rightarrow> WorkerResult \<Rightarrow> bool"
  assumes execute_answers: "execute m t = (m', Inr r) \<Longrightarrow> answers t r"
    and error_answers: "answers t (on_error (cmd_round_id t) e)"
begin

lemma loop_answers:
  "worker_loop execute on_error m cmds = (results, returned) \<Longrightarrow>
     list_all2 answers (handled cmds) results \<and> (returned \<longleftrightarrow> Stop \<in> set cmds)"
proof (induction cmds arbitrary: m results)
  case Nil
  then show ?case by simp
next
  case (Cons c cs)
  show ?case
  proof (cases c)
    case (Train t)
    obtain m' outcome where e: "execute m t = (m', outcome)" by (cases "execute m t")
    obtain rs where rs: "worker_loop execute on_error m' cs = (rs, returned)"
        "results = (case outcome of Inl e \<Rightarrow> on_error (cmd_round_id t) e | Inr r \<Rightarrow> r) # rs"
      using Cons.prems Train e by (auto split: prod.splits)
    have "answers t (case outcome of Inl e \<Rightarrow> on_error (cmd_round_id t) e | Inr r \<Rightarrow> r)"
      using execute_answers e error_answers by (cases outcome) auto
    then show ?thesis using Cons.IH [OF rs(1)] rs(2) Train by simp
  qed (use Cons in auto)
qed

end

text \<open>A result that answers a command: its round, its worker, its data size, and an update or an error.\<close>

definition answer_of :: "WorkerConfig \<Rightarrow> nat list \<Rightarrow> TrainCommand \<Rightarrow> WorkerResult \<Rightarrow> bool" where
  "answer_of c owned t r \<longleftrightarrow>
     r_round_id r = cmd_round_id t \<and> r_node_id r = node_id c \<and> r_sample_count r = int (length owned) \<and>
     r_malicious r = w_malicious c \<and> (succeeded r \<or> r_update r = None \<and> r_error r \<noteq> None)"

lemma finish_round_Inr:
  assumes "finish_round T R mlog M G c owned rid elapsed global de pre cdel g st = Inr r"
  obtains delta update p where
    "delta = (cpu_float (nn_vector M (ts_model st)))\<lparr>tdata :=
       map2 f32_sub (tdata (cpu_float (nn_vector M (ts_model st)))) (tdata (cpu_float global))\<rparr>"
    "(if w_malicious c \<and> attacks_updates (attack c) then transform_update T R (attack c) (PyTensor delta) rid
      else Inr delta) = Inr update"
    "all_finite (tdata update)"
    "protect_model_update T R mlog 0 update (local_dp c) (Some (round_seed_of c rid + 47117)) = Inr p"
    "r_update r = Some ((p_update p)\<lparr>tcontiguous := True\<rparr>)" "r_error r = None" "r_round_id r = rid"
    "r_node_id r = node_id c" "r_sample_count r = int (length owned)" "r_malicious r = w_malicious c"
    "r_dynamic_epochs r = de"
proof -
  let ?delta = "(cpu_float (nn_vector M (ts_model st)))\<lparr>tdata :=
       map2 f32_sub (tdata (cpu_float (nn_vector M (ts_model st)))) (tdata (cpu_float global))\<rparr>"
  obtain update where u: "(if w_malicious c \<and> attacks_updates (attack c)
      then transform_update T R (attack c) (PyTensor ?delta) rid else Inr ?delta) = Inr update"
    and f: "all_finite (tdata update)"
    using assms unfolding finish_round_def Let_def res_bind_Inr_iff by (auto split: if_split_asm)
  from assms show ?thesis
    unfolding finish_round_def Let_def u res_bind.simps
    using f that [OF refl u f] by (auto simp: res_bind_Inr_iff simp del: cpu_float_simps)
qed

lemma execute_answer_of:
  assumes "execute_training_round T R mlog M G c owned el m t = (m', Inr r)"
  shows "answer_of c owned t r"
proof -
  obtain global de pre cdel g st where
    "finish_round T R mlog M G c owned (cmd_round_id t) el global de pre cdel g st = Inr r"
    using assms unfolding execute_training_round_def Let_def
    by (auto split: prod.splits sum.splits)
  then show ?thesis
    by (rule finish_round_Inr) (simp add: answer_of_def succeeded_def)
qed

interpretation worker_rounds: round_executor
  "\<lambda>m t. execute_training_round T R mlog M G c owned (elapsed (cmd_round_id t)) m t"
  "error_result format_exc c owned" "answer_of c owned"
  for T R mlog M G c owned elapsed format_exc
  by unfold_locales (erule execute_answer_of, simp add: answer_of_def error_result_def)

text \<open>
  C21: A worker answers every training command exactly once, in order, until it is told to stop. When the
  process starts, the results it puts on the queue correspond one to one to the training commands that
  arrive before the first stop command; each carries the command's round, the worker's id, its sample count
  and malicious flag, and either a model update without an error or an error without an update. The process
  returns exactly when a stop command arrives.
\<close>

theorem worker_answers_every_command:
  assumes "worker_process_main T R mlog M G call_factory format_exc cuda elapsed c spec owned cmds = Inr (results, returned)"
  shows "list_all2 (answer_of c owned) (handled cmds) results \<and> (returned \<longleftrightarrow> Stop \<in> set cmds)"
  using assms worker_rounds.loop_answers
  by (fastforce simp: worker_process_main_def res_simps split: if_splits)

subsection \<open>The update of an honest worker\<close>

lemma to_fmt_idem: "fmt_ok F \<Longrightarrow> to_fmt F (to_fmt F x) = to_fmt F x"
  by (cases x) (simp_all add: rnd_idem)

lemma to_fmt_fl_sub: "fmt_ok F \<Longrightarrow> to_fmt F (fl_sub F x y) = fl_sub F x y"
  unfolding fl_sub_def by (cases x; cases "fl_neg y") (simp_all add: rnd_idem)

lemma nn_okD:
  assumes "nn_ok M"
  shows "numel v = numel (nn_vector M m) \<Longrightarrow> numel (nn_vector M (nn_load M m v)) = numel v"
    "numel (nn_vector M (nn_optimizer M n kw lr m)) = numel (nn_vector M m)"
    "numel (nn_vector M (nn_step M m gr cl)) = numel (nn_vector M m)"
  using assms by (simp_all add: nn_ok_def)

lemma train_batch_numel:
  "nn_ok M \<Longrightarrow> numel (nn_vector M (ts_model (fst (train_batch T R M c rid b st)))) = numel (nn_vector M (ts_model st))"
  by (simp add: train_batch_def Let_def nn_okD(3) split: batch.splits sum.splits labels_obj.splits)

lemma train_batches_numel:
  "nn_ok M \<Longrightarrow> numel (nn_vector M (ts_model (fst (train_batches T R M c rid bs st)))) = numel (nn_vector M (ts_model st))"
proof (induction bs arbitrary: st)
  case (Cons b bs)
  then show ?case using train_batch_numel [OF Cons.prems, of T R c rid b st]
    by (auto split: prod.splits sum.splits)
qed simp

lemma train_epochs_numel:
  "nn_ok M \<Longrightarrow> numel (nn_vector M (ts_model (fst (train_epochs T R M c rid ld es st)))) = numel (nn_vector M (ts_model st))"
proof (induction es arbitrary: st)
  case (Cons e es)
  then show ?case
    using train_batches_numel [OF Cons.prems, of T R c rid "ld e" "st\<lparr>ts_epoch_norm_sum := Fin 0, ts_epoch_batches := 0\<rparr>"]
    by (auto split: prod.splits sum.splits)
qed simp

lemma load_global_parameters_Inr:
  assumes "load_global_parameters M d m obj = (m1, Inr global)"
  obtains g where "obj = PyTensor g" "ndim g = 1" "numel g = numel (nn_vector M m)" "0 < numel g"
    "global = (cpu_float g)\<lparr>tdevice := d\<rparr>" "all_finite (tdata global)" "m1 = nn_load M m global"
  using assms
  by (auto simp: load_global_parameters_def Let_def ndim_def numel_def split: pyobj.splits if_splits)

text \<open>A round that succeeds: the parameters it loaded, the trained state and the end of the round.\<close>

lemma execute_training_round_Inr:
  assumes M: "nn_ok M" and e: "execute_training_round T R mlog M G c owned el m t = (m', Inr r)"
  obtains g st de pre cdel rg where "cmd_global_parameters t = PyTensor g" "ndim g = 1"
    "numel g = numel (nn_vector M m)" "0 < numel g" "all_finite (map (to_fmt binary32) (tdata g))"
    "numel (nn_vector M m') = numel g" "ts_model st = m'"
    "finish_round T R mlog M G c owned (cmd_round_id t) el ((cpu_float g)\<lparr>tdevice := w_device c\<rparr>) de pre cdel rg st = Inr r"
proof -
  obtain m1 global m2 de pre cdel rg st where
      l: "load_global_parameters M (w_device c) m (cmd_global_parameters t) = (m1, Inr global)"
    and o: "\<exists>lr. make_optimizer M c lr m1 = Inr m2"
    and st: "train_epochs T R M c (cmd_round_id t) (nn_loader M owned (batch_size c) (round_seed_of c (cmd_round_id t)))
        [0..<nat de] \<lparr>ts_model = m2, ts_total_loss = Fin 0, ts_total_examples = 0, ts_batch_id = 0,
          ts_epoch_norm_sum = Fin 0, ts_epoch_batches = 0, ts_gradient_norms = []\<rparr> = (st, Inr ())" "m' = ts_model st"
    and f: "finish_round T R mlog M G c owned (cmd_round_id t) el global de pre cdel rg st = Inr r"
  proof -
    obtain m1 global where l: "load_global_parameters M (w_device c) m (cmd_global_parameters t) = (m1, Inr global)"
      using e by (auto simp: execute_training_round_def Let_def split: prod.splits sum.splits)
    obtain de m2 pre cdel rg where s: "round_setup M G c (wr_init G (round_seed_of c (cmd_round_id t))) m1 = Inr (de, m2, pre, cdel, rg)"
      using e l by (auto simp: execute_training_round_def Let_def split: sum.splits)
    let ?st0 = "\<lparr>ts_model = m2, ts_total_loss = Fin 0, ts_total_examples = 0, ts_batch_id = 0,
          ts_epoch_norm_sum = Fin 0, ts_epoch_batches = 0, ts_gradient_norms = []\<rparr>"
    obtain st where st: "train_epochs T R M c (cmd_round_id t) (nn_loader M owned (batch_size c) (round_seed_of c (cmd_round_id t)))
        [0..<nat de] ?st0 = (st, Inr ())"
      and f: "m' = ts_model st" "finish_round T R mlog M G c owned (cmd_round_id t) el global de pre cdel rg st = Inr r"
      using e l s by (auto simp: execute_training_round_def Let_def split: prod.splits sum.splits)
    show thesis by (rule that [OF l _ st f]) (use s in \<open>auto simp: round_setup_def res_simps Let_def\<close>)
  qed
  obtain g where g: "cmd_global_parameters t = PyTensor g" "ndim g = 1" "numel g = numel (nn_vector M m)" "0 < numel g"
      "global = (cpu_float g)\<lparr>tdevice := w_device c\<rparr>" "all_finite (tdata global)" "m1 = nn_load M m global"
    using l by (rule load_global_parameters_Inr)
  have ng: "numel global = numel g" using g(5) by (simp add: numel_def)
  have "numel (nn_vector M m1) = numel g" using nn_okD(1) [OF M, of global m] g(3,7) ng by simp
  then have "numel (nn_vector M m2) = numel g"
    using o nn_okD(2) [OF M] by (auto simp: make_optimizer_def split: if_splits)
  then have "numel (nn_vector M m') = numel g"
    using train_epochs_numel [OF M, of T R c "cmd_round_id t" _ "[0..<nat de]"
        "\<lparr>ts_model = m2, ts_total_loss = Fin 0, ts_total_examples = 0, ts_batch_id = 0,
          ts_epoch_norm_sum = Fin 0, ts_epoch_batches = 0, ts_gradient_norms = []\<rparr>"] st by (metis fst_conv tstate.select_convs(1))
  then show ?thesis using that g st(2) f by (simp add: cpu_float_def)
qed


subsection \<open>Evaluation\<close>

text \<open>A network of bare parameters whose training step adds one to each, and a generator without spread.\<close>

definition nn_counter :: "(fl list, unit) nn" where
  "nn_counter = \<lparr>nn_vector = flat_vector, nn_load = (\<lambda>m v. tdata v), nn_buffers = (\<lambda>m. []),
     nn_optimizer = (\<lambda>n kw lr m. m), nn_loss = (\<lambda>m x ls. Fin 1), nn_backward = (\<lambda>m x ls. []),
     nn_step = (\<lambda>m gr cl. map (\<lambda>x. f32_add x (Fin 1)) m), nn_loader = (\<lambda>owned bs seed ep. [Batch () [0, 1]])\<rparr>"

definition wrng_low :: "unit wrng" where
  "wrng_low = \<lparr>wr_init = (\<lambda>s. ()), wr_integers = (\<lambda>g lo hi. Inr (lo, g)), wr_uniform = (\<lambda>g lo hi. Inr (lo, g))\<rparr>"

definition worker_example :: WorkerConfig where
  "worker_example =
     \<lparr>node_id = ''w0'', batch_size = 2, local_epochs_min = 1, local_epochs_max = 1, learning_rate = Fin 1,
      learning_rate_jitter = Fin 0, optimizer = ''SGD'', optimizer_kwargs = [], w_device = ''cpu'',
      compute_delay_seconds = [Fin 0, Fin 0], network_delay_seconds = [Fin 0, Fin 0], max_grad_norm = None,
      torch_num_threads = 1, w_seed = 42, w_malicious = False, attack = default_AttackConfig,
      local_dp = default_LocalDPConfig\<rparr>"

lemma nn_ok_counter: "nn_ok nn_counter"
  by (simp add: nn_ok_def nn_counter_def numel_def)

lemma lower_SGD: "py_lower ''SGD'' = ''sgd''"
  by code_simp

lemma worker_example_round:
  "\<exists>m' r. execute_training_round torch_exact rng_const log_upper nn_counter wrng_low worker_example [0, 1] (Fin 0) [Fin 0]
     \<lparr>cmd_round_id = 1, cmd_global_parameters = PyTensor (flat_vector [Fin 1])\<rparr> = (m', Inr r)"
  by (simp add: execute_training_round_def load_global_parameters_def round_setup_def make_optimizer_def sample_delay_def
      worker_example_def nn_counter_def wrng_low_def train_batch_def gradient_norm_def finish_round_def
      protect_model_update_def default_LocalDPConfig_def default_orders_def all_finite_def numel_def ndim_def
      lower_SGD fl_eq_def fl_sub_def rnd32_ints rnd64_ints attacks_labels_def Let_def cpu_float_def)


theorem worker_answers_every_command_witness:
  "\<exists>results returned. worker_process_main torch_exact rng_const log_upper nn_counter wrng_low
       (\<lambda>module_name attribute kwargs. Inr (IsModule [Fin 0])) (\<lambda>e. ''error'') False (\<lambda>i. Fin 0) worker_example
       \<lparr>factory_path = ''m:f'', spec_kwargs = []\<rparr> [0, 1]
       [Train \<lparr>cmd_round_id = 1, cmd_global_parameters = PyTensor (flat_vector [Fin 1])\<rparr>, OtherCommand,
        Train \<lparr>cmd_round_id = 2, cmd_global_parameters = PyOther\<rparr>, Stop] = Inr (results, returned) \<and>
     length results = 2 \<and> returned"
proof -
  let ?cmds = "[Train \<lparr>cmd_round_id = 1, cmd_global_parameters = PyTensor (flat_vector [Fin 1])\<rparr>, OtherCommand,
        Train \<lparr>cmd_round_id = 2, cmd_global_parameters = PyOther\<rparr>, Stop]"
  have "\<exists>p. worker_process_main torch_exact rng_const log_upper nn_counter wrng_low
       (\<lambda>module_name attribute kwargs. Inr (IsModule [Fin 0])) (\<lambda>e. ''error'') False (\<lambda>i. Fin 0) worker_example
       \<lparr>factory_path = ''m:f'', spec_kwargs = []\<rparr> [0, 1] ?cmds = Inr p"
    by (simp add: worker_process_main_def build_model_def py_partition_colon_def nn_counter_def worker_example_def
        del: worker_loop.simps)
  then obtain results returned where e: "worker_process_main torch_exact rng_const log_upper nn_counter wrng_low
       (\<lambda>module_name attribute kwargs. Inr (IsModule [Fin 0])) (\<lambda>e. ''error'') False (\<lambda>i. Fin 0) worker_example
       \<lparr>factory_path = ''m:f'', spec_kwargs = []\<rparr> [0, 1] ?cmds = Inr (results, returned)"
    by (metis (no_types) surj_pair)
  note w = worker_answers_every_command [OF e]
  have "length (handled ?cmds) = length results" using w by (rule list_all2_lengthD [OF conjunct1])
  then have "length results = 2" by simp
  moreover have returned using w by simp
  ultimately show ?thesis using e by (intro exI conjI)
qed

end
