(* ===== verification/Aggregation.thy ===== *)
theory Aggregation
  imports Worker
begin

text \<open>
  The aggregation rules of \<open>fl/zerotrust_fl/engine/coordinator.py\<close>: \<open>AggregationConfig\<close>, sample-weighted
  FedAvg, the PyTorch backend (median, trimmed mean, Krum and Multi-Krum, mean), the application of an
  aggregated delta to the global model and the attack mitigation metrics.

  Locale \<open>hull_rule\<close> is the contract of a coordinate-wise robust rule: with few enough Byzantine values
  the result stays within the honest range, up to the accuracy of the reduction. The median and the
  trimmed mean are interpretations of it.
\<close>

section \<open>Configuration\<close>

record AggregationConfig =
  agg_method :: string
  agg_backend :: string
  agg_f :: int
  agg_k :: int
  agg_beta :: fl

definition default_AggregationConfig :: AggregationConfig where
  "default_AggregationConfig =
     \<lparr>agg_method = ''median'', agg_backend = ''auto'', agg_f = 0, agg_k = 1, agg_beta = rnd binary64 (1 / 10)\<rparr>"

definition AggregationConfig_post_init :: "AggregationConfig \<Rightarrow> unit res" where
  "AggregationConfig_post_init c =
     (if agg_method c \<notin> {''mean'', ''krum'', ''multi_krum'', ''trimmed_mean'', ''median''}
        then Inl (ValueError ''unsupported aggregation method'')
      else if agg_backend c \<notin> {''auto'', ''native'', ''torch''}
        then Inl (ValueError ''unsupported aggregation backend'')
      else if agg_f c < 0 then Inl (ValueError ''f cannot be negative'')
      else if agg_k c \<le> 0 then Inl (ValueError ''k must be positive'')
      else if \<not> (fl_le (Fin 0) (agg_beta c) \<and> fl_less (agg_beta c) (Fin (1 / 2)))
        then Inl (ValueError ''beta must be in [0, 0.5)'')
      else Inr ())"

section \<open>The PyTorch backend\<close>

text \<open>Column operations on a stack of rows. The slice \<open>sorted_values[trim:-trim]\<close> is taken when \<open>trim > 0\<close>.\<close>

definition median_col :: "torch \<Rightarrow> fl list \<Rightarrow> fl" where
  "median_col T xs =
     (let sorted_values = t_sort T xs; cnt = length xs; middle = cnt div 2
      in if cnt mod 2 \<noteq> 0 then sorted_values ! middle
         else f32_mul (f32_add (sorted_values ! (middle - 1)) (sorted_values ! middle)) (Fin (1 / 2)))"

definition trimmed_col :: "torch \<Rightarrow> int \<Rightarrow> fl list \<Rightarrow> fl" where
  "trimmed_col T trim xs =
     (let sorted_values = t_sort T xs;
          selected = (if trim > 0 then take (length xs - 2 * nat trim) (drop (nat trim) sorted_values)
                      else sorted_values)
      in t_mean T selected)"

text \<open>The score of a row: the sum of its \<open>neighbor_count\<close> smallest squared distances to the other rows.\<close>

definition krum_row :: "fl list \<Rightarrow> nat \<Rightarrow> fl list" where
  "krum_row distances index = take index distances @ drop (index + 1) distances"

definition krum_scores :: "torch \<Rightarrow> fl list list \<Rightarrow> nat \<Rightarrow> fl list" where
  "krum_scores T rows neighbor_count =
     (let distances = t_cdist2 T rows
      in map (\<lambda>index. let row = krum_row (distances ! index) index
                       in t_sum64 T (map (\<lambda>i. row ! i) (t_topk_smallest T neighbor_count row)))
           [0..<length rows])"

definition krum_select :: "torch \<Rightarrow> AggregationConfig \<Rightarrow> fl list list \<Rightarrow> nat list res" where
  "krum_select T c rows =
     (let cnt = int (length rows); neighbor_count = cnt - agg_f c - 2;
          k = (if agg_method c = ''krum'' then 1 else agg_k c)
      in if cnt < 2 * agg_f c + 3 then Inl (ValueError ''Krum requires n >= 2*f + 3'')
         else if rows ! 0 = [] then Inl (RuntimeError ''cannot reshape tensor of 0 elements'')
         else if neighbor_count > cnt - 1 then Inl (RuntimeError ''selected index k out of range'')
         else if k \<le> 0 \<or> k > neighbor_count
           then Inl (ValueError ''Multi-Krum k must satisfy 1 <= k <= n-f-2'')
         else Inr (t_topk_smallest T (nat k) (krum_scores T rows (nat neighbor_count))))"

definition torch_aggregate :: "torch \<Rightarrow> AggregationConfig \<Rightarrow> tensor list \<Rightarrow> tensor res" where
  "torch_aggregate T c updates =
     (case updates of
        [] \<Rightarrow> Inl (ValueError ''cannot aggregate an empty update list'')
      | reference # _ \<Rightarrow>
          if list_ex (\<lambda>u. tshape u \<noteq> tshape reference) updates
            then Inl (ValueError ''all model updates must have the same shape'')
          else
            let stacked = map (\<lambda>u. tdata (cpu_float u)) updates;
                width = numel reference;
                result = (\<lambda>xs. f32_tensor (tshape reference) xs)
            in if \<not> list_all all_finite stacked
                 then Inl (ValueError ''aggregation input contains non-finite values'')
               else if agg_method c = ''median'' then Inr (result (along_dim0 (median_col T) width stacked))
               else if agg_method c = ''trimmed_mean'' then
                 res_bind (py_floor (py_mul (agg_beta c) (py_float (int (length stacked))))) (\<lambda>trim.
                   if 2 * trim \<ge> int (length stacked)
                     then Inl (ValueError ''trimmed mean would remove every update'')
                   else Inr (result (along_dim0 (trimmed_col T trim) width stacked)))
               else if agg_method c \<in> {''krum'', ''multi_krum''} then
                 res_bind (krum_select T c stacked) (\<lambda>selected_indices.
                   Inr (result (along_dim0 (t_mean T) width (map (\<lambda>i. stacked ! i) selected_indices))))
               else if agg_method c = ''mean'' then Inr (result (along_dim0 (t_mean T) width stacked))
               else Inl (ValueError ''unsupported aggregation method''))"

section \<open>FedAvg\<close>

text \<open>The loop over the usable results: the accumulator and the running sample count.\<close>

fun fedavg_loop ::
  "torch \<Rightarrow> nat list \<Rightarrow> (tensor \<times> int) list \<Rightarrow> fl list \<Rightarrow> int \<Rightarrow> (fl list \<times> int) res" where
  "fedavg_loop T expected_shape [] accumulator total_samples = Inr (accumulator, total_samples)"
| "fedavg_loop T expected_shape ((update, sample_count) # rest) accumulator total_samples =
     (if sample_count \<le> 0 then Inl (ValueError ''FedAvg sample counts must be positive'')
      else if tshape update \<noteq> expected_shape then Inl (ValueError ''all model updates must have the same shape'')
      else
        let prepared = tdata (cpu_float update) in
        if \<not> all_finite prepared then Inl (ValueError ''aggregation input contains non-finite values'')
        else res_bind (py_int_float sample_count) (\<lambda>weight.
          fedavg_loop T expected_shape rest (map2 (\<lambda>acc x. t_axpy T acc x weight) accumulator prepared)
            (total_samples + sample_count)))"

definition weighted_fedavg :: "torch \<Rightarrow> WorkerResult list \<Rightarrow> tensor res" where
  "weighted_fedavg T results =
     (let usable = concat (map (\<lambda>r. case r_update r of None \<Rightarrow> [] | Some u \<Rightarrow> [(u, r_sample_count r)]) results)
      in case usable of
           [] \<Rightarrow> Inl (ValueError ''cannot aggregate an empty update list'')
         | (reference, _) # _ \<Rightarrow>
             res_bind (fedavg_loop T (tshape reference) usable (replicate (numel reference) (Fin 0)) 0)
               (\<lambda>(accumulator, total_samples).
                 if total_samples \<le> 0 then Inl (ValueError ''FedAvg total sample count must be positive'')
                 else res_bind (py_int_float total_samples) (\<lambda>total.
                   Inr (f32_tensor (tshape reference) (map (\<lambda>x. scalar_div Float32 x total) accumulator)))))"

section \<open>The global model\<close>

definition parameter_vector :: "('m, 'x) nn \<Rightarrow> 'm \<Rightarrow> tensor res" where
  "parameter_vector M model =
     (let vector = nn_vector M model in
      if ndim vector \<noteq> 1 then Inl (ValueError ''model parameter vector must be one-dimensional'')
      else if numel vector \<le> 0 then Inl (ValueError ''model must contain at least one trainable parameter'')
      else if \<not> all_finite (tdata vector) then Inl (ValueError ''global model parameters contain non-finite values'')
      else Inr vector)"

text \<open>The model is written only at the end, so a raise leaves it as it was.\<close>

definition apply_parameter_delta :: "('m, 'x) nn \<Rightarrow> 'm \<Rightarrow> pyobj \<Rightarrow> 'm res" where
  "apply_parameter_delta M model delta =
     (case delta of
        PyOther \<Rightarrow> Inl (TypeError ''aggregated update must be a torch.Tensor'')
      | PyTensor d \<Rightarrow>
          res_bind (parameter_vector M model) (\<lambda>current.
            let F = fmt_of (tdtype current);
                prepared = d\<lparr>tdata := map (to_fmt F) (tdata d), tdtype := tdtype current, tdevice := tdevice current\<rparr>
            in if ndim prepared \<noteq> 1 then Inl (ValueError ''aggregated update must be a flat parameter vector'')
               else if numel prepared \<noteq> numel current
                 then Inl (ValueError ''aggregated update vector has the wrong number of values'')
               else if \<not> all_finite (tdata prepared)
                 then Inl (ValueError ''aggregated update contains non-finite values'')
               else
                 let candidate = current\<lparr>tdata := map2 (fl_add F) (tdata current) (tdata prepared)\<rparr>
                 in if \<not> all_finite (tdata candidate)
                      then Inl (ValueError ''aggregated global model contains non-finite values'')
                    else Inr (nn_load M model candidate)))"

section \<open>Attack mitigation metrics\<close>

text \<open>\<open>torch.stack\<close> of the updates and their mean; broadcasting between unequal shapes is not modelled.\<close>

definition mean_of :: "torch \<Rightarrow> WorkerResult list \<Rightarrow> fl list" where
  "mean_of T results =
     (let rows = concat (map (\<lambda>r. case r_update r of None \<Rightarrow> [] | Some u \<Rightarrow> [tdata u]) results)
      in along_dim0 (t_mean T) (length (rows ! 0)) rows)"

definition attack_mitigation_metrics ::
  "torch \<Rightarrow> WorkerResult list \<Rightarrow> tensor \<Rightarrow> (fl option \<times> bool option) res" where
  "attack_mitigation_metrics T results robust_update =
     (let malicious = filter (\<lambda>r. r_malicious r \<and> r_update r \<noteq> None) results;
          benign = filter (\<lambda>r. \<not> r_malicious r \<and> r_update r \<noteq> None) results
      in if malicious = [] \<or> benign = [] then Inr (None, None)
         else if list_ex (\<lambda>r. r_update r \<noteq> None \<and> tshape (the (r_update r)) \<noteq> tshape robust_update) results
           then Inl (RuntimeError ''stack expects each tensor to be equal size'')
         else
           let benign_mean = mean_of T benign;
               naive_mean = mean_of T results;
               robust_error = t_norm T (map2 f32_sub (tdata robust_update) benign_mean);
               naive_error = t_norm T (map2 f32_sub naive_mean benign_mean);
               tiny = rnd binary64 (1 / 10 ^ 12)
           in if fl_le naive_error tiny
                then Inr (Some (if fl_le robust_error tiny then Fin 1 else Fin 0), Some (fl_le robust_error tiny))
              else res_bind (py_div robust_error naive_error) (\<lambda>ratio.
                let score = py_max (Fin 0) (py_min (Fin 1) (py_sub (Fin 1) ratio))
                in Inr (Some score, Some (fl_less robust_error naive_error))))"

section \<open>Order statistics\<close>

lemma length_filter_mono:
  "(\<And>x. x \<in> set xs \<Longrightarrow> P x \<Longrightarrow> Q x) \<Longrightarrow> length (filter P xs) \<le> length (filter Q xs)"
  by (induction xs) auto

lemma sorted_middle_in_range:
  fixes s :: "real list"
  assumes s: "sorted s" and b: "length (filter (\<lambda>x. \<not> (lo \<le> x \<and> x \<le> hi)) s) \<le> b"
    and i: "b \<le> i" "i < length s - b"
  shows "lo \<le> s ! i \<and> s ! i \<le> hi"
proof -
  have il: "i < length s" using i by simp
  have "\<not> s ! i < lo"
  proof
    assume low: "s ! i < lo"
    have "Suc i \<le> length (filter (\<lambda>x. x \<le> s ! i) s)" by (rule sort_strict_bound [OF s il])
    also have "\<dots> \<le> length (filter (\<lambda>x. \<not> (lo \<le> x \<and> x \<le> hi)) s)"
      using low by (intro length_filter_mono) auto
    finally show False using b i by simp
  qed
  moreover have "\<not> hi < s ! i"
  proof
    assume high: "hi < s ! i"
    have "\<forall>x \<in> set (drop i s). hi < x"
    proof
      fix x assume "x \<in> set (drop i s)"
      then obtain k where "k < length (drop i s)" "x = drop i s ! k" by (metis in_set_conv_nth)
      then have "s ! i \<le> x" using sorted_nth_mono [OF s, of i "i + k"] by simp
      then show "hi < x" using high by simp
    qed
    then have f: "filter (\<lambda>x. \<not> (lo \<le> x \<and> x \<le> hi)) (drop i s) = drop i s" by (auto simp: filter_id_conv)
    have "length s - i = length (filter (\<lambda>x. \<not> (lo \<le> x \<and> x \<le> hi)) (drop i s))" by (simp only: f length_drop)
    also have "\<dots> \<le> length (filter (\<lambda>x. \<not> (lo \<le> x \<and> x \<le> hi)) s)"
      by (metis append_take_drop_id filter_append le_add2 length_append)
    finally show False using b i by simp
  qed
  ultimately show ?thesis by simp
qed

lemma filter_vals: "length (filter P (vals xs)) = length (filter (\<lambda>x. P (val x)) xs)"
  by (induction xs) (auto simp: vals_def)

lemma t_sort_middle:
  assumes T: "sort_ok T" and f: "all_finite xs"
    and b: "length (filter (\<lambda>x. \<not> (lo \<le> val x \<and> val x \<le> hi)) xs) \<le> b"
    and i: "b \<le> i" "i < length xs - b"
  shows "lo \<le> val (t_sort T xs ! i) \<and> val (t_sort T xs ! i) \<le> hi \<and> is_fin (t_sort T xs ! i)"
proof -
  note st = sort_okD [OF T f]
  let ?P = "\<lambda>x. \<not> (lo \<le> val x \<and> val x \<le> hi)"
  have "length (filter ?P (t_sort T xs)) = length (filter ?P xs)"
    using st(1) by (metis mset_filter size_mset)
  then have "length (filter (\<lambda>x. \<not> (lo \<le> x \<and> x \<le> hi)) (vals (t_sort T xs))) \<le> b"
    using b by (simp add: filter_vals)
  from sorted_middle_in_range [OF st(2) this i(1)] i st(3,4) show ?thesis
    by (simp add: vals_def all_finite_def list_all_iff)
qed

section \<open>Rules that keep to the honest range\<close>

text \<open>
  \<open>rule p xs\<close> reduces a column. With at most \<open>tolerated p\<close> values outside \<open>[lo, hi]\<close>, whose ends are
  float32 numbers of magnitude at most \<open>reach p\<close>, the result is finite and in \<open>[lo, hi]\<close> up to
  \<open>slack p\<close> times that magnitude. \<open>fits p n\<close> says which columns the rule is meant for.
\<close>

locale hull_rule =
  fixes rule :: "'p \<Rightarrow> fl list \<Rightarrow> fl"
    and ok :: "'p \<Rightarrow> bool"
    and fits :: "'p \<Rightarrow> nat \<Rightarrow> bool"
    and tolerated :: "'p \<Rightarrow> nat \<Rightarrow> nat"
    and reach :: "'p \<Rightarrow> real"
    and slack :: "'p \<Rightarrow> real"
  assumes hull: "ok p \<Longrightarrow> fits p (length xs) \<Longrightarrow> all_finite xs \<Longrightarrow>
      length (filter (\<lambda>x. \<not> (lo \<le> val x \<and> val x \<le> hi)) xs) \<le> tolerated p (length xs) \<Longrightarrow>
      representable binary32 lo \<Longrightarrow> representable binary32 hi \<Longrightarrow> \<bar>lo\<bar> \<le> m \<Longrightarrow> \<bar>hi\<bar> \<le> m \<Longrightarrow> m < reach p \<Longrightarrow>
      is_fin (rule p xs) \<and> lo - slack p * m \<le> val (rule p xs) \<and> val (rule p xs) \<le> hi + slack p * m"
begin

text \<open>Rows instead of values: the honest clients are the indices in \<open>honest\<close>.\<close>

lemma rows_hull:
  assumes p: "ok p" "fits p (length rows)" and w: "\<forall>r \<in> set rows. all_finite r \<and> length r = width"
    and byz: "card ({..<length rows} - honest) \<le> tolerated p (length rows)"
    and h: "\<forall>i \<in> honest. i < length rows \<longrightarrow> lo \<le> val (rows ! i ! j) \<and> val (rows ! i ! j) \<le> hi"
    and b: "representable binary32 lo" "representable binary32 hi" "\<bar>lo\<bar> \<le> m" "\<bar>hi\<bar> \<le> m" "m < reach p"
    and j: "j < width"
  shows "is_fin (along_dim0 (rule p) width rows ! j) \<and>
    lo - slack p * m \<le> val (along_dim0 (rule p) width rows ! j) \<and>
    val (along_dim0 (rule p) width rows ! j) \<le> hi + slack p * m"
proof -
  let ?xs = "column j rows" and ?P = "\<lambda>x. \<not> (lo \<le> val x \<and> val x \<le> hi)"
  have fin: "all_finite ?xs" using w j by (intro all_finite_column) auto
  have "length (filter ?P ?xs) = card {i. i < length ?xs \<and> ?P (?xs ! i)}" by (rule length_filter_conv_card)
  also have "\<dots> \<le> card ({..<length rows} - honest)" using h by (intro card_mono) auto
  finally have "length (filter ?P ?xs) \<le> tolerated p (length ?xs)" using byz by simp
  from hull [OF p(1) _ fin this b] p(2) j show ?thesis by simp
qed

end

lemma median_col_hull:
  assumes T: "sort_ok T" and n: "0 < length xs" and f: "all_finite xs"
    and b: "length (filter (\<lambda>x. \<not> (lo \<le> val x \<and> val x \<le> hi)) xs) \<le> (length xs - 1) div 2"
    and rep: "representable binary32 lo" "representable binary32 hi"
    and m: "\<bar>lo\<bar> \<le> m" "\<bar>hi\<bar> \<le> m" "m < 2 powi 127"
  shows "is_fin (median_col T xs) \<and> lo \<le> val (median_col T xs) \<and> val (median_col T xs) \<le> hi"
proof (cases "length xs mod 2 = 0")
  case False
  then have "length xs = 2 * (length xs div 2) + 1" by presburger
  then show ?thesis using t_sort_middle [OF T f b, of "length xs div 2"] False
    by (simp add: median_col_def Let_def)
next
  case True
  define k where "k = length xs div 2"
  have k: "length xs = 2 * k" "0 < k" using True n unfolding k_def by presburger+
  have i: "(length xs - 1) div 2 = k - 1" using k by simp
  have a: "lo \<le> val (t_sort T xs ! (k - 1)) \<and> val (t_sort T xs ! (k - 1)) \<le> hi \<and> is_fin (t_sort T xs ! (k - 1))"
    "lo \<le> val (t_sort T xs ! k) \<and> val (t_sort T xs ! k) \<le> hi \<and> is_fin (t_sort T xs ! k)"
    using k by (auto intro!: t_sort_middle [OF T f b [unfolded i]])
  obtain y where "f32_mul (f32_add (Fin (val (t_sort T xs ! (k - 1)))) (Fin (val (t_sort T xs ! k)))) (Fin (1 / 2)) = Fin y"
      "lo \<le> y" "y \<le> hi"
    using f32_midpoint_between [OF rep, of "val (t_sort T xs ! (k - 1))" "val (t_sort T xs ! k)"] a m
    by (metis order_le_less_trans)
  then show ?thesis using a True unfolding median_col_def Let_def k_def [symmetric] is_fin_iff by simp
qed

interpretation median: hull_rule median_col sort_ok "\<lambda>T n. 0 < n" "\<lambda>T n. (n - 1) div 2" "\<lambda>T. 2 powi 127" "\<lambda>T. 0"
  by unfold_locales (use median_col_hull in simp)

lemma trimmed_col_hull:
  assumes T: "sort_ok T" "0 \<le> eps" "mean_accurate T (length xs - 2 * nat trim) B eps" and t: "0 \<le> trim" "2 * nat trim < length xs"
    and f: "all_finite xs" and b: "length (filter (\<lambda>x. \<not> (lo \<le> val x \<and> val x \<le> hi)) xs) \<le> nat trim"
    and m: "\<bar>lo\<bar> \<le> m" "\<bar>hi\<bar> \<le> m" "m \<le> B"
  shows "is_fin (trimmed_col T trim xs) \<and> lo - eps * m \<le> val (trimmed_col T trim xs) \<and>
    val (trimmed_col T trim xs) \<le> hi + eps * m"
proof -
  let ?s = "t_sort T xs" and ?sel = "take (length xs - 2 * nat trim) (drop (nat trim) (t_sort T xs))"
  have len: "length ?s = length xs" by (rule sort_okD(3) [OF T(1) f])
  have eq: "trimmed_col T trim xs = t_mean T ?sel"
    using t(1) len by (cases "trim = 0") (simp_all add: trimmed_col_def Let_def)
  have sl: "length ?sel = length xs - 2 * nat trim" using len t(2) by simp
  have mem: "\<forall>x \<in> set ?sel. is_fin x \<and> lo \<le> val x \<and> val x \<le> hi"
  proof
    fix x assume "x \<in> set ?sel"
    then obtain i where i: "i < length ?sel" "x = ?sel ! i" by (metis in_set_conv_nth)
    then have "x = ?s ! (nat trim + i)" using sl len by simp
    moreover have "nat trim + i < length xs - nat trim" using i(1) [unfolded sl] t(2) by linarith
    ultimately show "is_fin x \<and> lo \<le> val x \<and> val x \<le> hi"
      using t_sort_middle [OF T(1) f b, of "nat trim + i"] by simp
  qed
  have "?sel \<noteq> []" using sl t(2) by (metis list.size(3) zero_less_diff less_irrefl)
  from mean_accurate_hull [OF _ this T(2) mem m] T(3) sl show ?thesis unfolding eq by simp
qed

text \<open>Parameters of the trimmed mean: PyTorch, the trim count, the column length, and the reduction's accuracy.\<close>

type_synonym trim_params = "torch \<times> int \<times> nat \<times> real \<times> real"

definition trim_rule :: "trim_params \<Rightarrow> fl list \<Rightarrow> fl" where
  "trim_rule p xs = (case p of (T, trim, n, B, eps) \<Rightarrow> trimmed_col T trim xs)"

definition trim_ok :: "trim_params \<Rightarrow> bool" where
  "trim_ok p = (case p of (T, trim, n, B, eps) \<Rightarrow>
     sort_ok T \<and> 0 \<le> trim \<and> 2 * nat trim < n \<and> 0 \<le> eps \<and> mean_accurate T (n - 2 * nat trim) B eps)"

interpretation trimmed: hull_rule trim_rule trim_ok "\<lambda>(T, trim, n, B, eps) l. l = n"
  "\<lambda>(T, trim, n, B, eps) l. nat trim" "\<lambda>(T, trim, n, B, eps). B" "\<lambda>(T, trim, n, B, eps). eps"
proof unfold_locales
  fix p :: trim_params and xs lo hi m
  obtain T trim n B eps where p: "p = (T, trim, n, B, eps)" by (cases p)
  assume a: "trim_ok p" "(case p of (T, trim, n, B, eps) \<Rightarrow> \<lambda>l. l = n) (length xs)" "all_finite xs"
    "length (filter (\<lambda>x. \<not> (lo \<le> val x \<and> val x \<le> hi)) xs) \<le> (case p of (T, trim, n, B, eps) \<Rightarrow> \<lambda>l. nat trim) (length xs)"
    "\<bar>lo\<bar> \<le> m" "\<bar>hi\<bar> \<le> m" "m < (case p of (T, trim, n, B, eps) \<Rightarrow> B)"
  show "is_fin (trim_rule p xs) \<and> lo - (case p of (T, trim, n, B, eps) \<Rightarrow> eps) * m \<le> val (trim_rule p xs) \<and>
      val (trim_rule p xs) \<le> hi + (case p of (T, trim, n, B, eps) \<Rightarrow> eps) * m"
    using trimmed_col_hull [of T eps xs trim B lo hi m] a unfolding p by (simp add: trim_rule_def trim_ok_def)
qed

section \<open>Results of the backend\<close>

definition stack_of :: "tensor list \<Rightarrow> fl list list" where
  "stack_of updates = map (\<lambda>u. tdata (cpu_float u)) updates"

text \<open>What the backend accepts: a non-empty list of updates of one shape, finite in float32.\<close>

definition aggregable :: "tensor list \<Rightarrow> bool" where
  "aggregable updates \<longleftrightarrow> updates \<noteq> [] \<and> list_all (\<lambda>u. tshape (hd updates) = tshape u) updates \<and>
     list_all all_finite (stack_of updates)"

lemma torch_aggregate_eq:
  assumes "aggregable updates"
  shows "torch_aggregate T c updates =
    (let result = (\<lambda>xs. f32_tensor (tshape (hd updates)) xs); width = numel (hd updates); stacked = stack_of updates in
     if agg_method c = ''median'' then Inr (result (along_dim0 (median_col T) width stacked))
     else if agg_method c = ''trimmed_mean'' then
       res_bind (py_floor (py_mul (agg_beta c) (py_float (int (length stacked))))) (\<lambda>trim.
         if 2 * trim \<ge> int (length stacked) then Inl (ValueError ''trimmed mean would remove every update'')
         else Inr (result (along_dim0 (trimmed_col T trim) width stacked)))
     else if agg_method c \<in> {''krum'', ''multi_krum''} then
       res_bind (krum_select T c stacked) (\<lambda>selected_indices.
         Inr (result (along_dim0 (t_mean T) width (map (\<lambda>i. stacked ! i) selected_indices))))
     else if agg_method c = ''mean'' then Inr (result (along_dim0 (t_mean T) width stacked))
     else Inl (ValueError ''unsupported aggregation method''))"
proof -
  obtain u us where us: "updates = u # us" using assms by (cases updates) (auto simp: aggregable_def)
  have "\<not> list_ex (\<lambda>v. tshape v \<noteq> tshape u) updates" "list_all all_finite (map (\<lambda>u. tdata (cpu_float u)) updates)"
    using assms us by (auto simp: aggregable_def stack_of_def list_ex_iff list_all_iff)
  then show ?thesis unfolding torch_aggregate_def us by (simp add: stack_of_def Let_def)
qed

lemma torch_aggregate_aggregable:
  assumes "torch_aggregate T c updates = Inr out"
  shows "aggregable updates"
proof (cases updates)
  case Nil
  then show ?thesis using assms by (simp add: torch_aggregate_def)
next
  case (Cons u us)
  then show ?thesis using assms
    by (auto simp: torch_aggregate_def aggregable_def stack_of_def list_ex_iff list_all_iff Let_def split: if_split_asm)
qed


lemma stack_of_rows:
  assumes "aggregable updates" "list_all wf_tensor updates"
  shows "\<forall>r \<in> set (stack_of updates). all_finite r \<and> length r = numel (hd updates)"
proof
  fix r assume "r \<in> set (stack_of updates)"
  then obtain u where u: "u \<in> set updates" "r = tdata (cpu_float u)" by (auto simp: stack_of_def)
  have "hd updates \<in> set updates" using assms(1) by (simp add: aggregable_def)
  moreover have "\<forall>v \<in> set updates. wf_tensor v" using assms(2) by (simp add: list_all_iff)
  moreover have "\<forall>v \<in> set updates. tshape (hd updates) = tshape v" using assms(1) by (simp add: aggregable_def list_all_iff)
  ultimately have "wf_tensor u" "tshape (hd updates) = tshape u" "wf_tensor (hd updates)"
    using u(1) by blast+
  then have "length r = numel (hd updates)" using u(2) by (simp add: wf_tensor_def numel_def)
  moreover have "all_finite r"
    using assms(1) \<open>r \<in> set (stack_of updates)\<close> by (simp add: aggregable_def list_all_iff)
  ultimately show "all_finite r \<and> length r = numel (hd updates)" by simp
qed

lemma length_stack_of [simp]: "length (stack_of updates) = length updates"
  by (simp add: stack_of_def)

text \<open>Every coordinate of the updates of the clients in \<open>honest\<close> lies between two float32 bounds.\<close>

definition honest_range :: "nat set \<Rightarrow> tensor list \<Rightarrow> nat \<Rightarrow> real \<Rightarrow> real \<Rightarrow> bool" where
  "honest_range honest updates j lo hi \<longleftrightarrow>
     representable binary32 lo \<and> representable binary32 hi \<and>
     (\<forall>i \<in> honest. i < length updates \<longrightarrow> lo \<le> val (stack_of updates ! i ! j) \<and> val (stack_of updates ! i ! j) \<le> hi)"

definition byzantine :: "nat set \<Rightarrow> tensor list \<Rightarrow> nat" where
  "byzantine honest updates = card ({..<length updates} - honest)"

lemma median_in_honest_range:
  assumes T: "sort_ok T" and c: "agg_method c = ''median''" and wf: "list_all wf_tensor updates"
    and out: "torch_aggregate T c updates = Inr out"
    and byz: "2 * byzantine honest updates < length updates"
    and h: "honest_range honest updates j lo hi" "\<bar>lo\<bar> < 2 powi 127" "\<bar>hi\<bar> < 2 powi 127"
    and j: "j < numel (hd updates)"
  shows "numel out = numel (hd updates) \<and> is_fin (tdata out ! j) \<and> lo \<le> val (tdata out ! j) \<and> val (tdata out ! j) \<le> hi"
proof -
  note ag = torch_aggregate_aggregable [OF out]
  have o: "out = f32_tensor (tshape (hd updates)) (along_dim0 (median_col T) (numel (hd updates)) (stack_of updates))"
    using out unfolding torch_aggregate_eq [OF ag] Let_def c by simp
  have b: "card ({..<length (stack_of updates)} - honest) \<le> (length (stack_of updates) - 1) div 2"
    using byz by (simp add: byzantine_def)
  have "0 < length (stack_of updates)" using ag by (simp add: aggregable_def)
  moreover have "\<forall>i \<in> honest. i < length (stack_of updates) \<longrightarrow>
      lo \<le> val (stack_of updates ! i ! j) \<and> val (stack_of updates ! i ! j) \<le> hi"
    using h(1) by (simp add: honest_range_def)
  moreover have "representable binary32 lo" "representable binary32 hi" using h(1) by (simp_all add: honest_range_def)
  moreover have "\<bar>lo\<bar> \<le> max \<bar>lo\<bar> \<bar>hi\<bar>" "\<bar>hi\<bar> \<le> max \<bar>lo\<bar> \<bar>hi\<bar>" "max \<bar>lo\<bar> \<bar>hi\<bar> < 2 powi 127" using h(2,3) by linarith+
  ultimately have "is_fin (along_dim0 (median_col T) (numel (hd updates)) (stack_of updates) ! j) \<and>
      lo - 0 * max \<bar>lo\<bar> \<bar>hi\<bar> \<le> val (along_dim0 (median_col T) (numel (hd updates)) (stack_of updates) ! j) \<and>
      val (along_dim0 (median_col T) (numel (hd updates)) (stack_of updates) ! j) \<le> hi + 0 * max \<bar>lo\<bar> \<bar>hi\<bar>"
    using b by (intro median.rows_hull [OF T _ stack_of_rows [OF ag wf] _ _ _ _ _ _ _ j])
  then show ?thesis unfolding o by (simp add: f32_tensor_def numel_def)
qed

text \<open>
  C2: The median backend withstands any minority of Byzantine clients. Whatever vectors fewer than half of
  the clients send, each coordinate of the aggregate is a finite number between the least and the greatest
  value the honest clients sent for it, exactly, in float32 arithmetic, for an odd and an even number of
  clients, provided the honest values stay below 2^127 so that the midpoint does not overflow.
\<close>

theorem median_byzantine_robust:
  assumes T: "sort_ok T" and c: "agg_method c = ''median''" and wf: "list_all wf_tensor updates"
    and out: "torch_aggregate T c updates = Inr out"
    and byz: "2 * byzantine honest updates < length updates"
    and h: "honest_range honest updates j lo hi" "\<bar>lo\<bar> < 2 powi 127" "\<bar>hi\<bar> < 2 powi 127"
    and j: "j < numel (hd updates)"
  shows "numel out = numel (hd updates) \<and> is_fin (tdata out ! j) \<and> lo \<le> val (tdata out ! j) \<and> val (tdata out ! j) \<le> hi"
  by (rule median_in_honest_range [OF assms])


lemma representable32_int: "\<bar>n\<bar> < 2 ^ 24 \<Longrightarrow> representable binary32 (of_int n)"
  by (rule representable_int) (simp_all add: binary32_def)

theorem median_byzantine_robust_witness:
  "\<exists>out. torch_aggregate torch_exact default_AggregationConfig
       [flat_vector [Fin 1], flat_vector [Fin 2], flat_vector [Fin 1000]] = Inr out \<and>
     1 \<le> val (tdata out ! 0) \<and> val (tdata out ! 0) \<le> 2"
proof -
  let ?us = "[flat_vector [Fin 1], flat_vector [Fin 2], flat_vector [Fin 1000]]"
  have e: "torch_aggregate torch_exact default_AggregationConfig ?us = Inr (flat_vector [Fin 2])"
    by (simp add: torch_aggregate_def default_AggregationConfig_def rnd32_ints all_finite_def numel_def along_dim0_def
        column_def median_col_def torch_exact_def fin_sort_def vals_def flat_vector_def f32_tensor_def cpu_float_def)
  have "{..<3::nat} - {0, 1} = {2}" by auto
  then have b: "2 * byzantine {0, 1} ?us < length ?us" by (simp add: byzantine_def)
  have h: "honest_range {0, 1} ?us 0 1 2"
    using representable32_int [of 1] representable32_int [of 2] by (simp add: honest_range_def stack_of_def rnd32_ints)
  have w: "list_all wf_tensor ?us" by (simp add: wf_tensor_def)
  have "\<bar>1::real\<bar> < 2 powi 127" "\<bar>2::real\<bar> < 2 powi 127" by simp_all
  from median_byzantine_robust [OF sort_ok_exact _ w e b h this] show ?thesis
    using e by (simp add: default_AggregationConfig_def numel_def)
qed


section \<open>Krum\<close>

text \<open>Position \<open>q\<close> of the row without its own entry belongs to client \<open>other i q\<close>.\<close>

definition other :: "nat \<Rightarrow> nat \<Rightarrow> nat" where
  "other i q = (if q < i then q else Suc q)"

lemma krum_row_nth:
  assumes "i < length ds"
  shows "length (krum_row ds i) = length ds - 1"
    "q < length ds - 1 \<Longrightarrow> krum_row ds i ! q = ds ! other i q"
    "q < length ds - 1 \<Longrightarrow> other i q < length ds \<and> other i q \<noteq> i"
  using assms by (auto simp: krum_row_def other_def nth_append)

lemma inj_other: "inj (other i)"
  by (auto simp: inj_def other_def split: if_splits)

lemma nat_pigeon:
  assumes "finite B" "card B < card A" "finite A"
  obtains a where "a \<in> A" "a \<notin> B"
  using assms by (meson card_mono leD subsetI)

lemma krum_select_Inr:
  assumes "krum_select T c rows = Inr sel"
  obtains k nb where "sel = t_topk_smallest T k (krum_scores T rows nb)"
    "int k = (if agg_method c = ''krum'' then 1 else agg_k c)" "0 < k" "k \<le> nb"
    "int nb = int (length rows) - agg_f c - 2" "2 * agg_f c + 3 \<le> int (length rows)" "nb \<le> length rows - 1"
proof -
  let ?k = "if agg_method c = ''krum'' then 1 else agg_k c" and ?nb = "int (length rows) - agg_f c - 2"
  have e: "sel = t_topk_smallest T (nat ?k) (krum_scores T rows (nat ?nb))" "0 < ?k" "?k \<le> ?nb"
      "2 * agg_f c + 3 \<le> int (length rows)" "?nb \<le> int (length rows) - 1"
    using assms unfolding krum_select_def Let_def by (auto split: if_split_asm)
  show ?thesis by (rule that [OF e(1)]) (use e(2-5) in auto)
qed

lemma length_krum_scores [simp]: "length (krum_scores T rows nb) = length rows"
  by (simp add: krum_scores_def Let_def)

text \<open>
  What makes a Krum rule robust, whatever computes it: a score is at least the distance to each of
  \<open>n - f - 2\<close> other clients, and the clients selected have the least scores.
\<close>

locale krum_scheme =
  fixes size :: "'p \<Rightarrow> nat"
    and faults :: "'p \<Rightarrow> nat"
    and dist :: "'p \<Rightarrow> nat \<Rightarrow> nat \<Rightarrow> fl"
    and score :: "'p \<Rightarrow> nat \<Rightarrow> fl"
    and selected :: "'p \<Rightarrow> nat list"
    and ok :: "'p \<Rightarrow> bool"
  assumes enough: "ok p \<Longrightarrow> 2 * faults p + 3 \<le> size p"
    and neighbours: "ok p \<Longrightarrow> i < size p \<Longrightarrow>
      \<exists>N. N \<subseteq> {..<size p} - {i} \<and> card N = size p - faults p - 2 \<and> (\<forall>h \<in> N. fl_le (dist p i h) (score p i))"
    and selects: "ok p \<Longrightarrow> distinct (selected p) \<and> set (selected p) \<subseteq> {..<size p} \<and>
      length (selected p) \<le> size p - faults p - 2 \<and>
      (\<forall>i \<in> set (selected p). \<forall>j \<in> {..<size p} - set (selected p). fl_le (score p i) (score p j))"
begin

text \<open>More neighbours are counted than there are Byzantine clients, so one of them is honest.\<close>

lemma near_honest:
  assumes p: "ok p" and byz: "card ({..<size p} - honest) \<le> faults p" and i: "i \<in> set (selected p)"
  shows "\<exists>h h'. h \<in> honest \<and> h' \<in> honest \<and> h < size p \<and> h' < size p \<and> h \<noteq> i \<and> fl_le (dist p i h) (score p h')"
proof -
  let ?bad = "{..<size p} - honest"
  note sel = selects [OF p]
  have il: "i < size p" using sel i by auto
  obtain N where N: "N \<subseteq> {..<size p} - {i}" "card N = size p - faults p - 2" "\<forall>h \<in> N. fl_le (dist p i h) (score p i)"
    using neighbours [OF p il] by blast
  have "card ?bad < card N" using byz N(2) enough [OF p] by linarith
  then obtain h where h: "h \<in> N" "h \<notin> ?bad"
    using nat_pigeon [of ?bad N] N(1) finite_subset by (metis finite_Diff finite_lessThan)
  have "card (set (selected p) \<union> ?bad) \<le> length (selected p) + card ?bad"
    using card_Un_le [of "set (selected p)" ?bad] sel by (simp add: distinct_card)
  also have "\<dots> < card {..<size p}" using byz conjunct1 [OF conjunct2 [OF conjunct2 [OF sel]]] enough [OF p] by simp
  finally obtain h' where h': "h' < size p" "h' \<notin> set (selected p)" "h' \<in> honest"
    using nat_pigeon [of "set (selected p) \<union> ?bad" "{..<size p}"] by auto
  have "fl_le (score p i) (score p h')" using sel i h' by simp
  then have "fl_le (dist p i h) (score p h')" using N(3) h(1) fl_le_trans by blast
  moreover have "h < size p" "h \<noteq> i" "h \<in> honest" using N(1) h by auto
  ultimately show ?thesis using h' by blast
qed

end

text \<open>The score of the PyTorch backend dominates the distances it sums.\<close>

lemma krum_score_neighbours:
  assumes T: "topk_ok T" "cdist_ok T" "sum_dominates T" and f: "list_all all_finite rows"
    and i: "i < length rows" and nb: "nb \<le> length rows - 1"
  shows "\<exists>N. N \<subseteq> {..<length rows} - {i} \<and> card N = nb \<and>
    (\<forall>h \<in> N. fl_le (t_cdist2 T rows ! i ! h) (krum_scores T rows nb ! i))"
proof -
  note cd = cdist_okD [OF T(2) f]
  let ?ds = "t_cdist2 T rows ! i"
  let ?row = "krum_row ?ds i" and ?top = "t_topk_smallest T nb (krum_row (t_cdist2 T rows ! i) i)"
  have il: "i < length ?ds" using cd(2) i by simp
  note kr = krum_row_nth [OF il]
  have rl: "length ?row = length rows - 1" using kr(1) cd(2) i by simp
  have ent: "is_fin (?row ! q) \<and> 0 \<le> val (?row ! q)" if "q < length rows - 1" for q
    using kr(2,3) [of q] cd(2,3) [OF i] that by auto
  have rf: "all_finite ?row" using ent rl by (simp add: all_finite_def list_all_length)
  have top: "length ?top = nb" "distinct ?top" "set ?top \<subseteq> {..<length rows - 1}"
    using topk_okD(1-3) [OF T(1) _ rf, of nb] nb rl by simp_all
  let ?N = "other i ` set ?top" and ?sum = "map (\<lambda>p. ?row ! p) ?top"
  have "card ?N = nb"
    using top(1,2) by (metis card_image distinct_card inj_on_subset inj_other subset_UNIV)
  moreover have nn: "\<forall>x \<in> set ?sum. fl_le (Fin 0) x"
  proof
    fix x assume "x \<in> set ?sum"
    then obtain p where "p < length rows - 1" "x = ?row ! p" using top(3) by auto
    then have "is_fin x" "0 \<le> val x" using ent [of p] by auto
    then show "fl_le (Fin 0) x" by (cases x) auto
  qed
  moreover have "h < length rows \<and> h \<noteq> i \<and> fl_le (?ds ! h) (krum_scores T rows nb ! i)" if hN: "h \<in> ?N" for h
  proof -
    obtain q where q: "q \<in> set ?top" "h = other i q" using hN by auto
    have qn: "q < length ?ds - 1" using q(1) top(3) cd(2) i by auto
    have "fl_le (?row ! q) (t_sum64 T ?sum)" using T(3) nn q(1) unfolding sum_dominates_def by simp
    moreover have "krum_scores T rows nb ! i = t_sum64 T ?sum" using i by (simp add: krum_scores_def Let_def)
    ultimately show ?thesis using kr(2,3) [OF qn] q(2) cd(2) i by auto
  qed
  ultimately show ?thesis by (intro exI [of _ ?N]) auto
qed

type_synonym krum_params = "torch \<times> AggregationConfig \<times> fl list list"

definition krum_neighbors :: "krum_params \<Rightarrow> nat" where
  "krum_neighbors p = (case p of (T, c, rows) \<Rightarrow> nat (int (length rows) - agg_f c - 2))"

definition krum_ok :: "krum_params \<Rightarrow> bool" where
  "krum_ok p = (case p of (T, c, rows) \<Rightarrow>
     topk_ok T \<and> cdist_ok T \<and> sum_dominates T \<and> list_all all_finite rows \<and> 0 \<le> agg_f c \<and>
     is_ok (krum_select T c rows) \<and> all_finite (krum_scores T rows (krum_neighbors p)))"

definition krum_chosen :: "krum_params \<Rightarrow> nat list" where
  "krum_chosen p = (case p of (T, c, rows) \<Rightarrow> case krum_select T c rows of Inr sel \<Rightarrow> sel | Inl _ \<Rightarrow> [])"

interpretation torch_krum: krum_scheme "\<lambda>(T, c, rows). length rows" "\<lambda>(T, c, rows). nat (agg_f c)"
  "\<lambda>(T, c, rows) i h. t_cdist2 T rows ! i ! h" "\<lambda>(T, c, rows) i. krum_scores T rows (krum_neighbors (T, c, rows)) ! i"
  krum_chosen krum_ok
proof unfold_locales
  fix p :: krum_params
  assume ok: "krum_ok p"
  obtain T c rows where p: "p = (T, c, rows)" by (cases p)
  obtain sel where sel: "krum_select T c rows = Inr sel" using ok p by (auto simp: krum_ok_def is_ok_iff)
  obtain k nb where s: "sel = t_topk_smallest T k (krum_scores T rows nb)"
    and k: "0 < k" "k \<le> nb" and nb: "int nb = int (length rows) - agg_f c - 2" "2 * agg_f c + 3 \<le> int (length rows)" "nb \<le> length rows - 1"
    using sel by (rule krum_select_Inr) blast
  have T: "topk_ok T" "cdist_ok T" "sum_dominates T" "list_all all_finite rows" "0 \<le> agg_f c"
    using ok p by (auto simp: krum_ok_def)
  have nbn: "krum_neighbors p = nb" using p nb(1) [symmetric] by (simp add: krum_neighbors_def)
  then have fin: "all_finite (krum_scores T rows nb)" using ok p by (simp add: krum_ok_def)
  have nbf: "length rows - nat (agg_f c) - 2 = nb" using nb(1) T(5) by linarith
  show "2 * (case p of (T, c, rows) \<Rightarrow> nat (agg_f c)) + 3 \<le> (case p of (T, c, rows) \<Rightarrow> length rows)"
    using p nb(2) T(5) by simp
  show "\<exists>N. N \<subseteq> {..<case p of (T, c, rows) \<Rightarrow> length rows} - {i} \<and>
      card N = (case p of (T, c, rows) \<Rightarrow> length rows) - (case p of (T, c, rows) \<Rightarrow> nat (agg_f c)) - 2 \<and>
      (\<forall>h \<in> N. fl_le ((case p of (T, c, rows) \<Rightarrow> \<lambda>i h. t_cdist2 T rows ! i ! h) i h)
        ((case p of (T, c, rows) \<Rightarrow> \<lambda>i. krum_scores T rows (krum_neighbors (T, c, rows)) ! i) i))"
    if "i < (case p of (T, c, rows) \<Rightarrow> length rows)" for i
    using krum_score_neighbours [OF T(1-4) _ nb(3), of i] that nbn nbf unfolding p by simp
  have kl: "k \<le> length (krum_scores T rows nb)" using k(2) nb(3) by simp
  note top = topk_okD [OF T(1) kl fin]
  have "fl_le (krum_scores T rows nb ! i) (krum_scores T rows nb ! j)"
    if "i \<in> set sel" "j < length rows" "j \<notin> set sel" for i j
  proof -
    have "is_fin (krum_scores T rows nb ! i)" "is_fin (krum_scores T rows nb ! j)"
      using fin that top(3) s by (auto simp: all_finite_def list_all_length)
    then show ?thesis using top(4) [of i j] that s by (metis fl_le_Fin is_fin_iff length_krum_scores)
  qed
  then show "distinct (krum_chosen p) \<and> set (krum_chosen p) \<subseteq> {..<case p of (T, c, rows) \<Rightarrow> length rows} \<and>
      length (krum_chosen p) \<le> (case p of (T, c, rows) \<Rightarrow> length rows) - (case p of (T, c, rows) \<Rightarrow> nat (agg_f c)) - 2 \<and>
      (\<forall>i \<in> set (krum_chosen p). \<forall>j \<in> {..<case p of (T, c, rows) \<Rightarrow> length rows} - set (krum_chosen p).
        fl_le ((case p of (T, c, rows) \<Rightarrow> \<lambda>i. krum_scores T rows (krum_neighbors (T, c, rows)) ! i) i)
          ((case p of (T, c, rows) \<Rightarrow> \<lambda>i. krum_scores T rows (krum_neighbors (T, c, rows)) ! i) j))"
    using top(1-3) s k(2) sel nbn nbf unfolding p by (simp add: krum_chosen_def)
qed

lemma krum_selection:
  assumes T: "topk_ok T" "cdist_ok T" "sum_dominates T" and f: "list_all all_finite rows" "0 \<le> agg_f c"
    and sel: "krum_select T c rows = Inr sel"
    and byz: "card ({..<length rows} - honest) \<le> nat (agg_f c)"
    and sc: "all_finite (krum_scores T rows (nat (int (length rows) - agg_f c - 2)))"
  shows "int (length sel) = (if agg_method c = ''krum'' then 1 else agg_k c)" "distinct sel" "set sel \<subseteq> {..<length rows}"
    "i \<in> set sel \<Longrightarrow> \<exists>h h'. h \<in> honest \<and> h' \<in> honest \<and> h < length rows \<and> h' < length rows \<and> h \<noteq> i \<and>
       fl_le (t_cdist2 T rows ! i ! h) (krum_scores T rows (nat (int (length rows) - agg_f c - 2)) ! h')"
proof -
  have ok: "krum_ok (T, c, rows)" using assms by (simp add: krum_ok_def krum_neighbors_def)
  have ch: "krum_chosen (T, c, rows) = sel" using sel by (simp add: krum_chosen_def)
  show "distinct sel" "set sel \<subseteq> {..<length rows}" using torch_krum.selects [OF ok] ch by simp_all
  show "\<exists>h h'. h \<in> honest \<and> h' \<in> honest \<and> h < length rows \<and> h' < length rows \<and> h \<noteq> i \<and>
      fl_le (t_cdist2 T rows ! i ! h) (krum_scores T rows (nat (int (length rows) - agg_f c - 2)) ! h')" if "i \<in> set sel"
    using torch_krum.near_honest [OF ok, of honest i] byz that ch by (simp add: krum_neighbors_def)
  obtain k nb where "sel = t_topk_smallest T k (krum_scores T rows nb)"
      "int k = (if agg_method c = ''krum'' then 1 else agg_k c)" "k \<le> nb"
      "int nb = int (length rows) - agg_f c - 2" "nb \<le> length rows - 1"
    using sel by (rule krum_select_Inr) blast
  moreover from this have "nat (int (length rows) - agg_f c - 2) = nb" by linarith
  ultimately show "int (length sel) = (if agg_method c = ''krum'' then 1 else agg_k c)"
    using topk_okD(1) [OF T(1), of k "krum_scores T rows nb"] sc by simp
qed

text \<open>
  C3: Krum and Multi-Krum only average updates that sit close to honest ones. With \<open>n >= 2f + 3\<close> clients of
  which at most \<open>f\<close> are Byzantine, the backend selects the configured number of distinct clients, and every
  selected client, even a Byzantine one, is within the Krum score of some honest client of another honest
  client's update. The aggregate is the coordinate-wise mean of the selected updates; for plain Krum it is
  one of the client's updates, unchanged.
\<close>

theorem krum_byzantine_robust:
  assumes T: "topk_ok T" "cdist_ok T" "sum_dominates T" "mean_singleton T" and c: "agg_method c \<in> {''krum'', ''multi_krum''}" "0 \<le> agg_f c"
    and wf: "list_all wf_tensor updates" and out: "torch_aggregate T c updates = Inr out"
    and byz: "byzantine honest updates \<le> nat (agg_f c)"
    and sc: "all_finite (krum_scores T (stack_of updates) (nat (int (length updates) - agg_f c - 2)))"
  shows "\<exists>sel. int (length sel) = (if agg_method c = ''krum'' then 1 else agg_k c) \<and> distinct sel \<and>
    set sel \<subseteq> {..<length updates} \<and>
    tdata out = along_dim0 (t_mean T) (numel (hd updates)) (map (\<lambda>i. stack_of updates ! i) sel) \<and>
    (\<forall>i \<in> set sel. \<exists>h h'. h \<in> honest \<and> h' \<in> honest \<and> h < length updates \<and> h' < length updates \<and> h \<noteq> i \<and>
       fl_le (t_cdist2 T (stack_of updates) ! i ! h)
         (krum_scores T (stack_of updates) (nat (int (length updates) - agg_f c - 2)) ! h')) \<and>
    (agg_method c = ''krum'' \<longrightarrow> (\<exists>i. sel = [i] \<and> tdata out = stack_of updates ! i))"
proof -
  note ag = torch_aggregate_aggregable [OF out]
  let ?rows = "stack_of updates"
  obtain sel where sel: "krum_select T c ?rows = Inr sel"
    and o: "tdata out = along_dim0 (t_mean T) (numel (hd updates)) (map (\<lambda>i. ?rows ! i) sel)"
    using out c(1) unfolding torch_aggregate_eq [OF ag] Let_def by (auto simp: res_bind_Inr_iff f32_tensor_def)
  have fin: "list_all all_finite ?rows" using ag by (simp add: aggregable_def)
  note ks = krum_selection [OF T(1-3) fin c(2) sel byz [unfolded byzantine_def, folded length_stack_of] sc [folded length_stack_of]]
  have single: "\<exists>i. sel = [i] \<and> tdata out = ?rows ! i" if "agg_method c = ''krum''"
  proof -
    obtain i where i: "sel = [i]" using ks(1) \<open>agg_method c = ''krum''\<close> by (auto simp: length_Suc_conv)
    have r: "all_finite (?rows ! i) \<and> length (?rows ! i) = numel (hd updates)"
      using stack_of_rows [OF ag wf] ks(3) i by simp
    have "tdata out = map (\<lambda>j. ?rows ! i ! j) [0..<numel (hd updates)]"
      using o i T(4) r by (auto simp: along_dim0_def column_def mean_singleton_def all_finite_def list_all_length)
    then have "tdata out = ?rows ! i" using r map_nth [of "?rows ! i"] by simp
    then show ?thesis using i by simp
  qed
  show ?thesis using ks [unfolded length_stack_of] o single by (intro exI [of _ sel] conjI ballI impI) blast+
qed

definition krum_example :: AggregationConfig where
  "krum_example = default_AggregationConfig\<lparr>agg_method := ''krum'', agg_f := 1\<rparr>"

lemma krum_scores_example:
  "krum_scores torch_exact [[Fin 1], [Fin 1000], [Fin 2], [Fin 1], [Fin 2]] 2 = [Fin 1, Fin 1992008, Fin 1, Fin 1, Fin 1]"
  by (simp add: krum_scores_def krum_row_def torch_exact_def exact_cdist2_def exact_sqdist_def exact_sum_def all_finite_def
      stable_topk_def vals_def upt_rec power2_eq_square numeral_2_eq_2)

theorem krum_byzantine_robust_witness:
  "\<exists>out i h. torch_aggregate torch_exact krum_example
       [flat_vector [Fin 1], flat_vector [Fin 1000], flat_vector [Fin 2], flat_vector [Fin 1], flat_vector [Fin 2]] = Inr out \<and>
     h \<in> {0, 2, 3, 4} \<and> h \<noteq> i \<and> tdata out = [[Fin 1], [Fin 1000], [Fin 2], [Fin 1], [Fin 2]] ! i \<and>
     fl_le (t_cdist2 torch_exact [[Fin 1], [Fin 1000], [Fin 2], [Fin 1], [Fin 2]] ! i ! h) (Fin 1)"
proof -
  let ?us = "[flat_vector [Fin 1], flat_vector [Fin 1000], flat_vector [Fin 2], flat_vector [Fin 1], flat_vector [Fin 2]]"
  let ?rows = "[[Fin 1], [Fin 1000], [Fin 2], [Fin 1], [Fin 2]]"
  have rows: "stack_of ?us = ?rows" by (simp add: stack_of_def rnd32_ints)
  have ag: "aggregable ?us" unfolding aggregable_def rows by (simp add: all_finite_def)
  obtain out where out: "torch_aggregate torch_exact krum_example ?us = Inr out"
    unfolding torch_aggregate_eq [OF ag] rows
    by (simp add: krum_example_def default_AggregationConfig_def krum_select_def Let_def)
  have nb: "nat (int (length ?us) - agg_f krum_example - 2) = 2" by (simp add: krum_example_def)
  have sc: "krum_scores torch_exact (stack_of ?us) (nat (int (length ?us) - agg_f krum_example - 2)) =
      [Fin 1, Fin 1992008, Fin 1, Fin 1, Fin 1]" unfolding rows nb by (rule krum_scores_example)
  have "{..<5::nat} - {0, 2, 3, 4} = {1}" by auto
  then have b: "byzantine {0, 2, 3, 4} ?us \<le> nat (agg_f krum_example)" by (simp add: byzantine_def krum_example_def)
  have w: "list_all wf_tensor ?us" by (simp add: wf_tensor_def)
  have c: "agg_method krum_example = ''krum''" "0 \<le> agg_f krum_example" by (simp_all add: krum_example_def)
  have fin: "all_finite (krum_scores torch_exact (stack_of ?us) (nat (int (length ?us) - agg_f krum_example - 2)))"
    unfolding sc by (simp add: all_finite_def)
  have c1: "agg_method krum_example \<in> {''krum'', ''multi_krum''}" using c(1) by simp
  note k = krum_byzantine_robust [OF topk_ok_exact cdist_ok_exact sum_dominates_exact mean_singleton_exact c1 c(2) w out b fin,
      unfolded sc]
  then obtain sel where s: "\<forall>i \<in> set sel. \<exists>h h'. h \<in> {0, 2, 3, 4} \<and> h' \<in> {0, 2, 3, 4} \<and> h < length ?us \<and> h' < length ?us \<and> h \<noteq> i \<and>
       fl_le (t_cdist2 torch_exact (stack_of ?us) ! i ! h) ([Fin 1, Fin 1992008, Fin 1, Fin 1, Fin 1] ! h')"
      "\<exists>i. sel = [i] \<and> tdata out = stack_of ?us ! i"
    using c(1) by blast
  then obtain i where si: "sel = [i]" and o: "tdata out = stack_of ?us ! i" by blast
  then have "i \<in> set sel" by simp
  then obtain h h' where i: "h \<in> {0, 2, 3, 4}" "h' \<in> {0, 2, 3, 4}" "h \<noteq> i"
      "fl_le (t_cdist2 torch_exact (stack_of ?us) ! i ! h) ([Fin 1, Fin 1992008, Fin 1, Fin 1, Fin 1] ! h')"
    using s(1) by blast
  have "[Fin 1, Fin 1992008, Fin 1, Fin 1, Fin 1] ! h' = Fin 1" using i(2) by auto
  then show ?thesis using i out o unfolding rows by (intro exI conjI) auto
qed

section \<open>Totality\<close>

definition wf_AggregationConfig :: "AggregationConfig \<Rightarrow> bool" where
  "wf_AggregationConfig c \<longleftrightarrow>
     agg_method c \<in> {''mean'', ''krum'', ''multi_krum'', ''trimmed_mean'', ''median''} \<and>
     agg_backend c \<in> {''auto'', ''native'', ''torch''} \<and> 0 \<le> agg_f c \<and> 0 < agg_k c \<and>
     fl_le (Fin 0) (agg_beta c) \<and> fl_less (agg_beta c) (Fin (1 / 2))"

interpretation aggregation_config: validated_record AggregationConfig_post_init wf_AggregationConfig
  by unfold_locales (auto simp: AggregationConfig_post_init_def wf_AggregationConfig_def)

text \<open>The number of updates a configuration can aggregate.\<close>

definition counts_ok :: "AggregationConfig \<Rightarrow> int \<Rightarrow> bool" where
  "counts_ok c n \<longleftrightarrow>
     (agg_method c \<in> {''krum'', ''multi_krum''} \<longrightarrow>
        2 * agg_f c + 3 \<le> n \<and> (if agg_method c = ''krum'' then 1 else agg_k c) \<le> n - agg_f c - 2) \<and>
     (agg_method c = ''trimmed_mean'' \<longrightarrow>
        (\<exists>trim. py_floor (py_mul (agg_beta c) (py_float n)) = Inr trim \<and> 2 * trim < n))"

text \<open>
  C20: The PyTorch backend raises only for bad inputs. With a validated configuration, a number of updates
  that its counts allow, and non-empty finite updates of one shape, every method returns a float32 vector of
  that shape; conversely a list that is empty, has two shapes or a non-finite value is always rejected.
\<close>

theorem torch_aggregate_total:
  assumes c: "wf_AggregationConfig c" "counts_ok c (int (length updates))" and n: "updates \<noteq> []" "0 < numel (hd updates)"
  shows "(\<exists>out. torch_aggregate T c updates = Inr out \<and> tshape out = tshape (hd updates) \<and> tdtype out = Float32 \<and>
      numel out = numel (hd updates)) \<longleftrightarrow> aggregable updates"
proof
  assume "\<exists>out. torch_aggregate T c updates = Inr out \<and> tshape out = tshape (hd updates) \<and> tdtype out = Float32 \<and>
      numel out = numel (hd updates)"
  then show "aggregable updates" using torch_aggregate_aggregable by blast
next
  assume ag: "aggregable updates"
  have r0: "stack_of updates ! 0 \<noteq> []" using n by (cases updates) (auto simp: stack_of_def numel_def)
  have krum: "\<exists>sel. krum_select T c (stack_of updates) = Inr sel" if "agg_method c \<in> {''krum'', ''multi_krum''}"
  proof -
    have k: "2 * agg_f c + 3 \<le> int (length updates)"
        "(if agg_method c = ''krum'' then 1 else agg_k c) \<le> int (length updates) - agg_f c - 2"
        "0 < (if agg_method c = ''krum'' then 1 else agg_k c)" "0 \<le> agg_f c"
      using c that by (auto simp: counts_ok_def wf_AggregationConfig_def)
    show ?thesis unfolding krum_select_def Let_def length_stack_of using k r0 by auto
  qed
  have trim: "\<exists>trim. py_floor (py_mul (agg_beta c) (py_float (int (length updates)))) = Inr trim \<and> \<not> int (length updates) \<le> 2 * trim"
    if "agg_method c = ''trimmed_mean''"
    using c(2) that by (auto simp: counts_ok_def not_le)
  have m: "agg_method c \<in> {''mean'', ''krum'', ''multi_krum'', ''trimmed_mean'', ''median''}"
    using c(1) by (simp add: wf_AggregationConfig_def)
  show "\<exists>out. torch_aggregate T c updates = Inr out \<and> tshape out = tshape (hd updates) \<and> tdtype out = Float32 \<and>
      numel out = numel (hd updates)"
    unfolding torch_aggregate_eq [OF ag] Let_def length_stack_of
    using m krum trim by (elim insertE) (auto simp: f32_tensor_def numel_def)
qed

theorem torch_aggregate_total_witness:
  "wf_AggregationConfig krum_example \<and> \<not> (\<exists>out. torch_aggregate torch_exact krum_example (replicate 5 (flat_vector [NaN])) = Inr out \<and>
     tshape out = tshape (hd (replicate 5 (flat_vector [NaN]))) \<and> tdtype out = Float32 \<and>
     numel out = numel (hd (replicate 5 (flat_vector [NaN]))))"
proof -
  have h: "fl_le (Fin 0) (rnd binary64 (1 / 10))" "fl_less (rnd binary64 (1 / 10)) (Fin (1 / 2))"
  proof -
    have "representable binary64 0" "representable binary64 (1 / 4)"
      using representable_zero [OF fmt_ok_binary(1)] representable_dyadic [of 1 binary64 "- 2"] by (simp_all add: binary64_def)
    moreover have "0 \<le> (1 / 10 :: real)" "(1 / 10 :: real) \<le> 1 / 4" by simp_all
    ultimately obtain y where "rnd binary64 (1 / 10) = Fin y" "0 \<le> y" "y \<le> 1 / 4"
      by (rule rnd_between [OF fmt_ok_binary(1)])
    then show "fl_le (Fin 0) (rnd binary64 (1 / 10))" "fl_less (rnd binary64 (1 / 10)) (Fin (1 / 2))" by simp_all
  qed
  have w: "wf_AggregationConfig krum_example"
    using h by (simp add: wf_AggregationConfig_def krum_example_def default_AggregationConfig_def)
  have k: "counts_ok krum_example (int (length (replicate 5 (flat_vector [NaN]))))"
    by (simp add: counts_ok_def krum_example_def)
  have "\<not> aggregable (replicate 5 (flat_vector [NaN]))"
    by (simp add: aggregable_def stack_of_def all_finite_def list_all_iff)
  then show ?thesis using torch_aggregate_total [OF w k, of torch_exact] w by (simp add: numel_def)
qed


section \<open>Accuracy of FedAvg\<close>

text \<open>The weighted sum of coordinate \<open>j\<close> and the weighted sum of its magnitudes.\<close>

definition wsum :: "nat \<Rightarrow> (tensor \<times> int) list \<Rightarrow> real" where
  "wsum j us = sum_list (map (\<lambda>(u, n). of_int n * val (to_fmt binary32 (tdata u ! j))) us)"

definition wabs :: "nat \<Rightarrow> (tensor \<times> int) list \<Rightarrow> real" where
  "wabs j us = sum_list (map (\<lambda>(u, n). of_int n * \<bar>val (to_fmt binary32 (tdata u ! j))\<bar>) us)"

lemma wabs_nonneg: "\<forall>(u, n) \<in> set us. 0 \<le> n \<Longrightarrow> 0 \<le> wabs j us"
  unfolding wabs_def by (intro sum_list_nonneg) auto

lemma accumulate_error:
  fixes eps S A a s y p :: real
  assumes e: "0 \<le> eps" and p: "1 \<le> p" and a: "\<bar>a - s\<bar> \<le> (p - 1) * S" "\<bar>s\<bar> \<le> S"
    and y: "\<bar>y - (a + t)\<bar> \<le> eps * (\<bar>a\<bar> + \<bar>t\<bar>)" "\<bar>t\<bar> \<le> A"
  shows "\<bar>a\<bar> + \<bar>t\<bar> \<le> p * (S + A)" "\<bar>y - (s + t)\<bar> \<le> (p * (1 + eps) - 1) * (S + A)"
proof -
  have SA: "0 \<le> S" "0 \<le> A" using a(2) y(2) by linarith+
  have "\<bar>a\<bar> \<le> (p - 1) * S + S" using a by linarith
  moreover have "A \<le> p * A" using p SA(2) by (simp add: mult_le_cancel_right1)
  ultimately show m: "\<bar>a\<bar> + \<bar>t\<bar> \<le> p * (S + A)" using y(2) by (simp add: algebra_simps)
  have "eps * (\<bar>a\<bar> + \<bar>t\<bar>) \<le> eps * (p * (S + A))" using m e by (rule mult_left_mono)
  moreover have "(p - 1) * S \<le> (p - 1) * (S + A)" using p SA by (intro mult_left_mono) auto
  moreover have "\<bar>y - (s + t)\<bar> \<le> \<bar>y - (a + t)\<bar> + \<bar>a - s\<bar>" by linarith
  ultimately have "\<bar>y - (s + t)\<bar> \<le> eps * (p * (S + A)) + (p - 1) * (S + A)" using y(1) a(1) by linarith
  then show "\<bar>y - (s + t)\<bar> \<le> (p * (1 + eps) - 1) * (S + A)" by (simp add: algebra_simps)
qed

lemma fedavg_loop_Inr:
  assumes "fedavg_loop T sh us acc tot = Inr (acc', tot')"
  shows "(\<forall>(u, n) \<in> set us. 0 < n) \<and> tot' = tot + sum_list (map snd us)"
  using assms
proof (induction us arbitrary: acc tot)
  case (Cons p us)
  obtain u n where p: "p = (u, n)" by (cases p)
  then obtain acc1 where "0 < n" and l1: "fedavg_loop T sh us acc1 (tot + n) = Inr (acc', tot')"
    using Cons.prems by (auto simp: Let_def res_simps simp del: cpu_float_simps split: if_split_asm)
  then show ?case using Cons.IH [OF l1] p by auto
qed simp

lemma fedavg_loop_accurate:
  assumes T: "axpy_accurate T B eps" "0 \<le> eps"
    and l: "fedavg_loop T sh us acc tot = Inr (acc', tot')"
    and us: "\<forall>(u, n) \<in> set us. n < 2 ^ 53 \<and> length (tdata u) = width"
    and j: "j < width" "length acc = width" and acc: "acc ! j = Fin a" "\<bar>a - s\<bar> \<le> ((1 + eps) ^ k - 1) * S" "\<bar>s\<bar> \<le> S"
    and B: "(1 + eps) ^ (k + length us) * (S + wabs j us) \<le> B"
  shows "length acc' = width \<and>
    (\<exists>a'. acc' ! j = Fin a' \<and> \<bar>a' - (s + wsum j us)\<bar> \<le> ((1 + eps) ^ (k + length us) - 1) * (S + wabs j us))"
  using l us j(2) acc B
proof (induction us arbitrary: acc tot a s S k)
  case Nil
  then show ?case by (simp add: wsum_def wabs_def)
next
  case (Cons p us)
  obtain u n where p: "p = (u, n)" by (cases p)
  let ?acc1 = "map2 (\<lambda>acc x. t_axpy T acc x (Fin (of_int n))) acc (tdata (cpu_float u))"
  have n: "n < 2 ^ 53" "length (tdata u) = width" using Cons.prems(2) p by auto
  have pos: "\<forall>(u, n) \<in> set (p # us). 0 < n" using fedavg_loop_Inr [OF Cons.prems(1)] by simp
  then have n0: "0 < n" using p by simp
  have w: "py_int_float n = Inr (Fin (of_int n))" using n n0 by (simp add: py_int_float_def py_float_small)
  have fx: "all_finite (tdata (cpu_float u))" and l1: "fedavg_loop T sh us ?acc1 (tot + n) = Inr (acc', tot')"
    using Cons.prems(1) p w by (auto simp: Let_def simp del: cpu_float_simps split: if_split_asm)
  then obtain x where x: "to_fmt binary32 (tdata u ! j) = Fin x"
    using n(2) j(1) by (auto simp: all_finite_def list_all_length elim: is_finE)
  let ?t = "of_int n * x" and ?y = "t_axpy T (Fin a) (Fin x) (Fin (of_int n))"
  have A: "\<bar>?t\<bar> = of_int n * \<bar>x\<bar>" using n0 by (simp add: abs_mult)
  have ws: "wsum j (p # us) = ?t + wsum j us" "wabs j (p # us) = \<bar>?t\<bar> + wabs j us"
    using p x A by (simp_all add: wsum_def wabs_def)
  have nn: "0 \<le> wabs j us" "0 \<le> S" using pos wabs_nonneg [of us j] Cons.prems(6) by fastforce+
  have p1: "1 \<le> (1 + eps) ^ k" "(1 + eps) ^ k \<le> (1 + eps) ^ (k + length (p # us))"
    using T(2) by (simp, intro power_increasing) auto
  have step: "\<bar>a\<bar> + \<bar>?t\<bar> \<le> (1 + eps) ^ k * (S + \<bar>?t\<bar>)"
    using accumulate_error(1) [OF T(2) p1(1) Cons.prems(5,6), of "a + ?t" ?t "\<bar>?t\<bar>"] T(2) by simp
  also have "\<dots> \<le> (1 + eps) ^ (k + length (p # us)) * (S + wabs j (p # us))"
    using p1 nn ws(2) by (intro mult_mono) auto
  finally have "\<bar>a\<bar> + \<bar>of_int n * x\<bar> \<le> B" using Cons.prems(7) by linarith
  then have y: "is_fin ?y" "\<bar>val ?y - (a + ?t)\<bar> \<le> eps * (\<bar>a\<bar> + \<bar>?t\<bar>)"
    using T(1) unfolding axpy_accurate_def by blast+
  have "?acc1 ! j = ?y" "length ?acc1 = width"
    using Cons.prems(3,4) n(2) j(1) x by simp_all
  then have y1: "?acc1 ! j = Fin (val ?y)" using y(1) by (simp add: is_fin_iff)
  have e1: "\<bar>val ?y - (s + ?t)\<bar> \<le> ((1 + eps) ^ Suc k - 1) * (S + \<bar>?t\<bar>)"
    using accumulate_error(2) [OF T(2) p1(1) Cons.prems(5,6) y(2), of "\<bar>?t\<bar>"] by (simp add: mult.commute)
  have s1: "\<bar>s + ?t\<bar> \<le> S + \<bar>?t\<bar>" using Cons.prems(6) by linarith
  have us1: "\<forall>(u, n) \<in> set us. n < 2 ^ 53 \<and> length (tdata u) = width" using Cons.prems(2) by simp
  have B1: "(1 + eps) ^ (Suc k + length us) * (S + \<bar>?t\<bar> + wabs j us) \<le> B"
    using Cons.prems(7) ws(2) by (simp add: add.assoc)
  from Cons.IH [OF l1 us1 \<open>length ?acc1 = width\<close> y1 e1 s1 B1] show ?case
    unfolding ws by (simp add: add.assoc)
qed

text \<open>The usable results of a round: update and sample count.\<close>

definition usable :: "WorkerResult list \<Rightarrow> (tensor \<times> int) list" where
  "usable results = concat (map (\<lambda>r. case r_update r of None \<Rightarrow> [] | Some u \<Rightarrow> [(u, r_sample_count r)]) results)"


text \<open>A result that carries an update of a client with the given sample count, for evaluation.\<close>

definition ok_result :: "string \<Rightarrow> int \<Rightarrow> tensor \<Rightarrow> int \<Rightarrow> bool \<Rightarrow> WorkerResult" where
  "ok_result nid rid u n mal =
     \<lparr>r_node_id = nid, r_round_id = rid, r_update = Some u, r_sample_count = n, r_loss = Fin 0, r_gradient_norms = [],
      r_dynamic_epochs = 1, r_training_duration_ms = 0, r_simulated_latency_ms = 0, r_malicious = mal,
      r_attack_kind = ''none'', r_dp_original_norm = None, r_dp_clipped_norm = None, r_dp_noise_std = None,
      r_dp_epsilon_per_release = None, r_error = None\<rparr>"


section \<open>The global model\<close>

text \<open>\<open>vector_to_parameters\<close> followed by \<open>parameters_to_vector\<close> gives the vector back.\<close>

definition nn_load_ok :: "('m, 'x) nn \<Rightarrow> bool" where
  "nn_load_ok M \<longleftrightarrow>
     (\<forall>m v. tshape v = tshape (nn_vector M m) \<and> tdtype v = tdtype (nn_vector M m) \<and> numel v = numel (nn_vector M m) \<longrightarrow>
        tshape (nn_vector M (nn_load M m v)) = tshape v \<and> tdtype (nn_vector M (nn_load M m v)) = tdtype v \<and>
        tdata (nn_vector M (nn_load M m v)) = tdata v)"

text \<open>The model invariant of the coordinator: a non-empty flat vector of finite parameters.\<close>

definition valid_model :: "('m, 'x) nn \<Rightarrow> 'm \<Rightarrow> bool" where
  "valid_model M m \<longleftrightarrow> ndim (nn_vector M m) = 1 \<and> 0 < numel (nn_vector M m) \<and> all_finite (tdata (nn_vector M m))"

lemma parameter_vector_valid: "parameter_vector M m = (if valid_model M m then Inr (nn_vector M m) else parameter_vector M m)"
  by (simp add: parameter_vector_def valid_model_def Let_def)

lemma parameter_vector_Inr: "parameter_vector M m = Inr v \<longleftrightarrow> valid_model M m \<and> v = nn_vector M m"
  by (auto simp: parameter_vector_def valid_model_def Let_def)

lemma apply_parameter_delta_Inr:
  assumes "apply_parameter_delta M m delta = Inr m'"
  obtains d where "delta = PyTensor d" "valid_model M m" "ndim d = 1" "numel d = numel (nn_vector M m)"
    "all_finite (map (to_fmt (fmt_of (tdtype (nn_vector M m)))) (tdata d))"
    "all_finite (map2 (fl_add (fmt_of (tdtype (nn_vector M m)))) (tdata (nn_vector M m))
       (map (to_fmt (fmt_of (tdtype (nn_vector M m)))) (tdata d)))"
    "m' = nn_load M m ((nn_vector M m)\<lparr>tdata := map2 (fl_add (fmt_of (tdtype (nn_vector M m)))) (tdata (nn_vector M m))
       (map (to_fmt (fmt_of (tdtype (nn_vector M m)))) (tdata d))\<rparr>)"
  using assms
  by (auto simp: apply_parameter_delta_def res_bind_Inr_iff parameter_vector_Inr Let_def ndim_def numel_def
      split: pyobj.splits if_split_asm)

lemma apply_parameter_delta_effect:
  assumes M: "nn_load_ok M" and a: "apply_parameter_delta M m delta = Inr m'"
  obtains d where "delta = PyTensor d" "ndim d = 1" "numel d = numel (nn_vector M m)" "valid_model M m'"
    "numel (nn_vector M m') = numel (nn_vector M m)" "tdtype (nn_vector M m') = tdtype (nn_vector M m)"
    "\<forall>i < numel d. tdata (nn_vector M m') ! i =
       fl_add (fmt_of (tdtype (nn_vector M m))) (tdata (nn_vector M m) ! i) (to_fmt (fmt_of (tdtype (nn_vector M m))) (tdata d ! i))"
proof -
  let ?v = "nn_vector M m" and ?F = "fmt_of (tdtype (nn_vector M m))"
  obtain d where d: "delta = PyTensor d" "valid_model M m" "ndim d = 1" "numel d = numel ?v"
      "all_finite (map2 (fl_add ?F) (tdata ?v) (map (to_fmt ?F) (tdata d)))"
      "m' = nn_load M m (?v\<lparr>tdata := map2 (fl_add ?F) (tdata ?v) (map (to_fmt ?F) (tdata d))\<rparr>)"
    using a by (rule apply_parameter_delta_Inr) blast
  let ?new = "?v\<lparr>tdata := map2 (fl_add ?F) (tdata ?v) (map (to_fmt ?F) (tdata d))\<rparr>"
  have nn: "numel ?new = numel ?v" using d(4) by (simp add: numel_def)
  have e: "tshape (nn_vector M m') = tshape ?v \<and> tdtype (nn_vector M m') = tdtype ?v \<and> tdata (nn_vector M m') = tdata ?new"
    using M nn d(6) unfolding nn_load_ok_def by simp
  then have "valid_model M m'" using d(2,5) nn by (simp add: valid_model_def ndim_def numel_def)
  then show ?thesis using that d(1,3,4) e nn by (simp add: numel_def)
qed

text \<open>
  C10: A delta is applied completely and safely or not at all. When the coordinator accepts an aggregated
  delta, it was a flat vector with one finite value per parameter; the new parameters are the old ones plus
  the delta in the model's arithmetic, and they are again a non-empty vector of finite numbers, so that the
  next round can read them. A delta that is not a tensor, has another length, a non-finite value or a
  non-finite sum is rejected before anything is written.
\<close>

theorem apply_parameter_delta_sound:
  assumes M: "nn_load_ok M"
  shows "case apply_parameter_delta M m delta of
      Inr m' \<Rightarrow> (\<exists>d. delta = PyTensor d \<and> ndim d = 1 \<and> numel d = numel (nn_vector M m) \<and> valid_model M m' \<and>
        numel (nn_vector M m') = numel (nn_vector M m) \<and> tdtype (nn_vector M m') = tdtype (nn_vector M m) \<and>
        (\<forall>i < numel d. tdata (nn_vector M m') ! i =
           fl_add (fmt_of (tdtype (nn_vector M m))) (tdata (nn_vector M m) ! i)
             (to_fmt (fmt_of (tdtype (nn_vector M m))) (tdata d ! i))))
    | Inl e \<Rightarrow> \<not> valid_model M m \<or> delta = PyOther \<or>
        (\<exists>d. delta = PyTensor d \<and> (ndim d \<noteq> 1 \<or> numel d \<noteq> numel (nn_vector M m) \<or>
           \<not> all_finite (map2 (fl_add (fmt_of (tdtype (nn_vector M m)))) (tdata (nn_vector M m))
               (map (to_fmt (fmt_of (tdtype (nn_vector M m)))) (tdata d))) \<or>
           \<not> all_finite (map (to_fmt (fmt_of (tdtype (nn_vector M m)))) (tdata d))))"
proof (cases "apply_parameter_delta M m delta")
  case (Inl e)
  then show ?thesis
    by (auto simp: apply_parameter_delta_def res_bind_Inl_iff parameter_vector_Inr parameter_vector_def valid_model_def
        Let_def ndim_def numel_def split: pyobj.splits if_split_asm)
next
  case (Inr m')
  obtain d where d: "delta = PyTensor d" "ndim d = 1" "numel d = numel (nn_vector M m)" "valid_model M m'"
    "numel (nn_vector M m') = numel (nn_vector M m)" "tdtype (nn_vector M m') = tdtype (nn_vector M m)"
    "\<forall>i < numel d. tdata (nn_vector M m') ! i =
       fl_add (fmt_of (tdtype (nn_vector M m))) (tdata (nn_vector M m) ! i) (to_fmt (fmt_of (tdtype (nn_vector M m))) (tdata d ! i))"
    by (rule apply_parameter_delta_effect [OF M Inr])
  show ?thesis unfolding Inr sum.case by (intro exI [of _ d] conjI d)
qed

lemma nn_load_ok_counter: "nn_load_ok nn_counter"
  by (simp add: nn_load_ok_def nn_counter_def flat_vector_def f32_tensor_def numel_def)

theorem apply_parameter_delta_sound_witness:
  "\<exists>m'. apply_parameter_delta nn_counter [Fin 1] (PyTensor (flat_vector [Fin 2])) = Inr m' \<and> valid_model nn_counter m'"
proof -
  have "apply_parameter_delta nn_counter [Fin 1] (PyTensor (flat_vector [Fin 2])) = Inr [Fin 3]"
    by (simp add: apply_parameter_delta_def parameter_vector_def nn_counter_def numel_def ndim_def all_finite_def
        flat_vector_def f32_tensor_def fmt_of_def rnd32_ints)
  with apply_parameter_delta_sound [OF nn_load_ok_counter, of "[Fin 1]" "PyTensor (flat_vector [Fin 2])"] show ?thesis by auto
qed

section \<open>Mitigation metrics\<close>

lemma clamp_unit: "\<exists>s. py_max (Fin 0) (py_min (Fin 1) x) = Fin s \<and> 0 \<le> s \<and> s \<le> 1"
  by (cases x) (auto simp: py_max_def py_min_def)

text \<open>
  The mitigation score is a number in [0, 1] whenever it is reported, and both metrics are reported exactly
  when the round has both a malicious and a benign update.
\<close>

theorem mitigation_metrics_sound:
  assumes "attack_mitigation_metrics T results robust = Inr (score, mitigated)"
  shows "(score = None \<longleftrightarrow> mitigated = None) \<and>
    (score \<noteq> None \<longleftrightarrow> list_ex (\<lambda>r. r_malicious r \<and> r_update r \<noteq> None) results \<and>
       list_ex (\<lambda>r. \<not> r_malicious r \<and> r_update r \<noteq> None) results) \<and>
    (case score of None \<Rightarrow> True | Some s \<Rightarrow> \<exists>x. s = Fin x \<and> 0 \<le> x \<and> x \<le> 1)"
proof -
  let ?mal = "filter (\<lambda>r. r_malicious r \<and> r_update r \<noteq> None) results"
  let ?ben = "filter (\<lambda>r. \<not> r_malicious r \<and> r_update r \<noteq> None) results"
  have e: "?mal \<noteq> [] \<longleftrightarrow> list_ex (\<lambda>r. r_malicious r \<and> r_update r \<noteq> None) results"
    "?ben \<noteq> [] \<longleftrightarrow> list_ex (\<lambda>r. \<not> r_malicious r \<and> r_update r \<noteq> None) results"
    by (simp_all only: filter_empty_conv list_ex_iff) auto
  show ?thesis
  proof (cases "?mal = [] \<or> ?ben = []")
    case True
    then have "score = None" "mitigated = None" using assms by (simp_all add: attack_mitigation_metrics_def Let_def)
    then show ?thesis using True e by auto
  next
    case False
    then obtain s b where "score = Some s" "mitigated = Some b" "\<exists>x. s = Fin x \<and> 0 \<le> x \<and> x \<le> 1"
      using assms clamp_unit unfolding attack_mitigation_metrics_def Let_def
      by (auto simp: res_bind_Inr_iff split: if_split_asm)
    then show ?thesis using False e by auto
  qed
qed

theorem mitigation_metrics_sound_witness:
  "\<exists>score mitigated. attack_mitigation_metrics torch_exact [ok_result ''a'' 1 (flat_vector [Fin 1]) 1 False,
       ok_result ''b'' 1 (flat_vector [Fin 3]) 1 True] (flat_vector [Fin 1]) = Inr (score, mitigated) \<and>
     (case score of None \<Rightarrow> True | Some s \<Rightarrow> \<exists>x. s = Fin x \<and> 0 \<le> x \<and> x \<le> 1)"
proof -
  have "\<exists>p. attack_mitigation_metrics torch_exact [ok_result ''a'' 1 (flat_vector [Fin 1]) 1 False,
       ok_result ''b'' 1 (flat_vector [Fin 3]) 1 True] (flat_vector [Fin 1]) = Inr p"
    by (simp add: attack_mitigation_metrics_def ok_result_def mean_of_def along_dim0_def column_def torch_exact_def
        exact_mean_def exact_norm_def vals_def all_finite_def fl_sub_def rnd32_ints py_div_def Let_def)
  then obtain score mitigated where e: "attack_mitigation_metrics torch_exact [ok_result ''a'' 1 (flat_vector [Fin 1]) 1 False,
       ok_result ''b'' 1 (flat_vector [Fin 3]) 1 True] (flat_vector [Fin 1]) = Inr (score, mitigated)"
    by (metis (no_types) surj_pair)
  show ?thesis by (rule exI [of _ score], rule exI [of _ mitigated]) (use e mitigation_metrics_sound [OF e] in blast)
qed

text \<open>
  Two infinite errors make the ratio NaN, and \<open>min(1.0, nan)\<close> is \<open>1.0\<close>: the score is perfect although
  the attack is not counted as mitigated.
\<close>

lemma mitigation_infinite_errors:
  assumes "list_ex (\<lambda>r. r_malicious r \<and> r_update r \<noteq> None) results"
    "list_ex (\<lambda>r. \<not> r_malicious r \<and> r_update r \<noteq> None) results"
    "list_all (\<lambda>r. r_update r = None \<or> tshape (the (r_update r)) = tshape robust) results" "\<And>xs. t_norm T xs = PInf"
  shows "attack_mitigation_metrics T results robust = Inr (Some (Fin 1), Some False)"
proof -
  have "filter (\<lambda>r. r_malicious r \<and> r_update r \<noteq> None) results \<noteq> []"
    "filter (\<lambda>r. \<not> r_malicious r \<and> r_update r \<noteq> None) results \<noteq> []"
    using assms(1,2) by (auto simp: list_ex_iff filter_empty_conv)
  moreover have "\<not> list_ex (\<lambda>r. r_update r \<noteq> None \<and> tshape (the (r_update r)) \<noteq> tshape robust) results"
    using assms(3) by (auto simp: list_ex_iff list_all_iff)
  moreover have "\<not> fl_le PInf (rnd binary64 (1 / 10 ^ 12))"
  proof -
    obtain y where "rnd binary64 (1 / 10 ^ 12) = Fin y"
    proof (rule rnd_between [OF fmt_ok_binary(1), of 0 1 "1 / 10 ^ 12"])
      show "representable binary64 0" "representable binary64 1"
        using representable_zero [OF fmt_ok_binary(1)] representable_int [of 1 binary64] by (simp_all add: binary64_def)
    qed (use that in auto)
    then show ?thesis by simp
  qed
  ultimately show ?thesis unfolding attack_mitigation_metrics_def Let_def assms(4)
    by (simp add: py_div_def py_min_def py_max_def fl_sub_def)
qed

end
