(* ===== verification/Native_Core.thy ===== *)
theory Native_Core
  imports Aggregation
begin

text \<open>
  The C++ extension: the aggregation core of \<open>cpp/src/byzantine_aggregator.cpp\<close>, the distance kernels of
  \<open>cpp/src/simd_distance.cpp\<close> and the bindings of \<open>cpp/src/aggregator_pybind.cpp\<close>. Arithmetic is the IEEE
  arithmetic of the source, in its order: \<open>float\<close> is binary32, \<open>double\<close> binary64 and the cast between
  them \<open>to_fmt\<close>. \<open>std::nth_element\<close>, whose result the standard leaves partly open, is a field of the record
  \<open>native\<close> together with what the CPU and the build decide.

  Both backends are instances of the same contracts: the rules that keep to the honest range
  (\<open>hull_rule\<close>) and Krum selection (\<open>krum_scheme\<close>).
\<close>

section \<open>The build\<close>

record native =
  n_nth_element :: "nat \<Rightarrow> fl list \<Rightarrow> fl list"     \<comment> \<open>\<open>std::nth_element(first, first + m, last)\<close>\<close>
  n_avx512 :: bool                                  \<comment> \<open>an x86 build on a CPU with AVX-512F, AVX and FMA\<close>
  n_neon :: bool                                    \<comment> \<open>an AArch64 build\<close>
  n_openmp :: bool

text \<open>
  \<open>std::nth_element\<close> on a range without NaN: a permutation, with nothing after position \<open>m\<close> smaller and
  nothing before it larger than the element there.
\<close>

definition nth_element_ok :: "native \<Rightarrow> bool" where
  "nth_element_ok X \<longleftrightarrow>
     (\<forall>m xs. m < length xs \<longrightarrow> NaN \<notin> set xs \<longrightarrow>
        mset (n_nth_element X m xs) = mset xs \<and>
        (\<forall>i < m. fl_le (n_nth_element X m xs ! i) (n_nth_element X m xs ! m)) \<and>
        (\<forall>i < length xs. m < i \<longrightarrow> fl_le (n_nth_element X m xs ! m) (n_nth_element X m xs ! i)))"

section \<open>Distances\<close>

text \<open>A fused multiply-add rounds once.\<close>

fun fl_fma :: "fmt \<Rightarrow> fl \<Rightarrow> fl \<Rightarrow> fl \<Rightarrow> fl" where
  "fl_fma F (Fin a) (Fin b) (Fin c) = rnd F (a * b + c)"
| "fl_fma F (Fin a) (Fin b) c = c"
| "fl_fma F a b c = fl_add F (fl_mul F a b) c"

text \<open>The tail loop of every kernel, which is the whole scalar kernel.\<close>

fun distance_tail :: "fl \<Rightarrow> fl list \<Rightarrow> fl list \<Rightarrow> fl" where
  "distance_tail sum_sq (l # lhs) (r # rhs) =
     (let delta = fl_sub binary64 l r in distance_tail (fl_add binary64 sum_sq (fl_mul binary64 delta delta)) lhs rhs)"
| "distance_tail sum_sq _ _ = sum_sq"

definition squared_distance_scalar :: "fl list \<Rightarrow> fl list \<Rightarrow> fl" where
  "squared_distance_scalar lhs rhs = distance_tail (Fin 0) lhs rhs"

text \<open>One vector step: each lane accumulates its own squared difference.\<close>

definition fma_lanes :: "fmt \<Rightarrow> fl list \<Rightarrow> fl list \<Rightarrow> fl list \<Rightarrow> fl list" where
  "fma_lanes F accumulator lhs rhs =
     map2 (\<lambda>a (l, r). let delta = fl_sub F l r in fl_fma binary64 delta delta a) accumulator (zip lhs rhs)"

fun lanes_loop :: "fmt \<Rightarrow> nat \<Rightarrow> fl list \<Rightarrow> fl list \<Rightarrow> fl list \<Rightarrow> fl list \<times> fl list \<times> fl list" where
  "lanes_loop F w accumulator lhs rhs =
     (if 0 < w \<and> w \<le> length lhs
      then lanes_loop F w (fma_lanes F accumulator (take w lhs) (take w rhs)) (drop w lhs) (drop w rhs)
      else (accumulator, lhs, rhs))"

declare lanes_loop.simps [simp del]

definition accumulate :: "fl list \<Rightarrow> fl \<Rightarrow> fl" where
  "accumulate xs init = foldl (fl_add binary64) init xs"

definition squared_distance_avx512 :: "fl list \<Rightarrow> fl list \<Rightarrow> fl" where
  "squared_distance_avx512 lhs rhs =
     (case lanes_loop binary64 8 (replicate 8 (Fin 0)) lhs rhs of
        (lanes, lhs', rhs') \<Rightarrow> distance_tail (accumulate lanes (Fin 0)) lhs' rhs')"

text \<open>The NEON kernel subtracts in float32; lanes 0 and 1 are the low accumulator, 2 and 3 the high one.\<close>

definition squared_distance_neon :: "fl list \<Rightarrow> fl list \<Rightarrow> fl" where
  "squared_distance_neon lhs rhs =
     (case lanes_loop binary32 4 (replicate 4 (Fin 0)) lhs rhs of
        (lanes, lhs', rhs') \<Rightarrow> distance_tail (accumulate (tl lanes) (hd lanes)) lhs' rhs')"

definition resolve_dispatch :: "native \<Rightarrow> (fl list \<Rightarrow> fl list \<Rightarrow> fl) \<times> string" where
  "resolve_dispatch X =
     (if n_avx512 X then (squared_distance_avx512, ''avx512'')
      else if n_neon X then (squared_distance_neon, ''neon'')
      else (squared_distance_scalar, ''scalar''))"

definition squared_euclidean_distance_simd :: "native \<Rightarrow> fl list \<Rightarrow> fl list \<Rightarrow> fl" where
  "squared_euclidean_distance_simd X = fst (resolve_dispatch X)"

definition active_simd_backend :: "native \<Rightarrow> string" where
  "active_simd_backend X = snd (resolve_dispatch X)"

section \<open>The aggregation core\<close>

text \<open>\<open>std::invalid_argument\<close> reaches Python as \<open>ValueError\<close>. An update is a view of \<open>size\<close> floats.\<close>

definition validate_updates :: "fl list list \<Rightarrow> nat res" where
  "validate_updates updates =
     (case updates of
        [] \<Rightarrow> Inl (ValueError ''at least one model update is required'')
      | front # _ \<Rightarrow>
          let dimension = length front in
          if dimension = 0 then Inl (ValueError ''model updates must not be empty'')
          else if list_ex (\<lambda>u. length u \<noteq> dimension) updates
            then Inl (ValueError ''all model updates must have the same number of elements'')
          else if list_ex (list_ex (\<lambda>x. \<not> is_fin x)) updates
            then Inl (ValueError ''model updates must contain only finite values'')
          else Inr dimension)"

definition krum_distances :: "native \<Rightarrow> fl list list \<Rightarrow> fl list list" where
  "krum_distances X updates =
     map (\<lambda>i. map (\<lambda>j. if i = j then Fin 0
                        else squared_euclidean_distance_simd X (updates ! min i j) (updates ! max i j))
             [0..<length updates])
       [0..<length updates]"

definition nearest_of :: "fl list list \<Rightarrow> nat \<Rightarrow> fl list" where
  "nearest_of distances i = map (\<lambda>j. distances ! i ! j) (filter (\<lambda>j. i \<noteq> j) [0..<length distances])"

definition native_scores :: "native \<Rightarrow> fl list list \<Rightarrow> nat \<Rightarrow> fl list" where
  "native_scores X updates neighbor_count =
     (let distances = krum_distances X updates
      in map (\<lambda>i. accumulate (take neighbor_count (n_nth_element X neighbor_count (nearest_of distances i))) (Fin 0))
           [0..<length updates])"

definition score_order :: "fl list \<Rightarrow> nat \<Rightarrow> nat \<Rightarrow> bool" where
  "score_order scores lhs rhs =
     (if fl_eq (scores ! lhs) (scores ! rhs) then lhs < rhs else fl_less (scores ! lhs) (scores ! rhs))"

text \<open>\<open>std::partial_sort\<close> with a strict total order: the first \<open>k\<close> of the sorted range.\<close>

fun insert_by :: "('a \<Rightarrow> 'a \<Rightarrow> bool) \<Rightarrow> 'a \<Rightarrow> 'a list \<Rightarrow> 'a list" where
  "insert_by lt x [] = [x]"
| "insert_by lt x (y # ys) = (if lt y x then y # insert_by lt x ys else x # y # ys)"

definition sort_by :: "('a \<Rightarrow> 'a \<Rightarrow> bool) \<Rightarrow> 'a list \<Rightarrow> 'a list" where
  "sort_by lt xs = foldr (insert_by lt) xs []"

definition partial_sort :: "('a \<Rightarrow> 'a \<Rightarrow> bool) \<Rightarrow> nat \<Rightarrow> 'a list \<Rightarrow> 'a list" where
  "partial_sort lt k xs = take k (sort_by lt xs)"

definition native_select :: "native \<Rightarrow> fl list list \<Rightarrow> nat \<Rightarrow> nat \<Rightarrow> nat list" where
  "native_select X updates byzantine_count candidate_count =
     partial_sort (score_order (native_scores X updates (length updates - byzantine_count - 2))) candidate_count
       [0..<length updates]"

text \<open>\<open>float(sum / double(m))\<close> of a loop that adds floats into a double.\<close>

definition float_mean :: "fl list \<Rightarrow> fl" where
  "float_mean xs =
     to_fmt binary32 (fl_div binary64 (accumulate xs (Fin 0)) (py_float (int (length xs))))"

definition krum_aggregate :: "native \<Rightarrow> fl list list \<Rightarrow> nat \<Rightarrow> nat \<Rightarrow> fl list res" where
  "krum_aggregate X updates byzantine_count candidate_count =
     res_bind (validate_updates updates) (\<lambda>dimension.
       let n = length updates in
       if n < 2 * byzantine_count + 3 then Inl (ValueError ''Krum requires n >= 2*f + 3'')
       else if candidate_count = 0 \<or> candidate_count > n - byzantine_count - 2
         then Inl (ValueError ''Multi-Krum candidate count k must satisfy 1 <= k <= n-f-2'')
       else
         let indices = native_select X updates byzantine_count candidate_count in
         if candidate_count = 1 then Inr (updates ! hd indices)
         else Inr (along_dim0 float_mean dimension (map (\<lambda>i. updates ! i) indices)))"

definition trimmed_mean_col :: "nat \<Rightarrow> fl list \<Rightarrow> fl" where
  "trimmed_mean_col trim_count values =
     float_mean (take (length values - 2 * trim_count) (drop trim_count (fin_sort values)))"

definition trimmed_mean_aggregate :: "fl list list \<Rightarrow> fl \<Rightarrow> fl list res" where
  "trimmed_mean_aggregate updates beta =
     res_bind (validate_updates updates) (\<lambda>dimension.
       if \<not> is_fin beta \<or> fl_less beta (Fin 0) \<or> fl_le (Fin (1 / 2)) beta
         then Inl (ValueError ''trim ratio beta must satisfy 0 <= beta < 0.5'')
       else res_bind (py_floor (fl_mul binary64 beta (py_float (int (length updates))))) (\<lambda>trim_count.
         if 2 * nat trim_count \<ge> length updates then Inl (ValueError ''trim ratio removes every model update'')
         else Inr (along_dim0 (trimmed_mean_col (nat trim_count)) dimension updates)))"

definition max_element :: "fl list \<Rightarrow> fl" where
  "max_element xs = foldl (\<lambda>m x. if fl_less m x then x else m) (hd xs) (tl xs)"

definition native_median_col :: "native \<Rightarrow> fl list \<Rightarrow> fl" where
  "native_median_col X values =
     (let middle = length values div 2;
          values' = n_nth_element X middle values;
          upper = values' ! middle
      in if length values mod 2 \<noteq> 0 then upper
         else let lower = max_element (take middle values')
              in to_fmt binary32 (fl_mul binary64 (fl_add binary64 lower upper) (Fin (1 / 2))))"

definition median_aggregate :: "native \<Rightarrow> fl list list \<Rightarrow> fl list res" where
  "median_aggregate X updates =
     res_bind (validate_updates updates) (\<lambda>dimension. Inr (along_dim0 (native_median_col X) dimension updates))"

section \<open>The bindings\<close>

text \<open>
  An array arrives as float32, and the numbers \<open>f\<close>, \<open>k\<close> and \<open>beta\<close> as \<open>int\<close>, \<open>int\<close> and \<open>float\<close>: a Python
  int outside the range of \<open>int\<close> does not match the signature, a Python float is narrowed to float32.
\<close>

definition prepare_updates :: "tensor list \<Rightarrow> (fl list list \<times> nat list) res" where
  "prepare_updates updates =
     (case updates of
        [] \<Rightarrow> Inl (ValueError ''at least one model update is required'')
      | first # _ \<Rightarrow>
          if numel first \<le> 0 then Inl (ValueError ''model updates must not be empty'')
          else if list_ex (\<lambda>u. tshape u \<noteq> tshape first) updates
            then Inl (ValueError ''all model updates must have the same shape'')
          else Inr (map tdata updates, tshape first))"

definition c_int :: "int \<Rightarrow> int res" where
  "c_int i = (if - (2 ^ 31) \<le> i \<and> i < 2 ^ 31 then Inr i else Inl (TypeError ''incompatible function arguments''))"

definition krum_binding :: "native \<Rightarrow> tensor list \<Rightarrow> int \<Rightarrow> int \<Rightarrow> tensor res" where
  "krum_binding X updates f k =
     res_bind (c_int f) (\<lambda>f. res_bind (c_int k) (\<lambda>k.
       if f < 0 then Inl (ValueError ''Byzantine count f must be non-negative'')
       else if k \<le> 0 then Inl (ValueError ''candidate count k must be positive'')
       else res_bind (prepare_updates updates) (\<lambda>(views, shape).
         res_bind (krum_aggregate X views (nat f) (nat k)) (\<lambda>result. Inr (f32_tensor shape result)))))"

definition trimmed_mean_binding :: "tensor list \<Rightarrow> fl \<Rightarrow> tensor res" where
  "trimmed_mean_binding updates beta =
     res_bind (prepare_updates updates) (\<lambda>(views, shape).
       res_bind (trimmed_mean_aggregate views (to_fmt binary32 beta)) (\<lambda>result. Inr (f32_tensor shape result)))"

definition median_binding :: "native \<Rightarrow> tensor list \<Rightarrow> tensor res" where
  "median_binding X updates =
     res_bind (prepare_updates updates) (\<lambda>(views, shape).
       res_bind (median_aggregate X views) (\<lambda>result. Inr (f32_tensor shape result)))"


section \<open>Sorting and selection\<close>

lemma mset_insert_by: "mset (insert_by lt x ys) = add_mset x (mset ys)"
  by (induction ys) auto

lemma mset_sort_by [simp]: "mset (sort_by lt xs) = mset xs"
  by (induction xs) (simp_all add: sort_by_def mset_insert_by)

lemma set_sort_by [simp]: "set (sort_by lt xs) = set xs"
  by (rule mset_eq_setD) simp

text \<open>The comparator of a sort: a strict weak order on the elements.\<close>

definition strict_weak :: "('a \<Rightarrow> 'a \<Rightarrow> bool) \<Rightarrow> 'a set \<Rightarrow> bool" where
  "strict_weak lt A \<longleftrightarrow> (\<forall>a \<in> A. \<forall>b \<in> A. lt a b \<longrightarrow> \<not> lt b a) \<and>
     (\<forall>a \<in> A. \<forall>b \<in> A. \<forall>c \<in> A. \<not> lt b a \<longrightarrow> \<not> lt c b \<longrightarrow> \<not> lt c a)"

lemma strict_weakD:
  assumes "strict_weak lt A" "a \<in> A" "b \<in> A"
  shows "lt a b \<Longrightarrow> \<not> lt b a" "c \<in> A \<Longrightarrow> \<not> lt b a \<Longrightarrow> \<not> lt c b \<Longrightarrow> \<not> lt c a"
  using assms unfolding strict_weak_def by blast+

lemma strict_weak_mono: "strict_weak lt A \<Longrightarrow> B \<subseteq> A \<Longrightarrow> strict_weak lt B"
  unfolding strict_weak_def by blast

lemma sorted_insert_by:
  assumes "sorted_wrt (\<lambda>a b. \<not> lt b a) ys" "strict_weak lt (insert x (set ys))"
  shows "sorted_wrt (\<lambda>a b. \<not> lt b a) (insert_by lt x ys)"
  using assms
proof (induction ys)
  case (Cons y ys)
  have s: "set (insert_by lt x ys) = insert x (set ys)" using mset_insert_by [of lt x ys] mset_eq_setD [of _ "x # ys"] by simp
  note sw = strict_weakD [OF Cons.prems(2)]
  show ?case
  proof (cases "lt y x")
    case True
    have "sorted_wrt (\<lambda>a b. \<not> lt b a) (insert_by lt x ys)"
      using Cons.IH Cons.prems strict_weak_mono [OF Cons.prems(2), of "insert x (set ys)"] by auto
    then show ?thesis using True s Cons.prems(1) sw(1) [of y x] by simp
  next
    case False
    moreover have "\<not> lt z x" if "z \<in> set ys" for z
      using sw(2) [of x y z] Cons.prems(1) False that by simp
    ultimately show ?thesis using Cons.prems(1) by simp
  qed
qed simp

lemma sorted_sort_by: "strict_weak lt (set xs) \<Longrightarrow> sorted_wrt (\<lambda>a b. \<not> lt b a) (sort_by lt xs)"
proof (induction xs)
  case (Cons x xs)
  have eq: "sort_by lt (x # xs) = insert_by lt x (sort_by lt xs)" by (simp add: sort_by_def)
  have "strict_weak lt (set xs)" by (rule strict_weak_mono [OF Cons.prems]) auto
  from sorted_insert_by [OF Cons.IH [OF this]] Cons.prems show ?case unfolding eq by simp
qed (simp add: sort_by_def)

lemma partial_sort_least:
  assumes sw: "strict_weak lt (set xs)" and d: "distinct xs" and k: "k \<le> length xs"
  shows "distinct (partial_sort lt k xs)" "set (partial_sort lt k xs) \<subseteq> set xs" "length (partial_sort lt k xs) = k"
    "i \<in> set (partial_sort lt k xs) \<Longrightarrow> j \<in> set xs \<Longrightarrow> j \<notin> set (partial_sort lt k xs) \<Longrightarrow> \<not> lt j i"
proof -
  let ?s = "sort_by lt xs"
  have "distinct ?s" using d mset_eq_imp_distinct_iff [OF mset_sort_by] by blast
  then show "distinct (partial_sort lt k xs)" by (simp add: partial_sort_def)
  show "set (partial_sort lt k xs) \<subseteq> set xs" using set_take_subset [of k ?s] by (simp add: partial_sort_def)
  have "length ?s = length xs" by (rule mset_eq_length) simp
  then show "length (partial_sort lt k xs) = k" using k by (simp add: partial_sort_def)
  show "\<not> lt j i" if ij: "i \<in> set (partial_sort lt k xs)" "j \<in> set xs" "j \<notin> set (partial_sort lt k xs)"
  proof -
    have "set ?s = set (take k ?s) \<union> set (drop k ?s)" by (metis append_take_drop_id set_append)
    then have "j \<in> set (drop k ?s)" using ij by (auto simp: partial_sort_def)
    moreover have "sorted_wrt (\<lambda>a b. \<not> lt b a) (take k ?s @ drop k ?s)" using sorted_sort_by [OF sw] by simp
    ultimately show ?thesis using ij(1) unfolding sorted_wrt_append partial_sort_def by blast
  qed
qed

text \<open>Lists of floats without NaN are totally preordered.\<close>

lemma fl_le_iff_not_less: "x \<noteq> NaN \<Longrightarrow> y \<noteq> NaN \<Longrightarrow> fl_le x y \<longleftrightarrow> \<not> fl_less y x"
  by (cases x; cases y) (auto simp: fl_le.simps)

lemma fl_le_total: "x \<noteq> NaN \<Longrightarrow> y \<noteq> NaN \<Longrightarrow> fl_le x y \<or> fl_le y x"
  by (cases x; cases y) (auto simp: fl_le.simps)

lemma fl_le_antisym: "fl_le x y \<Longrightarrow> fl_le y x \<Longrightarrow> x = y"
  by (cases x; cases y) (auto simp: fl_le.simps)

lemma score_order_iff:
  assumes "scores ! i \<noteq> NaN" "scores ! j \<noteq> NaN"
  shows "\<not> score_order scores j i \<longleftrightarrow> fl_le (scores ! i) (scores ! j) \<and> (scores ! i = scores ! j \<longrightarrow> i \<le> j)"
  using assms by (cases "scores ! i"; cases "scores ! j") (auto simp: score_order_def fl_eq_def fl_le.simps)

lemma score_order_least:
  assumes n: "NaN \<notin> set scores" and k: "k \<le> length scores"
  shows "distinct (partial_sort (score_order scores) k [0..<length scores])"
    "set (partial_sort (score_order scores) k [0..<length scores]) \<subseteq> {..<length scores}"
    "length (partial_sort (score_order scores) k [0..<length scores]) = k"
    "i \<in> set (partial_sort (score_order scores) k [0..<length scores]) \<Longrightarrow> j < length scores \<Longrightarrow>
     j \<notin> set (partial_sort (score_order scores) k [0..<length scores]) \<Longrightarrow> fl_le (scores ! i) (scores ! j)"
proof -
  let ?p = "partial_sort (score_order scores) k [0..<length scores]"
  have nn: "scores ! i \<noteq> NaN" if "i < length scores" for i using n that by (metis nth_mem)
  note order = score_order_iff [OF nn nn]
  have "strict_weak (score_order scores) {..<length scores}"
    unfolding strict_weak_def
  proof (intro conjI ballI impI)
    fix a b assume ab: "a \<in> {..<length scores}" "b \<in> {..<length scores}" "score_order scores a b"
    have l: "a < length scores" "b < length scores" using ab by simp_all
    show "\<not> score_order scores b a"
      using ab(3) order [OF l] order [OF l(2,1)] fl_le_total [OF nn [OF l(1)] nn [OF l(2)]] by (metis nat_le_linear)
  next
    fix a b c assume abc: "a \<in> {..<length scores}" "b \<in> {..<length scores}" "c \<in> {..<length scores}"
      "\<not> score_order scores b a" "\<not> score_order scores c b"
    then have *: "fl_le (scores ! a) (scores ! b)" "scores ! a = scores ! b \<longrightarrow> a \<le> b"
      "fl_le (scores ! b) (scores ! c)" "scores ! b = scores ! c \<longrightarrow> b \<le> c"
      using order [of a b] order [of b c] unfolding lessThan_iff by blast+
    have "a \<le> c" if eq: "scores ! a = scores ! c"
    proof -
      have "scores ! a = scores ! b" using fl_le_antisym [OF *(1)] *(3) eq by simp
      then show ?thesis using *(2,4) eq by simp
    qed
    then show "\<not> score_order scores c a" using order [of a c] abc(1,3) fl_le_trans [OF *(1,3)] unfolding lessThan_iff by blast
  qed
  then have sw: "strict_weak (score_order scores) (set [0..<length scores])" by (simp add: atLeast0LessThan)
  have kl: "k \<le> length [0..<length scores]" using k by simp
  note least = partial_sort_least [OF sw distinct_upt kl]
  show "distinct ?p" "length ?p = k" by (rule least)+
  show sub: "set ?p \<subseteq> {..<length scores}" using least(2) by (simp add: atLeast0LessThan)
  show "fl_le (scores ! i) (scores ! j)" if ij: "i \<in> set ?p" "j < length scores" "j \<notin> set ?p"
  proof -
    have "i < length scores" using sub ij(1) by blast
    moreover have "\<not> score_order scores j i" by (rule least(4) [OF ij(1) _ ij(3)]) (use ij(2) in simp)
    ultimately show ?thesis using order [of i j] ij(2) by blast
  qed
qed


section \<open>Sums of non-negative doubles\<close>

text \<open>A double that is not negative and not NaN: where every distance and every score lies.\<close>

definition nonneg64 :: "fl \<Rightarrow> bool" where
  "nonneg64 x \<longleftrightarrow> x = PInf \<or> (\<exists>r. x = Fin r \<and> 0 \<le> r \<and> representable binary64 r)"

lemma nonneg64_zero [simp]: "nonneg64 (Fin 0)"
  by (simp add: nonneg64_def representable_zero)

lemma nonneg64_not_NaN: "nonneg64 x \<Longrightarrow> x \<noteq> NaN"
  by (auto simp: nonneg64_def)

lemma nonneg64_rnd: "0 \<le> x \<Longrightarrow> nonneg64 (rnd binary64 x)"
  using rnd_nonneg [of binary64 x] rnd_Fin_representable [of binary64 x]
  by (cases "rnd binary64 x") (auto simp: nonneg64_def)

lemma nonneg64_add:
  assumes "nonneg64 a" "nonneg64 b"
  shows "nonneg64 (fl_add binary64 a b) \<and> fl_le a (fl_add binary64 a b) \<and> fl_le b (fl_add binary64 a b)"
proof (cases "a = PInf \<or> b = PInf")
  case True
  then show ?thesis using assms by (auto simp: nonneg64_def)
next
  case False
  then obtain r s where "a = Fin r" "0 \<le> r" "representable binary64 r" "b = Fin s" "0 \<le> s" "representable binary64 s"
    using assms by (auto simp: nonneg64_def)
  then show ?thesis using rnd_ge [of binary64 r "r + s"] rnd_ge [of binary64 s "r + s"] nonneg64_rnd [of "r + s"] by simp
qed

lemma accumulate_nonneg:
  assumes "nonneg64 init" "\<forall>x \<in> set xs. nonneg64 x"
  shows "nonneg64 (accumulate xs init) \<and> fl_le init (accumulate xs init) \<and> (\<forall>x \<in> set xs. fl_le x (accumulate xs init))"
  using assms
proof (induction xs arbitrary: init)
  case Nil
  then show ?case by (auto simp: accumulate_def nonneg64_def)
next
  case (Cons x xs)
  have a: "nonneg64 (fl_add binary64 init x)" "fl_le init (fl_add binary64 init x)" "fl_le x (fl_add binary64 init x)"
    using nonneg64_add [of init x] Cons.prems by simp_all
  have "accumulate (x # xs) init = accumulate xs (fl_add binary64 init x)" by (simp add: accumulate_def)
  then show ?case using Cons.IH [OF a(1)] Cons.prems(2) a(2,3) fl_le_trans by auto
qed

lemma not_NaN_sub: "is_fin l \<Longrightarrow> is_fin r \<Longrightarrow> fl_sub F l r \<noteq> NaN"
  by (cases l; cases r) (auto simp: fl_sub_def rnd_not_NaN)

lemma nonneg64_square: "d \<noteq> NaN \<Longrightarrow> nonneg64 (fl_mul binary64 d d)"
  by (cases d) (auto simp: nonneg64_rnd, simp_all add: nonneg64_def)

lemma nonneg64_fma: "d \<noteq> NaN \<Longrightarrow> nonneg64 a \<Longrightarrow> nonneg64 (fl_fma binary64 d d a)"
  by (cases d; cases a) (auto simp: nonneg64_def intro!: nonneg64_rnd [unfolded nonneg64_def])

lemma distance_tail_nonneg:
  "nonneg64 a \<Longrightarrow> all_finite lhs \<Longrightarrow> all_finite rhs \<Longrightarrow> nonneg64 (distance_tail a lhs rhs)"
  by (induction a lhs rhs rule: distance_tail.induct)
    (auto simp: Let_def all_finite_def nonneg64_add nonneg64_square not_NaN_sub)

lemma lanes_loop_nonneg:
  assumes "list_all nonneg64 acc" "all_finite lhs" "all_finite rhs" "length acc = w" "length lhs = length rhs"
  shows "case lanes_loop F w acc lhs rhs of (lanes, l, r) \<Rightarrow>
    list_all nonneg64 lanes \<and> length lanes = w \<and> all_finite l \<and> all_finite r"
  using assms
proof (induction F w acc lhs rhs rule: lanes_loop.induct)
  case (1 F w acc lhs rhs)
  have sub: "all_finite (take w lhs)" "all_finite (take w rhs)" "all_finite (drop w lhs)" "all_finite (drop w rhs)"
    using 1(3,4) by (auto simp: all_finite_def list_all_iff dest: in_set_takeD in_set_dropD)
  have "fl_sub F (lhs ! i) (rhs ! i) \<noteq> NaN" if "i < length lhs" for i
    using 1(3,4,6) that by (intro not_NaN_sub) (simp_all add: all_finite_def list_all_length)
  then have "list_all nonneg64 (fma_lanes F acc (take w lhs) (take w rhs))"
    using 1(2) by (auto simp: fma_lanes_def Let_def list_all_iff set_zip intro!: nonneg64_fma)
  moreover have "length (fma_lanes F acc (take w lhs) (take w rhs)) = w" if "w \<le> length lhs"
    using that 1(5,6) by (simp add: fma_lanes_def)
  ultimately show ?case using 1 sub(3,4) by (subst lanes_loop.simps) auto
qed

text \<open>Whichever kernel the CPU selects, a distance between finite updates is a non-negative double.\<close>

lemma distance_nonneg:
  assumes "all_finite lhs" "all_finite rhs" "length lhs = length rhs"
  shows "nonneg64 (squared_euclidean_distance_simd X lhs rhs)"
proof -
  have s: "nonneg64 (squared_distance_scalar lhs rhs)"
    using distance_tail_nonneg [OF nonneg64_zero assms(1,2)] by (simp add: squared_distance_scalar_def)
  have v: "nonneg64 (squared_distance_avx512 lhs rhs)"
    using lanes_loop_nonneg [of "replicate 8 (Fin 0)" lhs rhs 8 binary64] assms
      accumulate_nonneg [OF nonneg64_zero] distance_tail_nonneg
    by (auto simp: squared_distance_avx512_def list_all_iff split: prod.splits)
  have n: "nonneg64 (squared_distance_neon lhs rhs)"
  proof -
    obtain lanes l r where e: "lanes_loop binary32 4 (replicate 4 (Fin 0)) lhs rhs = (lanes, l, r)"
      by (cases "lanes_loop binary32 4 (replicate 4 (Fin 0)) lhs rhs")
    have lr: "list_all nonneg64 lanes \<and> length lanes = 4 \<and> all_finite l \<and> all_finite r"
      using lanes_loop_nonneg [of "replicate 4 (Fin 0)" lhs rhs 4 binary32] assms e by (simp add: list_all_iff)
    then have "nonneg64 (accumulate (tl lanes) (hd lanes))"
      using lr accumulate_nonneg [of "hd lanes" "tl lanes"] by (cases lanes) (auto simp: list_all_iff)
    then show ?thesis using lr e distance_tail_nonneg by (simp add: squared_distance_neon_def)
  qed
  show ?thesis using s v n by (simp add: squared_euclidean_distance_simd_def resolve_dispatch_def)
qed

section \<open>Krum\<close>

lemma nth_element_okD:
  assumes "nth_element_ok X" "m < length xs" "NaN \<notin> set xs"
  shows "mset (n_nth_element X m xs) = mset xs"
    "i < m \<Longrightarrow> fl_le (n_nth_element X m xs ! i) (n_nth_element X m xs ! m)"
    "m < i \<Longrightarrow> i < length xs \<Longrightarrow> fl_le (n_nth_element X m xs ! m) (n_nth_element X m xs ! i)"
    "length (n_nth_element X m xs) = length xs"
  using assms mset_eq_length [of "n_nth_element X m xs" xs] by (simp_all add: nth_element_ok_def)

lemma mset_map_reorder:
  "mset ys = image_mset f (mset js) \<Longrightarrow> \<exists>ks. mset ks = mset js \<and> map f ks = ys"
proof (induction ys arbitrary: js)
  case (Cons y ys)
  then have "y \<in># image_mset f (mset js)" by (metis list.set_intros(1) set_mset_mset)
  then obtain j where j: "j \<in> set js" "y = f j" by auto
  then have e: "mset js = add_mset j (mset (remove1 j js))" by simp
  have "image_mset f (mset js) = add_mset y (image_mset f (mset (remove1 j js)))"
    by (subst e) (simp only: image_mset_add_mset j(2))
  then have "mset ys = image_mset f (mset (remove1 j js))" using Cons.prems by simp
  then obtain ks where "mset ks = mset (remove1 j js)" "map f ks = ys" using Cons.IH by blast
  then show ?case using j by (intro exI [of _ "j # ks"]) simp
qed simp

definition updates_ok :: "fl list list \<Rightarrow> bool" where
  "updates_ok updates \<longleftrightarrow> updates \<noteq> [] \<and> 0 < length (hd updates) \<and>
     (\<forall>u \<in> set updates. length u = length (hd updates) \<and> all_finite u)"

lemma validate_updates_Inr_iff:
  "validate_updates updates = Inr d \<longleftrightarrow> updates_ok updates \<and> d = length (hd updates)"
  by (cases updates)
    (auto simp: validate_updates_def updates_ok_def Let_def list_ex_iff all_finite_def list_all_iff)

lemma krum_distance_nonneg:
  assumes "updates_ok updates" "i < length updates" "j < length updates"
  shows "nonneg64 (krum_distances X updates ! i ! j)"
proof -
  have "all_finite (updates ! q) \<and> length (updates ! q) = length (hd updates)" if "q < length updates" for q
    using assms(1) nth_mem [OF that] unfolding updates_ok_def by blast
  then show ?thesis using assms(2,3) by (auto simp: krum_distances_def min_def max_def intro!: distance_nonneg)
qed

lemma nearest_of_props:
  assumes "updates_ok updates" "i < length updates"
  shows "length (nearest_of (krum_distances X updates) i) = length updates - 1"
    "\<forall>d \<in> set (nearest_of (krum_distances X updates) i). nonneg64 d"
proof -
  have "length (filter (\<lambda>j. i \<noteq> j) [0..<length updates]) = card ({..<length updates} - {i})"
    by (subst distinct_card [symmetric]) (auto intro: arg_cong [where f = card])
  then show "length (nearest_of (krum_distances X updates) i) = length updates - 1"
    using assms(2) by (simp add: nearest_of_def krum_distances_def)
  show "\<forall>d \<in> set (nearest_of (krum_distances X updates) i). nonneg64 d"
    using krum_distance_nonneg [OF assms] by (auto simp: nearest_of_def) (simp add: krum_distances_def)
qed

lemma length_native_scores [simp]: "length (native_scores X updates nb) = length updates"
  by (simp add: native_scores_def Let_def)

text \<open>
  The score adds up distances to \<open>nb\<close> different clients, whichever order \<open>std::nth_element\<close> leaves them in.
\<close>

lemma native_score_neighbours:
  assumes X: "nth_element_ok X" and u: "updates_ok updates" and i: "i < length updates" and nb: "nb < length updates - 1"
  shows "nonneg64 (native_scores X updates nb ! i)"
    "\<exists>N. N \<subseteq> {..<length updates} - {i} \<and> card N = nb \<and>
       (\<forall>h \<in> N. fl_le (krum_distances X updates ! i ! h) (native_scores X updates nb ! i))"
proof -
  let ?d = "\<lambda>j. krum_distances X updates ! i ! j" and ?near = "nearest_of (krum_distances X updates) i"
  let ?ys = "n_nth_element X nb ?near"
  note near = nearest_of_props [OF u i, of X]
  have m: "mset ?ys = mset ?near" "length ?ys = length updates - 1"
    using nth_element_okD [OF X, of nb ?near] near nb nonneg64_not_NaN by fastforce+
  then have "mset ?ys = image_mset ?d (mset (filter (\<lambda>j. i \<noteq> j) [0..<length updates]))"
    by (simp add: nearest_of_def krum_distances_def)
  then obtain ks where ks: "mset ks = mset (filter (\<lambda>j. i \<noteq> j) [0..<length updates])" "map ?d ks = ?ys"
    using mset_map_reorder by blast
  have "distinct ks" using mset_eq_imp_distinct_iff [OF ks(1)] by simp
  moreover have "length ks = length updates - 1" using ks(2) m(2) by (metis length_map)
  ultimately have c: "card (set (take nb ks)) = nb" using nb by (simp add: distinct_card)
  have sub: "set (take nb ks) \<subseteq> {..<length updates} - {i}"
    using mset_eq_setD [OF ks(1)] set_take_subset [of nb ks] by auto
  have sc: "native_scores X updates nb ! i = accumulate (take nb ?ys) (Fin 0)" using i by (simp add: native_scores_def Let_def)
  have "\<forall>x \<in> set (take nb ?ys). nonneg64 x" using near(2) mset_eq_setD [OF m(1)] set_take_subset [of nb ?ys] by blast
  note acc = accumulate_nonneg [OF nonneg64_zero this]
  then show "nonneg64 (native_scores X updates nb ! i)" using sc by simp
  have "fl_le (?d h) (native_scores X updates nb ! i)" if "h \<in> set (take nb ks)" for h
  proof -
    have "?d h \<in> set (take nb ?ys)" using that by (simp add: ks(2) [symmetric] take_map)
    then show ?thesis using acc sc by simp
  qed
  then show "\<exists>N. N \<subseteq> {..<length updates} - {i} \<and> card N = nb \<and>
       (\<forall>h \<in> N. fl_le (?d h) (native_scores X updates nb ! i))" using c sub by blast
qed

type_synonym native_krum = "native \<times> fl list list \<times> nat \<times> nat"

definition native_krum_ok :: "native_krum \<Rightarrow> bool" where
  "native_krum_ok p = (case p of (X, updates, f, k) \<Rightarrow>
     nth_element_ok X \<and> updates_ok updates \<and> 2 * f + 3 \<le> length updates \<and> 0 < k \<and> k \<le> length updates - f - 2)"

interpretation native_krum: krum_scheme "\<lambda>(X, updates, f, k). length updates" "\<lambda>(X, updates, f, k). f"
  "\<lambda>(X, updates, f, k) i h. krum_distances X updates ! i ! h"
  "\<lambda>(X, updates, f, k) i. native_scores X updates (length updates - f - 2) ! i"
  "\<lambda>(X, updates, f, k). native_select X updates f k" native_krum_ok
proof unfold_locales
  fix p :: native_krum and i
  assume ok: "native_krum_ok p"
  obtain X updates f k where p: "p = (X, updates, f, k)" by (cases p)
  let ?n = "length updates" and ?sc = "native_scores X updates (length updates - f - 2)"
  have h: "nth_element_ok X" "updates_ok updates" "2 * f + 3 \<le> ?n" "k \<le> ?n - f - 2" "?n - f - 2 < ?n - 1"
    using ok unfolding p native_krum_ok_def by auto
  note nbs = native_score_neighbours [OF h(1,2) _ h(5)]
  show "2 * (case p of (X, updates, f, k) \<Rightarrow> f) + 3 \<le> (case p of (X, updates, f, k) \<Rightarrow> length updates)" using h p by simp
  show "\<exists>N. N \<subseteq> {..<case p of (X, updates, f, k) \<Rightarrow> length updates} - {i} \<and>
      card N = (case p of (X, updates, f, k) \<Rightarrow> length updates) - (case p of (X, updates, f, k) \<Rightarrow> f) - 2 \<and>
      (\<forall>h \<in> N. fl_le ((case p of (X, updates, f, k) \<Rightarrow> \<lambda>i h. krum_distances X updates ! i ! h) i h)
        ((case p of (X, updates, f, k) \<Rightarrow> \<lambda>i. native_scores X updates (length updates - f - 2) ! i) i))"
    if "i < (case p of (X, updates, f, k) \<Rightarrow> length updates)"
    using nbs(2) [of i] that unfolding p by simp
  have "NaN \<notin> set ?sc" using nbs(1) nonneg64_not_NaN by (metis in_set_conv_nth length_native_scores)
  note least = score_order_least [OF this, of k]
  have kn: "k \<le> length ?sc" using h by simp
  have "distinct (native_select X updates f k) \<and> set (native_select X updates f k) \<subseteq> {..<?n} \<and>
      length (native_select X updates f k) = k \<and>
      (\<forall>i \<in> set (native_select X updates f k). \<forall>j \<in> {..<?n} - set (native_select X updates f k). fl_le (?sc ! i) (?sc ! j))"
    using least(1-3) [OF kn] least(4) [OF kn] unfolding native_select_def by simp
  then show "distinct (case p of (X, updates, f, k) \<Rightarrow> native_select X updates f k) \<and>
      set (case p of (X, updates, f, k) \<Rightarrow> native_select X updates f k) \<subseteq> {..<case p of (X, updates, f, k) \<Rightarrow> length updates} \<and>
      length (case p of (X, updates, f, k) \<Rightarrow> native_select X updates f k) \<le>
        (case p of (X, updates, f, k) \<Rightarrow> length updates) - (case p of (X, updates, f, k) \<Rightarrow> f) - 2 \<and>
      (\<forall>i \<in> set (case p of (X, updates, f, k) \<Rightarrow> native_select X updates f k).
        \<forall>j \<in> {..<case p of (X, updates, f, k) \<Rightarrow> length updates} - set (case p of (X, updates, f, k) \<Rightarrow> native_select X updates f k).
          fl_le ((case p of (X, updates, f, k) \<Rightarrow> \<lambda>i. native_scores X updates (length updates - f - 2) ! i) i)
            ((case p of (X, updates, f, k) \<Rightarrow> \<lambda>i. native_scores X updates (length updates - f - 2) ! i) j))"
    using h unfolding p by simp
qed


section \<open>Column rules\<close>

text \<open>A sum of up to \<open>2 ^ 29\<close> floats in a double keeps to the multiples of any float bounds.\<close>

lemma representable64_multiple:
  assumes z: "representable binary32 z" and n: "n \<le> 2 ^ 29"
  shows "representable binary64 (real n * z)"
proof -
  obtain m e where m: "z = of_int m * 2 powi e" "\<bar>m\<bar> < 2 ^ 24" "- 149 \<le> e" "e \<le> 104"
    using z by (auto simp: representable_def binary32_def)
  have "int n * \<bar>m\<bar> \<le> 2 ^ 29 * \<bar>m\<bar>" using n by (intro mult_right_mono) auto
  then have "\<bar>int n * m\<bar> < 2 ^ 53" using m(2) by (simp add: abs_mult)
  then have "representable binary64 (of_int (int n * m) * 2 powi e)"
    using m by (intro representable_dyadic) (simp_all add: binary64_def)
  then show ?thesis using m(1) by (simp add: mult.assoc)
qed

lemma representable32_64: "representable binary32 z \<Longrightarrow> representable binary64 z"
  using representable64_multiple [of z 1] by simp

lemma accumulate_between:
  assumes "\<forall>x \<in> set xs. is_fin x \<and> lo \<le> val x \<and> val x \<le> hi" "j + length xs \<le> 2 ^ 29"
    "representable binary32 lo" "representable binary32 hi" "real j * lo \<le> s" "s \<le> real j * hi"
  shows "\<exists>t. accumulate xs (Fin s) = Fin t \<and> real (j + length xs) * lo \<le> t \<and> t \<le> real (j + length xs) * hi"
  using assms(1,2,5,6)
proof (induction xs arbitrary: j s)
  case (Cons x xs)
  obtain v where v: "x = Fin v" "lo \<le> v" "v \<le> hi" using Cons.prems(1) by (auto simp: is_fin_iff)
  have "Suc j \<le> 2 ^ 29" using Cons.prems(2) by simp
  note rep = representable64_multiple [OF assms(3) this] representable64_multiple [OF assms(4) this]
  obtain t where t: "rnd binary64 (s + v) = Fin t" "real (Suc j) * lo \<le> t" "t \<le> real (Suc j) * hi"
    using rnd_between [OF fmt_ok_binary(1) rep, of "s + v"] v Cons.prems(3,4) by (auto simp: algebra_simps)
  have "accumulate (x # xs) (Fin s) = accumulate xs (Fin t)" using v t by (simp add: accumulate_def)
  then show ?case using Cons.IH [of "Suc j" t] Cons.prems(1,2) t by simp
qed (simp add: accumulate_def)

lemma rnd32_between:
  assumes "representable binary32 lo" "representable binary32 hi" "lo \<le> x" "x \<le> hi"
  shows "\<exists>y. to_fmt binary32 (rnd binary64 x) = Fin y \<and> lo \<le> y \<and> y \<le> hi"
proof -
  obtain z where z: "rnd binary64 x = Fin z" "lo \<le> z" "z \<le> hi"
    using rnd_between [OF fmt_ok_binary(1) representable32_64 representable32_64] assms by metis
  then show ?thesis using rnd_between [OF fmt_ok_binary(2) assms(1,2), of z] by auto
qed

lemma float_mean_between:
  assumes x: "\<forall>x \<in> set xs. is_fin x \<and> lo \<le> val x \<and> val x \<le> hi" and ne: "xs \<noteq> []" "length xs \<le> 2 ^ 29"
    and rep: "representable binary32 lo" "representable binary32 hi"
  shows "\<exists>y. float_mean xs = Fin y \<and> lo \<le> y \<and> y \<le> hi"
proof -
  obtain t where t: "accumulate xs (Fin 0) = Fin t" "real (length xs) * lo \<le> t" "t \<le> real (length xs) * hi"
    using accumulate_between [OF x, of 0 0] ne(2) rep by auto
  have n: "0 < real (length xs)" using ne by simp
  have "fl_div binary64 (Fin t) (py_float (int (length xs))) = rnd binary64 (t / real (length xs))"
    using ne by (simp add: py_float_small)
  then show ?thesis using rnd32_between [OF rep, of "t / real (length xs)"] t n
    by (simp add: float_mean_def pos_le_divide_eq pos_divide_le_eq mult.commute)
qed

lemma fin_sort_middle:
  assumes "all_finite xs" "length (filter (\<lambda>x. \<not> (lo \<le> val x \<and> val x \<le> hi)) xs) \<le> b" "b \<le> i" "i < length xs - b"
  shows "lo \<le> val (fin_sort xs ! i) \<and> val (fin_sort xs ! i) \<le> hi \<and> is_fin (fin_sort xs ! i)"
  using t_sort_middle [OF sort_ok_exact assms] by (simp add: torch_exact_def)

lemma trimmed_mean_col_hull:
  assumes t: "2 * trim < length xs" "length xs \<le> 2 ^ 29" and f: "all_finite xs"
    and b: "length (filter (\<lambda>x. \<not> (lo \<le> val x \<and> val x \<le> hi)) xs) \<le> trim"
    and rep: "representable binary32 lo" "representable binary32 hi"
  shows "is_fin (trimmed_mean_col trim xs) \<and> lo \<le> val (trimmed_mean_col trim xs) \<and> val (trimmed_mean_col trim xs) \<le> hi"
proof -
  let ?sel = "take (length xs - 2 * trim) (drop trim (fin_sort xs))"
  have len: "length (fin_sort xs) = length xs" by (simp add: fin_sort_def vals_def)
  then have sl: "length ?sel = length xs - 2 * trim" using t(1) by simp
  have mem: "\<forall>x \<in> set ?sel. is_fin x \<and> lo \<le> val x \<and> val x \<le> hi"
  proof
    fix x assume "x \<in> set ?sel"
    then obtain i where i: "i < length ?sel" "x = ?sel ! i" by (metis in_set_conv_nth)
    then have "x = fin_sort xs ! (trim + i)" using sl len by simp
    moreover have "trim + i < length xs - trim" using i(1) [unfolded sl] t(1) by linarith
    ultimately show "is_fin x \<and> lo \<le> val x \<and> val x \<le> hi" using fin_sort_middle [OF f b, of "trim + i"] by simp
  qed
  have "?sel \<noteq> []" using sl t(1) by (metis list.size(3) zero_less_diff less_irrefl)
  moreover have "length ?sel \<le> 2 ^ 29" using sl t(2) by linarith
  ultimately obtain y where "float_mean ?sel = Fin y" "lo \<le> y" "y \<le> hi" using float_mean_between [OF mem _ _ rep] by blast
  then show ?thesis by (simp add: trimmed_mean_col_def)
qed

interpretation native_trimmed: hull_rule trimmed_mean_col "\<lambda>trim. True" "\<lambda>trim n. 2 * trim < n \<and> n \<le> 2 ^ 29"
  "\<lambda>trim n. trim" "\<lambda>trim. 2 powi 128" "\<lambda>trim. 0"
  by unfold_locales (use trimmed_mean_col_hull in simp)

text \<open>\<open>std::nth_element\<close> puts the order statistic in place, and the largest element before it is the one below.\<close>

lemma max_element_eq:
  assumes "xs \<noteq> []" "all_finite xs"
  shows "max_element xs = Fin (Max (set (vals xs)))"
proof -
  have fold: "foldl (\<lambda>m x. if fl_less m x then x else m) (Fin a) (map Fin vs) = Fin (foldl max a vs)" for a vs
    by (induction vs arbitrary: a) (auto simp: max_def)
  obtain v vs where vs: "vals xs = v # vs" using assms(1) by (cases xs) (auto simp: vals_def)
  then have "xs = Fin v # map Fin vs" using map_Fin_vals [OF assms(2)] by simp
  moreover have "foldl max v vs = Max (set (v # vs))"
    unfolding Max.set_eq_fold foldl_conv_fold by (simp add: max.commute)
  ultimately show ?thesis using vs fold by (simp add: max_element_def)
qed

lemma sort_split:
  fixes vs :: "real list"
  assumes "m < length vs" "\<And>i. i < m \<Longrightarrow> vs ! i \<le> vs ! m" "\<And>i. m < i \<Longrightarrow> i < length vs \<Longrightarrow> vs ! m \<le> vs ! i"
  shows "sort vs = sort (take m vs) @ vs ! m # sort (drop (Suc m) vs)"
proof (rule properties_for_sort)
  show "mset (sort (take m vs) @ vs ! m # sort (drop (Suc m) vs)) = mset vs"
    by (subst (4) id_take_nth_drop [OF assms(1)]) simp
  have lo: "x \<le> vs ! m" if "x \<in> set (take m vs)" for x
    using that assms(1,2) by (auto simp: in_set_conv_nth)
  moreover have "vs ! m \<le> x" if "x \<in> set (drop (Suc m) vs)" for x
    using that assms(3) by (auto simp: in_set_conv_nth)
  ultimately show "sorted (sort (take m vs) @ vs ! m # sort (drop (Suc m) vs))"
    by (auto simp: sorted_append) (meson order_trans)
qed


lemma nth_element_sorted:
  assumes X: "nth_element_ok X" and m: "m < length xs" and f: "all_finite xs"
  shows "n_nth_element X m xs ! m = fin_sort xs ! m"
    "0 < m \<Longrightarrow> max_element (take m (n_nth_element X m xs)) = fin_sort xs ! (m - 1)"
proof -
  let ?ys = "n_nth_element X m xs"
  have "NaN \<notin> set xs" using f by (auto simp: all_finite_def list_all_iff)
  note nth = nth_element_okD [OF X m this]
  have fin: "all_finite ?ys" using f mset_eq_setD [OF nth(1)] by (simp add: all_finite_def list_all_iff)
  define vs where "vs = vals ?ys"
  have ys: "?ys = map Fin vs" "length vs = length xs" using map_Fin_vals [OF fin] nth(4) by (simp_all add: vs_def vals_def)
  have "sort vs = sort (take m vs) @ vs ! m # sort (drop (Suc m) vs)"
    using m nth(2,3) ys by (intro sort_split) simp_all
  moreover have "sort (vals xs) = sort vs" using nth(1) unfolding vs_def vals_def
    by (intro properties_for_sort) (metis mset_map mset_sort, simp)
  ultimately have s: "fin_sort xs = map Fin (sort (take m vs) @ vs ! m # sort (drop (Suc m) vs))" by (simp add: fin_sort_def)
  show "?ys ! m = fin_sort xs ! m" using m ys by (simp add: s nth_append)
  assume "0 < m"
  then have ne: "take m vs \<noteq> []" using m ys(2) by auto
  have "max_element (take m ?ys) = Fin (Max (set (take m vs)))"
    using max_element_eq [of "take m ?ys"] ne ys(1) by (simp add: all_finite_def list_all_iff vals_def take_map comp_def)
  also have "Max (set (take m vs)) = sort (take m vs) ! (m - 1)"
  proof (rule Max_eqI)
    have l: "length (sort (take m vs)) = m" using m ys(2) by simp
    show "y \<le> sort (take m vs) ! (m - 1)" if y: "y \<in> set (take m vs)" for y
    proof -
      obtain i where "i < m" "y = sort (take m vs) ! i" using y l by (metis in_set_conv_nth set_sort)
      then show ?thesis using sorted_nth_mono [of "sort (take m vs)" i "m - 1"] l by simp
    qed
    show "sort (take m vs) ! (m - 1) \<in> set (take m vs)"
      using nth_mem [of "m - 1" "sort (take m vs)"] l \<open>0 < m\<close> by simp
  qed simp
  also have "Fin \<dots> = fin_sort xs ! (m - 1)" using m ys(2) \<open>0 < m\<close> by (simp add: s nth_append)
  finally show "max_element (take m ?ys) = fin_sort xs ! (m - 1)" .
qed


text \<open>The median of the extension, by order statistics.\<close>

lemma native_median_col_eq:
  assumes "nth_element_ok X" "xs \<noteq> []" "all_finite xs"
  shows "native_median_col X xs =
    (let middle = length xs div 2 in
     if length xs mod 2 \<noteq> 0 then fin_sort xs ! middle
     else to_fmt binary32 (fl_mul binary64 (fl_add binary64 (fin_sort xs ! (middle - 1)) (fin_sort xs ! middle)) (Fin (1 / 2))))"
proof -
  have m: "length xs div 2 < length xs" using assms(2) by simp
  have "0 < length xs div 2" if "length xs mod 2 = 0" using assms(2) that by (cases xs) auto
  then show ?thesis using nth_element_sorted [OF assms(1) m assms(3)] by (simp add: native_median_col_def Let_def)
qed

lemma native_midpoint_between:
  assumes rep: "representable binary32 lo" "representable binary32 hi" and a: "lo \<le> a" "a \<le> hi" and b: "lo \<le> b" "b \<le> hi"
  shows "\<exists>y. to_fmt binary32 (fl_mul binary64 (fl_add binary64 (Fin a) (Fin b)) (Fin (1 / 2))) = Fin y \<and> lo \<le> y \<and> y \<le> hi"
proof -
  obtain s where s: "rnd binary64 (a + b) = Fin s" "2 * lo \<le> s" "s \<le> 2 * hi"
    using rnd_between [OF fmt_ok_binary(1) representable64_multiple [OF rep(1), of 2] representable64_multiple [OF rep(2), of 2], of "a + b"]
      a b by auto
  then show ?thesis using rnd32_between [OF rep, of "s * (1 / 2)"] by simp
qed

lemma native_median_col_hull:
  assumes X: "nth_element_ok X" and n: "0 < length xs" and f: "all_finite xs"
    and b: "length (filter (\<lambda>x. \<not> (lo \<le> val x \<and> val x \<le> hi)) xs) \<le> (length xs - 1) div 2"
    and rep: "representable binary32 lo" "representable binary32 hi"
  shows "is_fin (native_median_col X xs) \<and> lo \<le> val (native_median_col X xs) \<and> val (native_median_col X xs) \<le> hi"
proof -
  have eq: "native_median_col X xs =
    (if length xs mod 2 \<noteq> 0 then fin_sort xs ! (length xs div 2)
     else to_fmt binary32 (fl_mul binary64 (fl_add binary64 (fin_sort xs ! (length xs div 2 - 1)) (fin_sort xs ! (length xs div 2))) (Fin (1 / 2))))"
    using native_median_col_eq [OF X _ f] n by (simp add: Let_def)
  note mid = fin_sort_middle [OF f b]
  show ?thesis
  proof (cases "length xs mod 2 = 0")
    case False
    then have "length xs = 2 * (length xs div 2) + 1" by presburger
    then show ?thesis using mid [of "length xs div 2"] False eq by simp
  next
    case True
    define k where "k = length xs div 2"
    have k: "length xs = 2 * k" "0 < k" using True n unfolding k_def by presburger+
    have "(length xs - 1) div 2 = k - 1" using k by simp
    then have a: "lo \<le> val (fin_sort xs ! (k - 1)) \<and> val (fin_sort xs ! (k - 1)) \<le> hi \<and> is_fin (fin_sort xs ! (k - 1))"
      "lo \<le> val (fin_sort xs ! k) \<and> val (fin_sort xs ! k) \<le> hi \<and> is_fin (fin_sort xs ! k)"
      using k by (auto intro!: mid)
    then obtain y where "to_fmt binary32 (fl_mul binary64 (fl_add binary64 (Fin (val (fin_sort xs ! (k - 1)))) (Fin (val (fin_sort xs ! k)))) (Fin (1 / 2))) = Fin y"
        "lo \<le> y" "y \<le> hi"
      using native_midpoint_between [OF rep] by blast
    then show ?thesis using a True eq unfolding k_def [symmetric] is_fin_iff by simp
  qed
qed

interpretation native_median: hull_rule native_median_col nth_element_ok "\<lambda>X n. 0 < n" "\<lambda>X n. (n - 1) div 2"
  "\<lambda>X. 2 powi 128" "\<lambda>X. 0"
  by unfold_locales (use native_median_col_hull in simp)

end
