(* ===== verification/Native_Aggregators.thy ===== *)
theory Native_Aggregators
  imports Native_Core
begin

text \<open>
  The PyTorch wrappers of \<open>fl/zerotrust_fl/aggregators/native_cpp.py\<close> over the C++ extension: input checks,
  conversion to float32 host arrays, dispatch on the method and conversion of the result. The launchers of
  \<open>cpp/src/cuda_aggregation.cu\<close> are modelled with their checks; the two parallel kernels whose summation order
  the GPU decides are fields of the record \<open>cuda\<close>.
\<close>

section \<open>The module as imported\<close>

record native_module =
  nm_core :: native
  nm_cuda_enabled :: bool
  nm_cuda_trimmed_mean_max_clients :: int

text \<open>\<open>_native\<close> (\<open>None\<close> after an \<open>ImportError\<close>) and \<open>torch.cuda.is_available()\<close>.\<close>

record runtime =
  rt_native :: "native_module option"
  rt_cuda_available :: bool

definition native_extension_available :: "runtime \<Rightarrow> bool" where
  "native_extension_available R = (rt_native R \<noteq> None)"

definition cuda_extension_available :: "runtime \<Rightarrow> bool" where
  "cuda_extension_available R =
     (case rt_native R of None \<Rightarrow> False | Some m \<Rightarrow> nm_cuda_enabled m \<and> rt_cuda_available R)"

section \<open>CPU aggregator\<close>

record CppByzantineAggregator =
  ca_native :: native_module
  ca_preserve_device :: bool
  ca_preserve_dtype :: bool
  ca_non_blocking_transfers :: bool

definition CppByzantineAggregator_init :: "runtime \<Rightarrow> bool \<Rightarrow> bool \<Rightarrow> bool \<Rightarrow> CppByzantineAggregator res" where
  "CppByzantineAggregator_init R preserve_device preserve_dtype non_blocking_transfers =
     (case rt_native R of
        None \<Rightarrow> Inl (RuntimeError ''zerotrust_fl_cpp is not installed'')
      | Some m \<Rightarrow> Inr \<lparr>ca_native = m, ca_preserve_device = preserve_device, ca_preserve_dtype = preserve_dtype,
                       ca_non_blocking_transfers = non_blocking_transfers\<rparr>)"

definition openmp_enabled :: "CppByzantineAggregator \<Rightarrow> bool" where
  "openmp_enabled A = n_openmp (nm_core (ca_native A))"

definition simd_backend :: "CppByzantineAggregator \<Rightarrow> string" where
  "simd_backend A = active_simd_backend (nm_core (ca_native A))"

text \<open>\<open>device.type\<close> of a device such as \<open>cuda:0\<close>.\<close>

definition device_type :: "string \<Rightarrow> string" where
  "device_type d = takeWhile (\<lambda>c. c \<noteq> CHR '':'') d"

text \<open>Both branches on the device convert to float32 in host memory and make the buffer contiguous.\<close>

definition host_array :: "tensor \<Rightarrow> tensor" where
  "host_array t = (cpu_float t)\<lparr>tcontiguous := True\<rparr>"

fun numpy_loop :: "nat list \<Rightarrow> pyobj list \<Rightarrow> tensor list res" where
  "numpy_loop expected_shape [] = Inr []"
| "numpy_loop expected_shape (PyOther # rest) = Inl (TypeError ''update is not a torch.Tensor'')"
| "numpy_loop expected_shape (PyTensor t # rest) =
     (if \<not> is_floating_point t then Inl (TypeError ''update must use a floating-point dtype'')
      else if tshape t \<noteq> expected_shape then Inl (ValueError ''all model updates must have the same shape'')
      else res_bind (numpy_loop expected_shape rest) (\<lambda>arrays. Inr (host_array t # arrays)))"

definition to_numpy_updates :: "pyobj list \<Rightarrow> (tensor list \<times> tensor) res" where
  "to_numpy_updates updates =
     (case updates of
        [] \<Rightarrow> Inl (ValueError ''at least one model update is required'')
      | PyOther # _ \<Rightarrow> Inl (TypeError ''model updates must be torch.Tensor instances'')
      | PyTensor reference # _ \<Rightarrow>
          if \<not> is_floating_point reference then Inl (TypeError ''model updates must use a floating-point dtype'')
          else res_bind (numpy_loop (tshape reference) updates) (\<lambda>arrays. Inr (arrays, reference)))"

definition to_torch_result :: "CppByzantineAggregator \<Rightarrow> tensor \<Rightarrow> tensor \<Rightarrow> tensor" where
  "to_torch_result A result reference =
     (let output = (if ca_preserve_dtype A \<and> tdtype result \<noteq> tdtype reference
                    then result\<lparr>tdata := map (to_fmt (fmt_of (tdtype reference))) (tdata result), tdtype := tdtype reference\<rparr>
                    else result)
      in if ca_preserve_device A \<and> device_type (tdevice reference) \<noteq> ''cpu''
         then output\<lparr>tdevice := tdevice reference\<rparr> else output)"

definition cpp_krum :: "CppByzantineAggregator \<Rightarrow> pyobj list \<Rightarrow> int \<Rightarrow> int \<Rightarrow> tensor res" where
  "cpp_krum A updates f k =
     res_bind (to_numpy_updates updates) (\<lambda>(arrays, reference).
       res_bind (krum_binding (nm_core (ca_native A)) arrays f k) (\<lambda>result. Inr (to_torch_result A result reference)))"

definition cpp_trimmed_mean :: "CppByzantineAggregator \<Rightarrow> pyobj list \<Rightarrow> fl \<Rightarrow> tensor res" where
  "cpp_trimmed_mean A updates beta =
     res_bind (to_numpy_updates updates) (\<lambda>(arrays, reference).
       res_bind (trimmed_mean_binding arrays beta) (\<lambda>result. Inr (to_torch_result A result reference)))"

definition cpp_median :: "CppByzantineAggregator \<Rightarrow> pyobj list \<Rightarrow> tensor res" where
  "cpp_median A updates =
     res_bind (to_numpy_updates updates) (\<lambda>(arrays, reference).
       res_bind (median_binding (nm_core (ca_native A)) arrays) (\<lambda>result. Inr (to_torch_result A result reference)))"

definition cpp_aggregate :: "CppByzantineAggregator \<Rightarrow> pyobj list \<Rightarrow> string \<Rightarrow> int \<Rightarrow> int \<Rightarrow> fl \<Rightarrow> tensor res" where
  "cpp_aggregate A updates method f k beta =
     (if method = ''krum'' then cpp_krum A updates f 1
      else if method = ''multi_krum'' then cpp_krum A updates f k
      else if method = ''trimmed_mean'' then cpp_trimmed_mean A updates beta
      else if method = ''median'' then cpp_median A updates
      else Inl (ValueError ''unsupported aggregation method''))"

section \<open>CUDA aggregator\<close>

text \<open>The kernels reached through the device: the distance matrix and the trimmed mean by trim count.\<close>

record cuda =
  c_pairwise_distance_kernel :: "fl list list \<Rightarrow> fl list list"
  c_trimmed_mean_kernel :: "fl list list \<Rightarrow> nat \<Rightarrow> fl list"
  c_runtime_version :: "int res"

definition launch_pairwise_distances :: "cuda \<Rightarrow> fl list list \<Rightarrow> nat \<Rightarrow> fl list list res" where
  "launch_pairwise_distances C rows dimension =
     (if rows = [] \<or> dimension = 0 then Inl (ValueError ''CUDA aggregation requires non-empty updates'')
      else Inr (c_pairwise_distance_kernel C rows))"

definition launch_average_selected :: "fl list list \<Rightarrow> nat list \<Rightarrow> nat \<Rightarrow> fl list res" where
  "launch_average_selected rows selected dimension =
     (if selected = [] \<or> dimension = 0 then Inl (ValueError ''CUDA selected-average requires non-empty input'')
      else Inr (along_dim0 float_mean dimension (map (\<lambda>i. rows ! i) selected)))"

definition launch_trimmed_mean :: "cuda \<Rightarrow> fl list list \<Rightarrow> nat \<Rightarrow> fl \<Rightarrow> fl list res" where
  "launch_trimmed_mean C rows dimension beta =
     (if rows = [] \<or> dimension = 0 then Inl (ValueError ''CUDA aggregation requires non-empty updates'')
      else if \<not> is_fin beta \<or> fl_less beta (Fin 0) \<or> fl_le (Fin (1 / 2)) beta
        then Inl (ValueError ''trim ratio beta must satisfy 0 <= beta < 0.5'')
      else if length rows > 1024 then Inl (ValueError ''CUDA trimmed mean supports at most 1024 clients'')
      else res_bind (py_floor (fl_mul binary64 beta (py_float (int (length rows))))) (\<lambda>trim_count.
        if 2 * nat trim_count \<ge> length rows then Inl (ValueError ''trim ratio removes every model update'')
        else Inr (c_trimmed_mean_kernel C rows (nat trim_count))))"

record CudaByzantineAggregator =
  cu_native :: native_module
  cu_validate_finite :: bool

definition CudaByzantineAggregator_init :: "runtime \<Rightarrow> bool \<Rightarrow> CudaByzantineAggregator res" where
  "CudaByzantineAggregator_init R validate_finite =
     (case rt_native R of
        None \<Rightarrow> Inl (RuntimeError ''zerotrust_fl_cpp is not installed'')
      | Some m \<Rightarrow>
          if \<not> nm_cuda_enabled m then Inl (RuntimeError ''zerotrust_fl_cpp was built without CUDA'')
          else if \<not> rt_cuda_available R then Inl (RuntimeError ''CUDA aggregation requires an available CUDA device'')
          else Inr \<lparr>cu_native = m, cu_validate_finite = validate_finite\<rparr>)"

definition runtime_version :: "cuda \<Rightarrow> int res" where
  "runtime_version C = c_runtime_version C"

record CudaPreparedUpdates =
  cp_updates :: "tensor list"
  cp_reference :: tensor
  cp_dimension :: nat

fun cuda_prepare_loop :: "bool \<Rightarrow> tensor \<Rightarrow> pyobj list \<Rightarrow> tensor list res" where
  "cuda_prepare_loop validate reference [] = Inr []"
| "cuda_prepare_loop validate reference (PyOther # rest) = Inl (TypeError ''update is not a torch.Tensor'')"
| "cuda_prepare_loop validate reference (PyTensor t # rest) =
     (if tdevice t \<noteq> tdevice reference then Inl (ValueError ''all CUDA model updates must be on the same device'')
      else if tdtype t \<noteq> Float32 then Inl (TypeError ''zero-copy CUDA aggregation requires torch.float32 tensors'')
      else if tshape t \<noteq> tshape reference then Inl (ValueError ''all model updates must have the same shape'')
      else if \<not> tcontiguous t then Inl (ValueError ''zero-copy CUDA aggregation requires contiguous tensors'')
      else if validate \<and> \<not> all_finite (tdata t) then Inl (ValueError ''model updates must contain only finite values'')
      else res_bind (cuda_prepare_loop validate reference rest) (\<lambda>ts. Inr (t # ts)))"

definition cuda_prepare_updates :: "CudaByzantineAggregator \<Rightarrow> pyobj list \<Rightarrow> CudaPreparedUpdates res" where
  "cuda_prepare_updates A updates =
     (case updates of
        [] \<Rightarrow> Inl (ValueError ''at least one model update is required'')
      | PyOther # _ \<Rightarrow> Inl (TypeError ''model updates must be torch.Tensor instances'')
      | PyTensor reference # _ \<Rightarrow>
          if device_type (tdevice reference) \<noteq> ''cuda'' then Inl (TypeError ''CUDA aggregation requires CUDA tensors'')
          else if tdtype reference \<noteq> Float32 then Inl (TypeError ''zero-copy CUDA aggregation requires torch.float32 tensors'')
          else if \<not> tcontiguous reference then Inl (ValueError ''zero-copy CUDA aggregation requires contiguous tensors'')
          else if numel reference = 0 then Inl (ValueError ''model updates must not be empty'')
          else res_bind (cuda_prepare_loop (cu_validate_finite A) reference updates) (\<lambda>ts.
            Inr \<lparr>cp_updates = ts, cp_reference = reference, cp_dimension = numel reference\<rparr>))"

text \<open>\<open>distances.diagonal().fill_(inf)\<close>, the scores and the selection on the device.\<close>

definition fill_diagonal :: "fl list list \<Rightarrow> fl list list" where
  "fill_diagonal distances = map (\<lambda>i. (distances ! i)[i := PInf]) [0..<length distances]"

definition cuda_scores :: "torch \<Rightarrow> fl list list \<Rightarrow> nat \<Rightarrow> fl list" where
  "cuda_scores T distances neighbor_count =
     map (\<lambda>row. t_sum64 T (map (\<lambda>i. row ! i) (t_topk_smallest T neighbor_count row))) (fill_diagonal distances)"

definition cuda_krum :: "torch \<Rightarrow> cuda \<Rightarrow> CudaByzantineAggregator \<Rightarrow> pyobj list \<Rightarrow> int \<Rightarrow> int \<Rightarrow> tensor res" where
  "cuda_krum T C A updates f k =
     res_bind (cuda_prepare_updates A updates) (\<lambda>prepared.
       let rows = map tdata (cp_updates prepared);
           client_count = int (length rows);
           neighbor_count = client_count - f - 2
       in if f < 0 then Inl (ValueError ''Byzantine count f must be non-negative'')
          else if client_count < 2 * f + 3 then Inl (ValueError ''Krum requires n >= 2*f + 3'')
          else if k \<le> 0 \<or> k > neighbor_count
            then Inl (ValueError ''Multi-Krum candidate count k must satisfy 1 <= k <= n-f-2'')
          else
            res_bind (launch_pairwise_distances C rows (cp_dimension prepared)) (\<lambda>distances.
              let selected = t_topk_smallest T (nat k) (cuda_scores T distances (nat neighbor_count))
              in res_bind (launch_average_selected rows selected (cp_dimension prepared)) (\<lambda>output.
                   Inr ((cp_reference prepared)\<lparr>tdata := output\<rparr>))))"

definition cuda_trimmed_mean :: "cuda \<Rightarrow> CudaByzantineAggregator \<Rightarrow> pyobj list \<Rightarrow> fl \<Rightarrow> tensor res" where
  "cuda_trimmed_mean C A updates beta =
     res_bind (cuda_prepare_updates A updates) (\<lambda>prepared.
       let rows = map tdata (cp_updates prepared) in
       if \<not> (fl_le (Fin 0) beta \<and> fl_less beta (Fin (1 / 2)))
         then Inl (ValueError ''trim ratio beta must satisfy 0 <= beta < 0.5'')
       else res_bind (py_floor (py_mul beta (py_float (int (length rows))))) (\<lambda>trim_count.
         if 2 * trim_count \<ge> int (length rows) then Inl (ValueError ''trim ratio removes every model update'')
         else if int (length rows) > nm_cuda_trimmed_mean_max_clients (cu_native A)
           then Inl (ValueError ''CUDA trimmed mean supports at most 1024 clients'')
         else res_bind (launch_trimmed_mean C rows (cp_dimension prepared) (to_fmt binary32 beta)) (\<lambda>output.
           Inr ((cp_reference prepared)\<lparr>tdata := output\<rparr>))))"

definition cuda_aggregate ::
  "torch \<Rightarrow> cuda \<Rightarrow> CudaByzantineAggregator \<Rightarrow> pyobj list \<Rightarrow> string \<Rightarrow> int \<Rightarrow> int \<Rightarrow> fl \<Rightarrow> tensor res" where
  "cuda_aggregate T C A updates method f k beta =
     (if method = ''krum'' then cuda_krum T C A updates f 1
      else if method = ''multi_krum'' then cuda_krum T C A updates f k
      else if method = ''trimmed_mean'' then cuda_trimmed_mean C A updates beta
      else Inl (ValueError ''unsupported CUDA aggregation method''))"


section \<open>From tensors to rows\<close>

lemma numpy_loop_Inr_iff:
  "numpy_loop sh (map PyTensor us) = Inr arrays \<longleftrightarrow>
   (\<forall>u \<in> set us. is_floating_point u \<and> tshape u = sh) \<and> arrays = map host_array us"
  by (induction us arbitrary: arrays) (auto simp: res_simps)

text \<open>What the wrapper accepts: at least one tensor, floating point, of one shape with at least one element.\<close>

definition native_ready :: "tensor list \<Rightarrow> bool" where
  "native_ready us \<longleftrightarrow> us \<noteq> [] \<and> (\<forall>u \<in> set us. is_floating_point u \<and> tshape u = tshape (hd us)) \<and> 0 < numel (hd us)"

lemma tdata_host_array [simp]: "tdata (host_array t) = tdata (cpu_float t)" "tshape (host_array t) = tshape t"
  by (simp_all add: host_array_def)

lemma to_numpy_updates_Inr_iff:
  "to_numpy_updates (map PyTensor us) = Inr (arrays, reference) \<longleftrightarrow>
   us \<noteq> [] \<and> (\<forall>u \<in> set us. is_floating_point u \<and> tshape u = tshape (hd us)) \<and> arrays = map host_array us \<and> reference = hd us"
proof (cases us)
  case (Cons u vs)
  then have "to_numpy_updates (map PyTensor us) = (if \<not> is_floating_point u
      then Inl (TypeError ''model updates must use a floating-point dtype'')
      else res_bind (numpy_loop (tshape u) (map PyTensor us)) (\<lambda>arrays. Inr (arrays, u)))"
    by (simp add: to_numpy_updates_def)
  then show ?thesis using Cons numpy_loop_Inr_iff [of "tshape u" us] by (auto simp: res_simps simp del: numpy_loop.simps)
qed (simp add: to_numpy_updates_def)

lemma prepare_host_arrays:
  assumes "us \<noteq> []" "\<forall>u \<in> set us. tshape u = tshape (hd us)"
  shows "prepare_updates (map host_array us) =
    (if numel (hd us) = 0 then Inl (ValueError ''model updates must not be empty'') else Inr (stack_of us, tshape (hd us)))"
  using assms by (cases us) (auto simp: prepare_updates_def stack_of_def numel_def list_ex_iff)

text \<open>The common shape of the three methods: validate, run the core on the rows, convert back.\<close>

lemma native_method_Inr:
  assumes "res_bind (to_numpy_updates (map PyTensor us)) (\<lambda>(arrays, reference).
      res_bind (res_bind (prepare_updates arrays) (\<lambda>(views, shape). res_bind (core views) (\<lambda>r. Inr (f32_tensor shape r))))
        (\<lambda>result. Inr (to_torch_result A result reference))) = Inr out"
  obtains r where "native_ready us" "core (stack_of us) = Inr r" "out = to_torch_result A (f32_tensor (tshape (hd us)) r) (hd us)"
proof -
  obtain p where n: "to_numpy_updates (map PyTensor us) = Inr p" using assms by (cases "to_numpy_updates (map PyTensor us)") auto
  obtain arrays reference where p: "p = (arrays, reference)" by (cases p)
  note n' = n [unfolded p to_numpy_updates_Inr_iff]
  then have pr: "prepare_updates arrays = (if numel (hd us) = 0 then Inl (ValueError ''model updates must not be empty'')
      else Inr (stack_of us, tshape (hd us)))"
    using prepare_host_arrays [of us] by blast
  have ne: "numel (hd us) \<noteq> 0"
  proof
    assume "numel (hd us) = 0"
    then show False using assms pr unfolding n p by simp
  qed
  then obtain r where "core (stack_of us) = Inr r" using assms pr unfolding n p by (cases "core (stack_of us)") simp_all
  moreover from this have "out = to_torch_result A (f32_tensor (tshape (hd us)) r) reference" using assms pr ne unfolding n p by simp
  moreover have "native_ready us" using n' ne unfolding native_ready_def by blast
  ultimately show ?thesis using that n' by blast
qed

lemma native_method_ok:
  assumes "native_ready us" "core (stack_of us) = Inr r"
  shows "res_bind (to_numpy_updates (map PyTensor us)) (\<lambda>(arrays, reference).
      res_bind (res_bind (prepare_updates arrays) (\<lambda>(views, shape). res_bind (core views) (\<lambda>r. Inr (f32_tensor shape r))))
        (\<lambda>result. Inr (to_torch_result A result reference))) = Inr (to_torch_result A (f32_tensor (tshape (hd us)) r) (hd us))"
proof -
  have "to_numpy_updates (map PyTensor us) = Inr (map host_array us, hd us)"
    using assms(1) unfolding to_numpy_updates_Inr_iff native_ready_def by blast
  moreover have "prepare_updates (map host_array us) = Inr (stack_of us, tshape (hd us))"
    using prepare_host_arrays [of us] assms(1) unfolding native_ready_def by (metis less_irrefl)
  ultimately show ?thesis using assms(2) by simp
qed

lemma to_torch_result_f32:
  assumes "tdtype reference = Float32"
  shows "tdata (to_torch_result A (f32_tensor sh xs) reference) = xs" "tshape (to_torch_result A (f32_tensor sh xs) reference) = sh"
    "tdtype (to_torch_result A (f32_tensor sh xs) reference) = Float32"
  using assms by (simp_all add: to_torch_result_def f32_tensor_def Let_def)

lemma native_rows:
  assumes "native_ready us" "updates_ok (stack_of us)"
  shows "\<forall>r \<in> set (stack_of us). all_finite r \<and> length r = numel (hd us)" "length (hd (stack_of us)) = numel (hd us)"
proof -
  show h: "length (hd (stack_of us)) = numel (hd us)" using assms(2) unfolding updates_ok_def by (cases us) (simp_all add: stack_of_def numel_def)
  show "\<forall>r \<in> set (stack_of us). all_finite r \<and> length r = numel (hd us)"
    using assms(2) h by (auto simp: updates_ok_def)
qed

section \<open>Robustness of the extension\<close>

text \<open>
  C24: The median of the C++ extension withstands any minority of Byzantine clients: each coordinate of the
  result lies between the least and the greatest honest value, exactly. Unlike the PyTorch backend it needs no
  bound on the magnitude of the values, since the midpoint is computed in double precision.
\<close>

theorem native_median_byzantine_robust:
  assumes X: "nth_element_ok (nm_core (ca_native A))"
    and out: "cpp_aggregate A (map PyTensor updates) ''median'' f k beta = Inr out" and dt: "tdtype (hd updates) = Float32"
    and byz: "2 * byzantine honest updates < length updates" and h: "honest_range honest updates j lo hi"
    and j: "j < numel (hd updates)"
  shows "numel out = numel (hd updates) \<and> is_fin (tdata out ! j) \<and> lo \<le> val (tdata out ! j) \<and> val (tdata out ! j) \<le> hi"
proof -
  have "cpp_median A (map PyTensor updates) = Inr out" using out by (simp add: cpp_aggregate_def)
  then obtain r where r: "native_ready updates" "median_aggregate (nm_core (ca_native A)) (stack_of updates) = Inr r"
      "out = to_torch_result A (f32_tensor (tshape (hd updates)) r) (hd updates)"
    unfolding cpp_median_def median_binding_def by (rule native_method_Inr) blast
  have ok: "updates_ok (stack_of updates)"
    and rd: "r = along_dim0 (native_median_col (nm_core (ca_native A))) (length (hd (stack_of updates))) (stack_of updates)"
    using r(2) by (auto simp: median_aggregate_def res_simps validate_updates_Inr_iff)
  note rows = native_rows [OF r(1) ok]
  have rep: "representable binary32 lo" "representable binary32 hi" using h by (simp_all add: honest_range_def)
  have m: "max \<bar>lo\<bar> \<bar>hi\<bar> < 2 powi 128"
    using representable_bound [OF rep(1)] representable_bound [OF rep(2)] by (simp add: binary32_def)
  have "card ({..<length (stack_of updates)} - honest) \<le> (length (stack_of updates) - 1) div 2"
    using byz by (simp add: byzantine_def)
  from native_median.rows_hull [OF X _ rows(1) this _ rep _ _ m j] h r(1)
  have "is_fin (r ! j) \<and> lo \<le> val (r ! j) \<and> val (r ! j) \<le> hi"
    unfolding rd rows(2) by (simp add: honest_range_def native_ready_def)
  then show ?thesis using r(3) to_torch_result_f32 [OF dt] rd rows(2) by (simp add: numel_def)
qed

text \<open>
  C26: The trimmed mean of the C++ extension withstands as many Byzantine clients as it trims: each coordinate
  lies in the honest range exactly, without any rounding slack, for up to \<open>2 ^ 29\<close> clients. The trim count is
  that of the ratio rounded to float32.
\<close>

theorem native_trimmed_mean_byzantine_robust:
  assumes out: "cpp_aggregate A (map PyTensor updates) ''trimmed_mean'' f k beta = Inr out" and dt: "tdtype (hd updates) = Float32"
    and trim: "py_floor (fl_mul binary64 (to_fmt binary32 beta) (py_float (int (length updates)))) = Inr trim"
    and byz: "byzantine honest updates \<le> nat trim" and h: "honest_range honest updates j lo hi"
    and n: "length updates \<le> 2 ^ 29" and j: "j < numel (hd updates)"
  shows "is_fin (tdata out ! j) \<and> lo \<le> val (tdata out ! j) \<and> val (tdata out ! j) \<le> hi"
proof -
  have "cpp_trimmed_mean A (map PyTensor updates) beta = Inr out" using out by (simp add: cpp_aggregate_def)
  then obtain r where r: "native_ready updates" "trimmed_mean_aggregate (stack_of updates) (to_fmt binary32 beta) = Inr r"
      "out = to_torch_result A (f32_tensor (tshape (hd updates)) r) (hd updates)"
    unfolding cpp_trimmed_mean_def trimmed_mean_binding_def by (rule native_method_Inr) blast
  have ok: "updates_ok (stack_of updates)" and t: "2 * nat trim < length (stack_of updates)"
    and rd: "r = along_dim0 (trimmed_mean_col (nat trim)) (length (hd (stack_of updates))) (stack_of updates)"
    using r(2) trim by (auto simp: trimmed_mean_aggregate_def res_simps validate_updates_Inr_iff split: if_split_asm)
  note rows = native_rows [OF r(1) ok]
  have rep: "representable binary32 lo" "representable binary32 hi" using h by (simp_all add: honest_range_def)
  have m: "max \<bar>lo\<bar> \<bar>hi\<bar> < 2 powi 128"
    using representable_bound [OF rep(1)] representable_bound [OF rep(2)] by (simp add: binary32_def)
  from native_trimmed.rows_hull [OF _ _ rows(1) _ _ rep _ _ m j, of "nat trim"] h t byz n
  have "is_fin (r ! j) \<and> lo \<le> val (r ! j) \<and> val (r ! j) \<le> hi"
    unfolding rd rows(2) by (simp add: honest_range_def byzantine_def)
  then show ?thesis using r(3) to_torch_result_f32 [OF dt] by simp
qed


lemma length_sort_by [simp]: "length (sort_by lt xs) = length xs"
  by (rule mset_eq_length) simp

text \<open>
  C25: Krum and Multi-Krum of the C++ extension, with any of its three distance kernels: the wrapper selects
  the requested number of distinct clients, and each of them is within the Krum score of an honest client of
  another honest client's update. No score needs to be assumed finite or free of NaN. Plain Krum returns one
  client's update unchanged; Multi-Krum the mean of the selected ones.
\<close>

theorem native_krum_byzantine_robust:
  assumes X: "nth_element_ok X" "X = nm_core (ca_native A)"
    and out: "cpp_aggregate A (map PyTensor updates) method f k beta = Inr out" "method \<in> {''krum'', ''multi_krum''}"
    and dt: "tdtype (hd updates) = Float32" and byz: "byzantine honest updates \<le> nat f"
  shows "\<exists>sel. int (length sel) = (if method = ''krum'' then 1 else k) \<and> distinct sel \<and> set sel \<subseteq> {..<length updates} \<and>
    tdata out = (if length sel = 1 then stack_of updates ! hd sel
                 else along_dim0 float_mean (numel (hd updates)) (map (\<lambda>i. stack_of updates ! i) sel)) \<and>
    (\<forall>i \<in> set sel. \<exists>h h'. h \<in> honest \<and> h' \<in> honest \<and> h < length updates \<and> h' < length updates \<and> h \<noteq> i \<and>
       fl_le (krum_distances X (stack_of updates) ! i ! h)
         (native_scores X (stack_of updates) (length updates - nat f - 2) ! h'))"
proof -
  define k' where "k' = (if method = ''krum'' then 1 else k)"
  have "cpp_krum A (map PyTensor updates) f k' = Inr out" using out by (auto simp: cpp_aggregate_def k'_def)
  then have "res_bind (to_numpy_updates (map PyTensor updates)) (\<lambda>(arrays, reference).
      res_bind (res_bind (prepare_updates arrays) (\<lambda>(views, shape). res_bind (krum_aggregate X views (nat f) (nat k')) (\<lambda>r. Inr (f32_tensor shape r))))
        (\<lambda>result. Inr (to_torch_result A result reference))) = Inr out" and k: "0 < k'"
    unfolding X(2) cpp_krum_def krum_binding_def c_int_def by (auto simp: res_simps split: if_split_asm)
  from this(1) obtain r where r: "native_ready updates" "krum_aggregate X (stack_of updates) (nat f) (nat k') = Inr r"
      "out = to_torch_result A (f32_tensor (tshape (hd updates)) r) (hd updates)"
    by (rule native_method_Inr) blast
  let ?rows = "stack_of updates" let ?sel = "native_select X ?rows (nat f) (nat k')"
  have ok: "native_krum_ok (X, ?rows, nat f, nat k')"
    and rd: "r = (if nat k' = 1 then ?rows ! hd ?sel else along_dim0 float_mean (length (hd ?rows)) (map (\<lambda>i. ?rows ! i) ?sel))"
    using r(2) X(1) by (auto simp: krum_aggregate_def native_krum_ok_def res_simps validate_updates_Inr_iff Let_def split: if_split_asm)
  have len: "length ?sel = nat k'" using ok by (auto simp: native_krum_ok_def native_select_def partial_sort_def)
  have "length (hd ?rows) = numel (hd updates)"
    using native_rows(2) [OF r(1)] ok by (simp add: native_krum_ok_def)
  moreover have "\<forall>i \<in> set ?sel. \<exists>h h'. h \<in> honest \<and> h' \<in> honest \<and> h < length updates \<and> h' < length updates \<and> h \<noteq> i \<and>
       fl_le (krum_distances X ?rows ! i ! h) (native_scores X ?rows (length updates - nat f - 2) ! h')"
    using native_krum.near_honest [OF ok, of honest] byz by (simp add: byzantine_def)
  ultimately show ?thesis
    using len k rd r(3) to_torch_result_f32(1) [OF dt] native_krum.selects [OF ok] unfolding k'_def [symmetric]
    by (intro exI [of _ ?sel]) simp
qed

section \<open>A concrete extension\<close>

definition native_example :: native where
  "native_example = \<lparr>n_nth_element = (\<lambda>m. sort_by fl_less), n_avx512 = False, n_neon = False, n_openmp = False\<rparr>"

definition aggregator_example :: CppByzantineAggregator where
  "aggregator_example =
     \<lparr>ca_native = \<lparr>nm_core = native_example, nm_cuda_enabled = False, nm_cuda_trimmed_mean_max_clients = 0\<rparr>,
      ca_preserve_device = True, ca_preserve_dtype = True, ca_non_blocking_transfers = True\<rparr>"

lemma strict_weak_fl_less: "NaN \<notin> A \<Longrightarrow> strict_weak fl_less A"
proof -
  assume n: "NaN \<notin> A"
  have le: "\<not> fl_less b a \<longleftrightarrow> fl_le a b" if "a \<in> A" "b \<in> A" for a b
    using fl_le_iff_not_less n that by metis
  have "fl_le a b \<or> fl_le b a" if "a \<in> A" "b \<in> A" for a b using fl_le_total n that by metis
  then show ?thesis using le fl_le_trans unfolding strict_weak_def by metis
qed

lemma nth_element_ok_example: "nth_element_ok native_example"
  unfolding nth_element_ok_def
proof (intro allI impI conjI)
  fix m :: nat and xs :: "fl list"
  assume m: "m < length xs" and n: "NaN \<notin> set xs"
  let ?ys = "sort_by fl_less xs"
  have e: "n_nth_element native_example m xs = ?ys" by (simp add: native_example_def)
  show "mset (n_nth_element native_example m xs) = mset xs" by (simp add: e)
  have "fl_le (?ys ! i) (?ys ! j)" if "i < j" "j < length xs" for i j
  proof -
    have "\<not> fl_less (?ys ! j) (?ys ! i)"
      using sorted_sort_by [OF strict_weak_fl_less [OF n]] that by (simp add: sorted_wrt_iff_nth_less)
    moreover have "?ys ! i \<in> set xs" "?ys ! j \<in> set xs" using nth_mem [of _ ?ys] that by simp_all
    ultimately show ?thesis using fl_le_iff_not_less n by metis
  qed
  then show "fl_le (n_nth_element native_example m xs ! i) (n_nth_element native_example m xs ! m)" if "i < m" for i
    using that m e by simp
  show "fl_le (n_nth_element native_example m xs ! m) (n_nth_element native_example m xs ! i)" if "i < length xs" "m < i" for i
    using \<open>\<And>i j. i < j \<Longrightarrow> j < length xs \<Longrightarrow> fl_le (?ys ! i) (?ys ! j)\<close> that e by simp
qed


lemma native_ready_flat: "us \<noteq> [] \<Longrightarrow> xs \<noteq> [] \<Longrightarrow> hd us = flat_vector xs \<Longrightarrow>
  (\<And>u. u \<in> set us \<Longrightarrow> \<exists>ys. u = flat_vector ys \<and> length ys = length xs) \<Longrightarrow> native_ready us"
  by (fastforce simp: native_ready_def is_floating_point_def numel_def flat_vector_def f32_tensor_def)

theorem native_median_byzantine_robust_witness:
  "\<exists>out. cpp_aggregate aggregator_example
       (map PyTensor [flat_vector [Fin 1], flat_vector [Fin 2], flat_vector [Fin 1000]]) ''median'' 0 1 (Fin 0) = Inr out \<and>
     1 \<le> val (tdata out ! 0) \<and> val (tdata out ! 0) \<le> 2"
proof -
  let ?us = "[flat_vector [Fin 1], flat_vector [Fin 2], flat_vector [Fin 1000]]"
  have X: "nth_element_ok (nm_core (ca_native aggregator_example))" using nth_element_ok_example by (simp add: aggregator_example_def)
  have rows: "stack_of ?us = [[Fin 1], [Fin 2], [Fin 1000]]" by (simp add: stack_of_def rnd32_ints)
  have "validate_updates (stack_of ?us) = Inr 1" unfolding rows by (simp add: validate_updates_def)
  then obtain r where "median_aggregate (nm_core (ca_native aggregator_example)) (stack_of ?us) = Inr r"
    by (simp add: median_aggregate_def)
  moreover have "native_ready ?us" by (rule native_ready_flat [of _ "[Fin 1]"]) auto
  ultimately obtain out where out: "cpp_aggregate aggregator_example (map PyTensor ?us) ''median'' 0 1 (Fin 0) = Inr out"
    using native_method_ok [of ?us "median_aggregate (nm_core (ca_native aggregator_example))" r aggregator_example]
    unfolding cpp_aggregate_def cpp_median_def median_binding_def by simp
  have "{..<3::nat} - {0, 1} = {2}" by auto
  then have b: "2 * byzantine {0, 1} ?us < length ?us" by (simp add: byzantine_def)
  have h: "honest_range {0, 1} ?us 0 1 2"
    using representable32_int [of 1] representable32_int [of 2] by (simp add: honest_range_def stack_of_def rnd32_ints)
  have dt: "tdtype (hd ?us) = Float32" "0 < numel (hd ?us)" by (simp_all add: flat_vector_def f32_tensor_def numel_def)
  from native_median_byzantine_robust [OF X out dt(1) b h dt(2)] show ?thesis using out by auto
qed

theorem native_trimmed_mean_byzantine_robust_witness:
  "\<exists>out. cpp_aggregate aggregator_example
       (map PyTensor [flat_vector [Fin 1], flat_vector [Fin 1000], flat_vector [Fin 3], flat_vector [Fin 3]]) ''trimmed_mean'' 0 1 (Fin (1 / 4)) = Inr out \<and>
     1 \<le> val (tdata out ! 0) \<and> val (tdata out ! 0) \<le> 3"
proof -
  let ?us = "[flat_vector [Fin 1], flat_vector [Fin 1000], flat_vector [Fin 3], flat_vector [Fin 3]]"
  have "representable binary32 (1 / 4)" using representable_dyadic [of 1 binary32 "- 2"] by (simp add: binary32_def power_int_minus)
  then have b32: "to_fmt binary32 (Fin (1 / 4)) = Fin (1 / 4)" by (simp add: rnd_representable)
  then have t: "py_floor (fl_mul binary64 (to_fmt binary32 (Fin (1 / 4))) (py_float (int (length ?us)))) = Inr 1"
    using py_float_small [of 4] rnd64_ints by simp
  have rows: "stack_of ?us = [[Fin 1], [Fin 1000], [Fin 3], [Fin 3]]" by (simp add: stack_of_def rnd32_ints)
  have "validate_updates (stack_of ?us) = Inr 1" unfolding rows by (simp add: validate_updates_def)
  then obtain r where "trimmed_mean_aggregate (stack_of ?us) (to_fmt binary32 (Fin (1 / 4))) = Inr r"
    using t b32 by (simp add: trimmed_mean_aggregate_def)
  moreover have "native_ready ?us" by (rule native_ready_flat [of _ "[Fin 1]"]) auto
  ultimately obtain out where out: "cpp_aggregate aggregator_example (map PyTensor ?us) ''trimmed_mean'' 0 1 (Fin (1 / 4)) = Inr out"
    using native_method_ok [of ?us "\<lambda>rows. trimmed_mean_aggregate rows (to_fmt binary32 (Fin (1 / 4)))" r aggregator_example]
    unfolding cpp_aggregate_def cpp_trimmed_mean_def trimmed_mean_binding_def by simp
  have "{..<4::nat} - {0, 2, 3} = {1}" by auto
  then have b: "byzantine {0, 2, 3} ?us \<le> nat 1" by (simp add: byzantine_def)
  have h: "honest_range {0, 2, 3} ?us 0 1 3"
    using representable32_int [of 1] representable32_int [of 3] by (simp add: honest_range_def stack_of_def rnd32_ints)
  have dt: "tdtype (hd ?us) = Float32" "0 < numel (hd ?us)" "length ?us \<le> 2 ^ 29" by (simp_all add: flat_vector_def f32_tensor_def numel_def)
  from native_trimmed_mean_byzantine_robust [OF out dt(1) t b h dt(3,2)] show ?thesis using out by auto
qed

theorem native_krum_byzantine_robust_witness:
  "\<exists>out i h h'. cpp_aggregate aggregator_example
       (map PyTensor [flat_vector [Fin 1], flat_vector [Fin 1000], flat_vector [Fin 2], flat_vector [Fin 1], flat_vector [Fin 2]])
       ''krum'' 1 1 (Fin 0) = Inr out \<and>
     h \<in> {0, 2, 3, 4} \<and> h' \<in> {0, 2, 3, 4} \<and> h \<noteq> i \<and> tdata out = [[Fin 1], [Fin 1000], [Fin 2], [Fin 1], [Fin 2]] ! i \<and>
     fl_le (krum_distances native_example [[Fin 1], [Fin 1000], [Fin 2], [Fin 1], [Fin 2]] ! i ! h)
       (native_scores native_example [[Fin 1], [Fin 1000], [Fin 2], [Fin 1], [Fin 2]] 2 ! h')"
proof -
  let ?us = "[flat_vector [Fin 1], flat_vector [Fin 1000], flat_vector [Fin 2], flat_vector [Fin 1], flat_vector [Fin 2]]"
  let ?rows = "[[Fin 1], [Fin 1000], [Fin 2], [Fin 1], [Fin 2]]"
  have X: "native_example = nm_core (ca_native aggregator_example)" by (simp add: aggregator_example_def)
  have rows: "stack_of ?us = ?rows" by (simp add: stack_of_def rnd32_ints)
  have "validate_updates (stack_of ?us) = Inr 1" unfolding rows by (simp add: validate_updates_def)
  then obtain r where "krum_aggregate native_example (stack_of ?us) (nat 1) (nat 1) = Inr r"
    by (simp add: krum_aggregate_def)
  moreover have "native_ready ?us" by (rule native_ready_flat [of _ "[Fin 1]"]) auto
  ultimately obtain out where out: "cpp_aggregate aggregator_example (map PyTensor ?us) ''krum'' 1 1 (Fin 0) = Inr out"
    using native_method_ok [of ?us "\<lambda>rows. krum_aggregate native_example rows (nat 1) (nat 1)" r aggregator_example]
    unfolding cpp_aggregate_def cpp_krum_def krum_binding_def c_int_def X [symmetric] by simp
  have "{..<5::nat} - {0, 2, 3, 4} = {1}" by auto
  then have b: "byzantine {0, 2, 3, 4} ?us \<le> nat 1" by (simp add: byzantine_def)
  have dt: "tdtype (hd ?us) = Float32" by (simp add: flat_vector_def f32_tensor_def)
  have m: "''krum'' \<in> {''krum'', ''multi_krum''}" by simp
  obtain sel where sel: "int (length sel) = (if ''krum'' = ''krum'' then 1 else 1)"
      "tdata out = (if length sel = 1 then stack_of ?us ! hd sel
         else along_dim0 float_mean (numel (hd ?us)) (map (\<lambda>i. stack_of ?us ! i) sel))"
      "\<forall>i \<in> set sel. \<exists>h h'. h \<in> {0, 2, 3, 4} \<and> h' \<in> {0, 2, 3, 4} \<and> h < length ?us \<and> h' < length ?us \<and> h \<noteq> i \<and>
        fl_le (krum_distances native_example (stack_of ?us) ! i ! h)
          (native_scores native_example (stack_of ?us) (length ?us - nat 1 - 2) ! h')"
    using native_krum_byzantine_robust [OF nth_element_ok_example X out m dt b] by blast
  have "length sel = 1" using sel(1) by simp
  then obtain i where i: "sel = [i]" by (cases sel) simp_all
  then have "i \<in> set sel" by simp
  from bspec [OF sel(3) this] obtain h h' where h: "h \<in> {0, 2, 3, 4}" "h' \<in> {0, 2, 3, 4}" "h \<noteq> i"
      "fl_le (krum_distances native_example (stack_of ?us) ! i ! h) (native_scores native_example (stack_of ?us) (length ?us - nat 1 - 2) ! h')"
    by (elim exE conjE)
  have nb: "length ?us - nat 1 - 2 = 2" by simp
  have "tdata out = ?rows ! i" using sel(2) i unfolding rows by simp
  then show ?thesis using out h(1-3) h(4) [unfolded rows nb] by (intro exI conjI)
qed


section \<open>The two backends\<close>

lemma t_sort_eq_fin_sort:
  assumes "sort_ok T" "all_finite xs"
  shows "t_sort T xs = fin_sort xs"
proof -
  note s = sort_okD [OF assms]
  have "vals (t_sort T xs) = sort (vals xs)"
    using s(1,2) by (intro properties_for_sort [symmetric]) (metis mset_map vals_def, simp)
  then show ?thesis using map_Fin_vals [OF s(4)] by (simp add: fin_sort_def)
qed

lemma median_col_eq_native:
  assumes "nth_element_ok X" "sort_ok T" "all_finite xs" "odd (length xs)"
  shows "median_col T xs = native_median_col X xs"
proof -
  have "xs \<noteq> []" using assms(4) by auto
  then show ?thesis using assms native_median_col_eq [of X xs] t_sort_eq_fin_sort [of T xs]
    by (simp add: median_col_def Let_def odd_iff_mod_2_eq_one)
qed



section \<open>The ratio of the trimmed mean\<close>

lemma rnd_eqI:
  assumes "fmt_ok F" "emin F \<le> e" "e \<le> etop F" "2 powi (e - 1 + int (prec F)) \<le> \<bar>x\<bar>" "\<bar>x\<bar> < 2 powi (e + int (prec F))"
    and m: "round_even (x / 2 powi e) = m" "\<bar>m\<bar> < 2 ^ prec F"
  shows "rnd F x = Fin (of_int m * 2 powi e)"
proof -
  have up: "\<bar>x\<bar> < 2 powi (etop F + int (prec F))" using assms(3,5) powi_mono2 [of "e + int (prec F)" "etop F + int (prec F)"] by linarith
  obtain e' where e': "ulp_exp F x = Some e'"
    using ulp_exp_None [of F x] assms(2,3) up by (cases "ulp_exp F x") force+
  note u = ulp_exp_Some [OF e']
  have "e' \<le> e"
  proof (rule ccontr)
    assume "\<not> e' \<le> e"
    then have "2 powi (e + int (prec F)) \<le> (2::real) powi (e' - 1 + int (prec F))" by (intro powi_mono2) simp
    then show False using u(4) assms(2,5) \<open>\<not> e' \<le> e\<close> by linarith
  qed
  moreover have "e \<le> e'"
  proof (rule ccontr)
    assume "\<not> e \<le> e'"
    then have "(2::real) powi (e' + int (prec F)) \<le> 2 powi (e - 1 + int (prec F))" by (intro powi_mono2) simp
    then show False using u(1) assms(4) by linarith
  qed
  ultimately have ee: "e' = e" by simp
  have "representable F (real_of_int m * 2 powi e)" using assms(2,3) m(2) by (rule representable_dyadic [rotated])
  then have "\<bar>of_int m * 2 powi e\<bar> < (2::real) powi (etop F + int (prec F))" using representable_bound [of F "of_int m * 2 powi e"] by simp
  then show ?thesis using e' ee m(1) by (simp add: rnd_def Let_def)
qed

lemma rnd64_045: "rnd binary64 (9 / 20) = Fin (8106479329266893 / 2 ^ 54)"
  using rnd_eqI [OF fmt_ok_binary(1), of "- 54" "9 / 20" 8106479329266893]
  by (simp add: binary64_def round_even_def Let_def power_int_minus floor_eq_iff)


lemma ratio_45_of_20:
  "py_mul (rnd binary64 (9 / 20)) (py_float 20) = Fin 9"
  "to_fmt binary32 (rnd binary64 (9 / 20)) = Fin (15099494 / 2 ^ 25)"
  "fl_mul binary64 (Fin (15099494 / 2 ^ 25)) (py_float 20) = Fin (301989880 / 2 ^ 25)"
proof -
  have f: "py_float 20 = Fin 20" using py_float_small [of 20] by simp
  show "py_mul (rnd binary64 (9 / 20)) (py_float 20) = Fin 9"
    unfolding rnd64_045 f
    using rnd_eqI [OF fmt_ok_binary(1), of "- 49" "8106479329266893 / 2 ^ 54 * 20" 5066549580791808]
    by (simp add: binary64_def round_even_def Let_def power_int_minus floor_eq_iff)
  show "to_fmt binary32 (rnd binary64 (9 / 20)) = Fin (15099494 / 2 ^ 25)"
    unfolding rnd64_045
    using rnd_eqI [OF fmt_ok_binary(2), of "- 25" "8106479329266893 / 2 ^ 54" 15099494]
    by (simp add: binary32_def round_even_def Let_def power_int_minus floor_eq_iff)
  have "representable binary64 (of_int 301989880 * 2 powi (- 25))"
    by (rule representable_dyadic) (simp_all add: binary64_def)
  then show "fl_mul binary64 (Fin (15099494 / 2 ^ 25)) (py_float 20) = Fin (301989880 / 2 ^ 25)"
    unfolding f using rnd_representable [of binary64 "301989880 / 2 ^ 25"] by (simp add: power_int_minus)
qed


definition ratio_updates :: "tensor list" where
  "ratio_updates = map (\<lambda>v. flat_vector [Fin v]) (replicate 9 1000 @ replicate 11 1)"

lemma stack_ratio_updates: "stack_of ratio_updates = replicate 9 [Fin 1000] @ replicate 11 [Fin 1]"
  by (simp add: ratio_updates_def stack_of_def rnd32_ints)

lemma column_ratio_updates: "column 0 (stack_of ratio_updates) = replicate 9 (Fin 1000) @ replicate 11 (Fin 1)"
  by (simp add: stack_ratio_updates column_def)

lemma fin_sort_ratio: "fin_sort (replicate 9 (Fin 1000) @ replicate 11 (Fin 1)) = replicate 11 (Fin 1) @ replicate 9 (Fin 1000)"
proof -
  have "sort (replicate 9 (1000::real) @ replicate 11 1) = replicate 11 1 @ replicate 9 1000"
    by (rule properties_for_sort) (simp_all add: sorted_append)
  then show ?thesis by (simp add: fin_sort_def vals_def)
qed

lemma float_mean_ratio: "float_mean [Fin 1, Fin 1, Fin 1, Fin 1000] = Fin (1003 / 4)"
proof -
  have r: "representable binary32 (1003 / 4)"
    using representable_dyadic [of 1003 binary32 "- 2"] by (simp add: binary32_def power_int_minus)
  then show ?thesis using py_float_small [of 4] rnd_representable [OF fmt_ok_binary(1) representable32_64 [OF r]]
      rnd_representable [OF fmt_ok_binary(2) r]
    by (simp add: float_mean_def accumulate_def rnd64_ints)
qed

text \<open>
  C28: The C++ backend can trim fewer clients than the configured ratio asks for. It receives the ratio as a
  \<open>float\<close>, and 0.45 rounds down there: with 20 clients it trims 8 from each side where the PyTorch backend, the
  configuration checks and the documentation (\<open>floor(beta * n)\<close>) trim 9. Nine clients that send 1000 while
  eleven send 1 are cut off by the PyTorch backend but move the C++ aggregate to 250.75.
\<close>

theorem native_trim_ratio_divergence:
  "(\<exists>out. torch_aggregate torch_exact
       (default_AggregationConfig\<lparr>agg_method := ''trimmed_mean'', agg_beta := rnd binary64 (9 / 20)\<rparr>) ratio_updates = Inr out \<and>
     tdata out = [Fin 1]) \<and>
   (\<exists>out. cpp_aggregate aggregator_example (map PyTensor ratio_updates) ''trimmed_mean'' 0 1 (rnd binary64 (9 / 20)) = Inr out \<and>
     tdata out = [Fin (1003 / 4)])"
proof
  have len: "length ratio_updates = 20" by (simp add: ratio_updates_def)
  have hd: "hd ratio_updates = flat_vector [Fin 1000]" by (simp add: ratio_updates_def)
  then have w: "numel (hd ratio_updates) = 1" by (simp add: numel_def)
  have ag: "aggregable ratio_updates"
    unfolding aggregable_def stack_ratio_updates by (auto simp: ratio_updates_def list_all_iff all_finite_def)
  let ?col = "replicate 9 (Fin 1000) @ replicate 11 (Fin 1)"
  have "trimmed_col torch_exact 9 ?col = Fin 1"
    using fin_sort_ratio by (simp add: trimmed_col_def torch_exact_def exact_mean_def vals_def Let_def sum_list_replicate)
  then show "\<exists>out. torch_aggregate torch_exact
      (default_AggregationConfig\<lparr>agg_method := ''trimmed_mean'', agg_beta := rnd binary64 (9 / 20)\<rparr>) ratio_updates = Inr out \<and>
      tdata out = [Fin 1]"
    unfolding torch_aggregate_eq [OF ag] by (simp add: Let_def len w ratio_45_of_20(1) along_dim0_def column_ratio_updates f32_tensor_def)
  have "trimmed_mean_col 8 ?col = Fin (1003 / 4)"
    unfolding trimmed_mean_col_def fin_sort_ratio using float_mean_ratio by (simp add: eval_nat_numeral)
  moreover have "validate_updates (stack_of ratio_updates) = Inr 1"
    by (simp add: stack_ratio_updates validate_updates_def eval_nat_numeral)
  moreover have "\<lfloor>301989880 / 2 ^ 25 :: real\<rfloor> = 8" by (simp add: floor_eq_iff)
  ultimately have core: "trimmed_mean_aggregate (stack_of ratio_updates) (to_fmt binary32 (rnd binary64 (9 / 20))) = Inr [Fin (1003 / 4)]"
    using ratio_45_of_20(3) by (simp add: trimmed_mean_aggregate_def ratio_45_of_20(2) len along_dim0_def column_ratio_updates)
  have "native_ready ratio_updates"
    by (rule native_ready_flat [OF _ _ hd]) (auto simp: ratio_updates_def)
  from native_method_ok [where core = "\<lambda>rows. trimmed_mean_aggregate rows (to_fmt binary32 (rnd binary64 (9 / 20)))", OF this core, of aggregator_example]
  show "\<exists>out. cpp_aggregate aggregator_example (map PyTensor ratio_updates) ''trimmed_mean'' 0 1 (rnd binary64 (9 / 20)) = Inr out \<and>
      tdata out = [Fin (1003 / 4)]"
    unfolding cpp_aggregate_def cpp_trimmed_mean_def trimmed_mean_binding_def
    using to_torch_result_f32(1) [of "hd ratio_updates"] hd by (simp add: flat_vector_def f32_tensor_def)
qed


section \<open>Krum on the device\<close>

text \<open>
  \<open>torch.topk\<close> on values that may be infinite, and the distance kernel: an \<open>n \<times> n\<close> matrix whose entries off the
  diagonal are finite and non-negative.
\<close>

definition topk_inf_ok :: "torch \<Rightarrow> bool" where
  "topk_inf_ok T \<longleftrightarrow>
     (\<forall>k xs. k \<le> length xs \<longrightarrow> NaN \<notin> set xs \<longrightarrow>
        length (t_topk_smallest T k xs) = k \<and> distinct (t_topk_smallest T k xs) \<and>
        set (t_topk_smallest T k xs) \<subseteq> {..<length xs} \<and>
        (\<forall>i \<in> set (t_topk_smallest T k xs). \<forall>j \<in> {..<length xs} - set (t_topk_smallest T k xs). fl_le (xs ! i) (xs ! j)))"

definition distance_kernel_ok :: "cuda \<Rightarrow> bool" where
  "distance_kernel_ok C \<longleftrightarrow>
     (\<forall>rows. list_all all_finite rows \<longrightarrow>
        length (c_pairwise_distance_kernel C rows) = length rows \<and>
        (\<forall>r \<in> set (c_pairwise_distance_kernel C rows). length r = length rows \<and> (\<forall>d \<in> set r. is_fin d \<and> 0 \<le> val d)))"

lemma topk_inf_okD:
  assumes "topk_inf_ok T" "k \<le> length xs" "NaN \<notin> set xs"
  shows "length (t_topk_smallest T k xs) = k" "distinct (t_topk_smallest T k xs)" "set (t_topk_smallest T k xs) \<subseteq> {..<length xs}"
    "i \<in> set (t_topk_smallest T k xs) \<Longrightarrow> j < length xs \<Longrightarrow> j \<notin> set (t_topk_smallest T k xs) \<Longrightarrow> fl_le (xs ! i) (xs ! j)"
  using assms by (simp_all add: topk_inf_ok_def)

lemma cuda_score_neighbours:
  assumes T: "topk_inf_ok T" "sum_dominates T" and D: "length D = n" "\<forall>r \<in> set D. length r = n \<and> (\<forall>d \<in> set r. is_fin d \<and> 0 \<le> val d)"
    and i: "i < n" and nb: "0 < nb" "nb < n - 1"
  shows "cuda_scores T D nb ! i \<noteq> NaN"
    "\<exists>N. N \<subseteq> {..<n} - {i} \<and> card N = nb \<and> (\<forall>h \<in> N. fl_le (D ! i ! h) (cuda_scores T D nb ! i))"
proof -
  let ?r = "(D ! i)[i := PInf]" let ?top = "t_topk_smallest T nb ?r"
  have Di: "length (D ! i) = n" "\<And>q. q < n \<Longrightarrow> is_fin (D ! i ! q) \<and> 0 \<le> val (D ! i ! q)"
  proof -
    have "D ! i \<in> set D" using D(1) i by simp
    then have r: "length (D ! i) = n" "\<forall>d \<in> set (D ! i). is_fin d \<and> 0 \<le> val d" using D(2) by blast+
    show "length (D ! i) = n" by (rule r)
    show "is_fin (D ! i ! q) \<and> 0 \<le> val (D ! i ! q)" if "q < n" for q using r that by simp
  qed
  have ent: "?r ! q = (if q = i then PInf else D ! i ! q)" if "q < n" for q using Di(1) that by (auto simp: nth_list_update)
  have "NaN \<notin> set ?r"
  proof
    assume "NaN \<in> set ?r"
    then obtain q where "q < n" "?r ! q = NaN" using Di(1) by (auto simp: in_set_conv_nth)
    then show False using ent [of q] Di(2) [of q] by (auto split: if_split_asm)
  qed
  then have top: "length ?top = nb" "distinct ?top" "set ?top \<subseteq> {..<n}"
      "\<And>p q. p \<in> set ?top \<Longrightarrow> q < n \<Longrightarrow> q \<notin> set ?top \<Longrightarrow> fl_le (?r ! p) (?r ! q)"
    using topk_inf_okD [OF T(1), of nb ?r] nb Di(1) by auto
  have c: "card (set ?top) = nb" using top(1,2) by (simp add: distinct_card)
  have no_i: "i \<notin> set ?top"
  proof
    assume it: "i \<in> set ?top"
    have "card (set ?top) < card {..<n}" using c nb by simp
    then obtain q where "q < n" "q \<notin> set ?top" using top(3) by (metis card_mono finite_set lessThan_iff not_le subsetI)
    then have "fl_le PInf (D ! i ! q)" using top(4) [OF it] ent it i by metis
    then show False using Di(2) [OF \<open>q < n\<close>] by (cases "D ! i ! q") auto
  qed
  have sc: "cuda_scores T D nb ! i = t_sum64 T (map (\<lambda>q. ?r ! q) ?top)"
    using i D(1) by (simp add: cuda_scores_def fill_diagonal_def)
  have nn: "\<forall>x \<in> set (map (\<lambda>q. ?r ! q) ?top). fl_le (Fin 0) x"
  proof
    fix x assume "x \<in> set (map (\<lambda>q. ?r ! q) ?top)"
    then obtain q where "q \<in> set ?top" "x = ?r ! q" by auto
    then have "x = D ! i ! q" "q < n" using ent [of q] no_i top(3) by auto
    then show "fl_le (Fin 0) x" using Di(2) [of q] by (cases "D ! i ! q") auto
  qed
  have dom: "fl_le (D ! i ! h) (cuda_scores T D nb ! i)" if h: "h \<in> set ?top" for h
  proof -
    have "fl_le (?r ! h) (t_sum64 T (map (\<lambda>q. ?r ! q) ?top))" using T(2) nn h unfolding sum_dominates_def by simp
    moreover have "h < n" "h \<noteq> i" using h no_i top(3) by auto
    ultimately show ?thesis using ent [of h] sc by simp
  qed
  then show "\<exists>N. N \<subseteq> {..<n} - {i} \<and> card N = nb \<and> (\<forall>h \<in> N. fl_le (D ! i ! h) (cuda_scores T D nb ! i))"
    using c no_i top(3) by (intro exI [of _ "set ?top"]) auto
  have "?top \<noteq> []" using top(1) nb(1) by auto
  then obtain h where "h \<in> set ?top" by (cases ?top) auto
  from dom [OF this] show "cuda_scores T D nb ! i \<noteq> NaN" by (cases "D ! i ! h") auto
qed

type_synonym cuda_krum_params = "torch \<times> cuda \<times> fl list list \<times> nat \<times> nat"

definition cuda_krum_ok :: "cuda_krum_params \<Rightarrow> bool" where
  "cuda_krum_ok p = (case p of (T, C, rows, f, k) \<Rightarrow>
     topk_inf_ok T \<and> sum_dominates T \<and> distance_kernel_ok C \<and> list_all all_finite rows \<and>
     2 * f + 3 \<le> length rows \<and> k \<le> length rows - f - 2)"

definition cuda_krum_scores :: "cuda_krum_params \<Rightarrow> fl list" where
  "cuda_krum_scores p = (case p of (T, C, rows, f, k) \<Rightarrow> cuda_scores T (c_pairwise_distance_kernel C rows) (length rows - f - 2))"

definition cuda_krum_selected :: "cuda_krum_params \<Rightarrow> nat list" where
  "cuda_krum_selected p = (case p of (T, C, rows, f, k) \<Rightarrow> t_topk_smallest T k (cuda_krum_scores p))"

lemma cuda_krum_okD:
  assumes "cuda_krum_ok (T, C, rows, f, k)"
  shows "2 * f + 3 \<le> length rows" "k \<le> length rows - f - 2"
    "i < length rows \<Longrightarrow> \<exists>N. N \<subseteq> {..<length rows} - {i} \<and> card N = length rows - f - 2 \<and>
       (\<forall>h \<in> N. fl_le (c_pairwise_distance_kernel C rows ! i ! h) (cuda_krum_scores (T, C, rows, f, k) ! i))"
    "length (cuda_krum_selected (T, C, rows, f, k)) = k" "distinct (cuda_krum_selected (T, C, rows, f, k))"
    "set (cuda_krum_selected (T, C, rows, f, k)) \<subseteq> {..<length rows}"
    "i \<in> set (cuda_krum_selected (T, C, rows, f, k)) \<Longrightarrow> j < length rows \<Longrightarrow> j \<notin> set (cuda_krum_selected (T, C, rows, f, k)) \<Longrightarrow>
       fl_le (cuda_krum_scores (T, C, rows, f, k) ! i) (cuda_krum_scores (T, C, rows, f, k) ! j)"
proof -
  let ?D = "c_pairwise_distance_kernel C rows" and ?n = "length rows" and ?p = "(T, C, rows, f, k)"
  have h: "topk_inf_ok T" "sum_dominates T" "0 < ?n - f - 2" "?n - f - 2 < ?n - 1"
    using assms by (auto simp: cuda_krum_ok_def)
  show le: "2 * f + 3 \<le> ?n" "k \<le> ?n - f - 2" using assms by (simp_all add: cuda_krum_ok_def)
  have D: "length ?D = ?n" "\<forall>r \<in> set ?D. length r = ?n \<and> (\<forall>d \<in> set r. is_fin d \<and> 0 \<le> val d)"
    using assms unfolding cuda_krum_ok_def distance_kernel_ok_def by auto
  note nbs = cuda_score_neighbours [OF h(1,2) D _ h(3,4)]
  have s: "cuda_krum_scores ?p = cuda_scores T ?D (?n - f - 2)" by (simp add: cuda_krum_scores_def)
  have sl: "length (cuda_krum_scores ?p) = ?n" using D(1) by (simp add: s cuda_scores_def fill_diagonal_def)
  show "\<exists>N. N \<subseteq> {..<?n} - {i} \<and> card N = ?n - f - 2 \<and> (\<forall>h \<in> N. fl_le (?D ! i ! h) (cuda_krum_scores ?p ! i))" if "i < ?n"
    using nbs(2) [OF that] unfolding s .
  have "NaN \<notin> set (cuda_krum_scores ?p)" using nbs(1) sl unfolding s by (metis in_set_conv_nth)
  moreover have "k \<le> length (cuda_krum_scores ?p)" using le(2) sl by linarith
  ultimately have top: "length (t_topk_smallest T k (cuda_krum_scores ?p)) = k" "distinct (t_topk_smallest T k (cuda_krum_scores ?p))"
      "set (t_topk_smallest T k (cuda_krum_scores ?p)) \<subseteq> {..<?n}"
      "\<And>i j. i \<in> set (t_topk_smallest T k (cuda_krum_scores ?p)) \<Longrightarrow> j < ?n \<Longrightarrow>
         j \<notin> set (t_topk_smallest T k (cuda_krum_scores ?p)) \<Longrightarrow> fl_le (cuda_krum_scores ?p ! i) (cuda_krum_scores ?p ! j)"
    using topk_inf_okD [OF h(1), of k "cuda_krum_scores ?p"] sl by simp_all
  have e: "cuda_krum_selected ?p = t_topk_smallest T k (cuda_krum_scores ?p)" by (simp add: cuda_krum_selected_def)
  show "length (cuda_krum_selected ?p) = k" "distinct (cuda_krum_selected ?p)" "set (cuda_krum_selected ?p) \<subseteq> {..<?n}"
    unfolding e by (rule top)+
  show "fl_le (cuda_krum_scores ?p ! i) (cuda_krum_scores ?p ! j)"
    if "i \<in> set (cuda_krum_selected ?p)" "j < ?n" "j \<notin> set (cuda_krum_selected ?p)"
    using top(4) that unfolding e by blast
qed

interpretation device_krum: krum_scheme "\<lambda>(T, C, rows, f, k). length rows" "\<lambda>(T, C, rows, f, k). f"
  "\<lambda>(T, C, rows, f, k) i h. c_pairwise_distance_kernel C rows ! i ! h" "\<lambda>p i. cuda_krum_scores p ! i"
  cuda_krum_selected cuda_krum_ok
proof unfold_locales
  fix p :: cuda_krum_params and i
  assume "cuda_krum_ok p"
  moreover obtain T C rows f k where p: "p = (T, C, rows, f, k)" by (cases p)
  ultimately have ok: "cuda_krum_ok (T, C, rows, f, k)" by simp
  note d = cuda_krum_okD [OF ok]
  show "2 * (case p of (T, C, rows, f, k) \<Rightarrow> f) + 3 \<le> (case p of (T, C, rows, f, k) \<Rightarrow> length rows)" using d(1) p by simp
  show "\<exists>N. N \<subseteq> {..<case p of (T, C, rows, f, k) \<Rightarrow> length rows} - {i} \<and>
      card N = (case p of (T, C, rows, f, k) \<Rightarrow> length rows) - (case p of (T, C, rows, f, k) \<Rightarrow> f) - 2 \<and>
      (\<forall>h \<in> N. fl_le ((case p of (T, C, rows, f, k) \<Rightarrow> \<lambda>i h. c_pairwise_distance_kernel C rows ! i ! h) i h) (cuda_krum_scores p ! i))"
    if "i < (case p of (T, C, rows, f, k) \<Rightarrow> length rows)"
    using d(3) [of i] that unfolding p by simp
  show "distinct (cuda_krum_selected p) \<and>
      set (cuda_krum_selected p) \<subseteq> {..<case p of (T, C, rows, f, k) \<Rightarrow> length rows} \<and>
      length (cuda_krum_selected p) \<le> (case p of (T, C, rows, f, k) \<Rightarrow> length rows) - (case p of (T, C, rows, f, k) \<Rightarrow> f) - 2 \<and>
      (\<forall>i \<in> set (cuda_krum_selected p). \<forall>j \<in> {..<case p of (T, C, rows, f, k) \<Rightarrow> length rows} - set (cuda_krum_selected p).
        fl_le (cuda_krum_scores p ! i) (cuda_krum_scores p ! j))"
    using d(2,4,5,6) d(7) unfolding p by simp
qed

lemma cuda_prepare_loop_Inr:
  "cuda_prepare_loop validate reference (map PyTensor us) = Inr ts \<Longrightarrow>
   ts = us \<and> (\<forall>u \<in> set us. tshape u = tshape reference \<and> tdtype u = Float32 \<and> (validate \<longrightarrow> all_finite (tdata u)))"
  by (induction us arbitrary: ts) (auto simp: res_simps split: if_split_asm)

lemma cuda_prepare_updates_Inr:
  assumes "cuda_prepare_updates A (map PyTensor us) = Inr p"
  shows "us \<noteq> []" "cp_updates p = us" "cp_reference p = hd us" "cp_dimension p = numel (hd us)" "numel (hd us) \<noteq> 0"
    "cu_validate_finite A \<Longrightarrow> list_all all_finite (map tdata us)"
proof -
  obtain u vs where us: "us = u # vs" using assms by (cases us) (auto simp: cuda_prepare_updates_def)
  obtain ts where ts: "cuda_prepare_loop (cu_validate_finite A) u (map PyTensor us) = Inr ts"
      and p: "p = \<lparr>cp_updates = ts, cp_reference = u, cp_dimension = numel u\<rparr>" "numel u \<noteq> 0"
    using assms by (auto simp: cuda_prepare_updates_def us res_simps split: if_split_asm simp del: cuda_prepare_loop.simps)
  note l = cuda_prepare_loop_Inr [OF ts]
  then show "us \<noteq> []" "cp_updates p = us" "cp_reference p = hd us" "cp_dimension p = numel (hd us)" "numel (hd us) \<noteq> 0"
    using p us by simp_all
  show "list_all all_finite (map tdata us)" if "cu_validate_finite A" using l that by (simp add: list_all_iff)
qed

text \<open>
  Krum and Multi-Krum of the CUDA wrapper select the requested number of distinct clients, each within the
  Krum score of an honest client of another honest client's update: the diagonal of the distance matrix is set
  to infinity before the nearest neighbours are taken, so no client counts its distance to itself. The result is
  the mean of the selected updates, on the device, in the shape of the first update.
\<close>

theorem cuda_krum_byzantine_robust:
  assumes T: "topk_inf_ok T" "sum_dominates T" "distance_kernel_ok C" and A: "cu_validate_finite A"
    and out: "cuda_aggregate T C A (map PyTensor updates) method f k beta = Inr out" "method \<in> {''krum'', ''multi_krum''}"
    and byz: "byzantine honest updates \<le> nat f"
  shows "\<exists>sel. int (length sel) = (if method = ''krum'' then 1 else k) \<and> distinct sel \<and> set sel \<subseteq> {..<length updates} \<and>
    tdata out = along_dim0 float_mean (numel (hd updates)) (map (\<lambda>i. tdata (updates ! i)) sel) \<and>
    tshape out = tshape (hd updates) \<and> tdevice out = tdevice (hd updates) \<and>
    (\<forall>i \<in> set sel. \<exists>h h'. h \<in> honest \<and> h' \<in> honest \<and> h < length updates \<and> h' < length updates \<and> h \<noteq> i \<and>
       fl_le (c_pairwise_distance_kernel C (map tdata updates) ! i ! h)
         (cuda_scores T (c_pairwise_distance_kernel C (map tdata updates)) (length updates - nat f - 2) ! h'))"
proof -
  define k' where "k' = (if method = ''krum'' then 1 else k)"
  have kr: "cuda_krum T C A (map PyTensor updates) f k' = Inr out" using out by (auto simp: cuda_aggregate_def k'_def)
  then obtain p where p: "cuda_prepare_updates A (map PyTensor updates) = Inr p"
    by (cases "cuda_prepare_updates A (map PyTensor updates)") (auto simp: cuda_krum_def)
  note pr = cuda_prepare_updates_Inr [OF p]
  let ?rows = "map tdata updates" and ?n = "length updates"
  let ?D = "c_pairwise_distance_kernel C ?rows" let ?q = "(T, C, ?rows, nat f, nat k')"
  have g: "0 \<le> f" "2 * f + 3 \<le> int ?n" "0 < k'" "k' \<le> int ?n - f - 2"
    using kr unfolding cuda_krum_def p by (auto simp: pr Let_def split: if_split_asm)
  have nb: "nat (int ?n - f - 2) = ?n - nat f - 2" using g by simp
  have ok: "cuda_krum_ok ?q" using T g pr(6) [OF A] by (auto simp: cuda_krum_ok_def)
  have sel: "cuda_krum_selected ?q = t_topk_smallest T (nat k') (cuda_scores T ?D (?n - nat f - 2))"
    by (simp add: cuda_krum_selected_def cuda_krum_scores_def)
  note sch = device_krum.selects [OF ok, simplified]
  have len: "length (cuda_krum_selected ?q) = nat k'" by (rule cuda_krum_okD(4) [OF ok])
  then have ne: "cuda_krum_selected ?q \<noteq> []" using g(3) by auto
  have o: "out = (hd updates)\<lparr>tdata := along_dim0 float_mean (numel (hd updates)) (map (\<lambda>i. ?rows ! i) (cuda_krum_selected ?q))\<rparr>"
    using kr g ne pr(1,5) unfolding cuda_krum_def p sel
    by (simp add: pr(2,3,4) Let_def launch_pairwise_distances_def launch_average_selected_def nb)
  have m: "map (\<lambda>i. ?rows ! i) (cuda_krum_selected ?q) = map (\<lambda>i. tdata (updates ! i)) (cuda_krum_selected ?q)"
    using sch by auto
  have "\<forall>i \<in> set (cuda_krum_selected ?q). \<exists>h h'. h \<in> honest \<and> h' \<in> honest \<and> h < ?n \<and> h' < ?n \<and> h \<noteq> i \<and>
       fl_le (?D ! i ! h) (cuda_scores T ?D (?n - nat f - 2) ! h')"
    using device_krum.near_honest [OF ok, of honest] byz by (simp add: byzantine_def cuda_krum_scores_def)
  then show ?thesis using sch len g(3) o m unfolding k'_def [symmetric]
    by (intro exI [of _ "cuda_krum_selected ?q"]) simp
qed


definition torch_device :: torch where
  "torch_device = torch_exact\<lparr>t_topk_smallest := \<lambda>k xs. partial_sort (score_order xs) k [0..<length xs]\<rparr>"

definition cuda_example :: cuda where
  "cuda_example = \<lparr>c_pairwise_distance_kernel = exact_cdist2, c_trimmed_mean_kernel = (\<lambda>rows trim. []), c_runtime_version = Inr 12040\<rparr>"

lemma topk_inf_ok_device: "topk_inf_ok torch_device"
  unfolding topk_inf_ok_def torch_device_def using score_order_least by simp

lemma cuda_example_ok: "sum_dominates torch_device" "distance_kernel_ok cuda_example"
  using sum_dominates_exact cdist_ok_exact
  by (simp_all add: sum_dominates_def torch_device_def distance_kernel_ok_def cuda_example_def cdist_ok_def torch_exact_def)

definition cuda_vector :: "fl list \<Rightarrow> tensor" where
  "cuda_vector xs = (flat_vector xs)\<lparr>tdevice := ''cuda:0''\<rparr>"

definition cuda_aggregator_example :: CudaByzantineAggregator where
  "cuda_aggregator_example =
     \<lparr>cu_native = \<lparr>nm_core = native_example, nm_cuda_enabled = True, nm_cuda_trimmed_mean_max_clients = 1024\<rparr>,
      cu_validate_finite = True\<rparr>"

theorem cuda_krum_byzantine_robust_witness:
  "\<exists>out sel. cuda_aggregate torch_device cuda_example cuda_aggregator_example
       (map PyTensor [cuda_vector [Fin 1], cuda_vector [Fin 1000], cuda_vector [Fin 2], cuda_vector [Fin 1], cuda_vector [Fin 2]])
       ''krum'' 1 1 (Fin 0) = Inr out \<and> length sel = 1 \<and> set sel \<subseteq> {..<5::nat} \<and> tdevice out = ''cuda:0''"
proof -
  let ?us = "[cuda_vector [Fin 1], cuda_vector [Fin 1000], cuda_vector [Fin 2], cuda_vector [Fin 1], cuda_vector [Fin 2]]"
  have v: "cu_validate_finite cuda_aggregator_example" by (simp add: cuda_aggregator_example_def)
  have "cuda_prepare_updates cuda_aggregator_example (map PyTensor ?us) =
      Inr \<lparr>cp_updates = ?us, cp_reference = hd ?us, cp_dimension = 1\<rparr>"
    by (simp add: cuda_prepare_updates_def cuda_vector_def flat_vector_def f32_tensor_def device_type_def numel_def all_finite_def)
  moreover have "t_topk_smallest torch_device 1 xs \<noteq> []" if "xs \<noteq> []" for xs
    using that by (simp add: torch_device_def partial_sort_def sort_by_def) (metis length_greater_0_conv length_sort_by length_upt list.size(3) minus_nat.diff_0 sort_by_def)
  ultimately obtain out where out: "cuda_aggregate torch_device cuda_example cuda_aggregator_example (map PyTensor ?us) ''krum'' 1 1 (Fin 0) = Inr out"
    by (simp add: cuda_aggregate_def cuda_krum_def launch_pairwise_distances_def launch_average_selected_def Let_def
        cuda_scores_def fill_diagonal_def cuda_example_def exact_cdist2_def)
  have "{..<5::nat} - {0, 2, 3, 4} = {1}" by auto
  then have b: "byzantine {0, 2, 3, 4} ?us \<le> nat 1" by (simp add: byzantine_def)
  have m: "''krum'' \<in> {''krum'', ''multi_krum''}" by simp
  obtain sel where "int (length sel) = (if ''krum'' = ''krum'' then 1 else 1)" "set sel \<subseteq> {..<length ?us}" "tdevice out = tdevice (hd ?us)"
    using cuda_krum_byzantine_robust [OF topk_inf_ok_device cuda_example_ok v out m b] by blast
  then show ?thesis using out by (intro exI [of _ out] exI [of _ sel]) (simp add: cuda_vector_def eval_nat_numeral)
qed

end
