(* ===== verification/Coordinator.thy ===== *)
theory Coordinator
  imports Native_Aggregators "HOL-Library.List_Lexorder" "HOL-Library.Char_ord"
begin

text \<open>
  The coordinator of \<open>fl/zerotrust_fl/engine/coordinator.py\<close>: its configuration, client selection, collection of
  results, aggregation, evaluation and the lifecycle of the worker processes.

  What the coordinator sees of the outside is an argument: the results a drain finds, the successive polls of a
  wait, the events of the result queue up to the deadline, which processes are alive at each point. A loop
  bounded by a deadline runs over the finitely many observations it makes before the deadline passes. What the
  coordinator does to the outside (commands put, processes joined or terminated) is recorded in a log.
\<close>

section \<open>Configuration\<close>

record SimulationConfig =
  rounds :: int
  clients_per_round_opt :: "int option"
  client_fraction :: fl
  min_results_opt :: "int option"
  round_timeout_seconds :: fl
  start_method :: string
  sim_seed :: int
  evaluation_batch_size :: int
  evaluation_device :: string

definition default_SimulationConfig :: SimulationConfig where
  "default_SimulationConfig =
     \<lparr>rounds = 5, clients_per_round_opt = None, client_fraction = Fin 1, min_results_opt = None,
      round_timeout_seconds = Fin 120, start_method = ''spawn'', sim_seed = 42, evaluation_batch_size = 256,
      evaluation_device = ''cpu''\<rparr>"

definition SimulationConfig_post_init :: "SimulationConfig \<Rightarrow> unit res" where
  "SimulationConfig_post_init c =
     (if rounds c \<le> 0 then Inl (ValueError ''rounds must be positive'')
      else if (case clients_per_round_opt c of None \<Rightarrow> False | Some n \<Rightarrow> n \<le> 0)
        then Inl (ValueError ''clients_per_round must be positive'')
      else if \<not> (fl_less (Fin 0) (client_fraction c) \<and> fl_le (client_fraction c) (Fin 1))
        then Inl (ValueError ''client_fraction must be in (0, 1]'')
      else if (case min_results_opt c of None \<Rightarrow> False | Some n \<Rightarrow> n \<le> 0)
        then Inl (ValueError ''min_results must be positive'')
      else if fl_le (round_timeout_seconds c) (Fin 0)
        then Inl (ValueError ''round_timeout_seconds must be positive'')
      else if evaluation_batch_size c \<le> 0 then Inl (ValueError ''evaluation_batch_size must be positive'')
      else Inr ())"

record RoundMetrics =
  rm_round_id :: int
  selected_clients :: "string list"
  completed_clients :: "string list"
  failed_clients :: "string list"
  straggler_clients :: "string list"
  malicious_results :: int
  rm_aggregation_backend :: string
  rm_aggregation_method :: string
  mean_client_loss :: fl
  evaluation_loss :: "fl option"
  evaluation_accuracy :: "fl option"
  mitigation_score :: "fl option"
  attack_mitigated :: "bool option"
  round_duration_ms :: int

record SimulationSummary =
  summary_rounds :: "RoundMetrics list"
  attack_mitigation_success_rate :: "fl option"

definition final_accuracy :: "SimulationSummary \<Rightarrow> fl option" where
  "final_accuracy s = (if summary_rounds s = [] then None else evaluation_accuracy (last (summary_rounds s)))"

definition final_loss :: "SimulationSummary \<Rightarrow> fl option" where
  "final_loss s = (if summary_rounds s = [] then None else evaluation_loss (last (summary_rounds s)))"

section \<open>Libraries, plan and state\<close>

text \<open>
  Libraries: PyTorch, the network, the imported extension, \<open>np.mean\<close> of the losses, \<open>rng.choice\<close> without
  replacement (seed, population, size), summed loss and correct predictions of a batch, and the batches of the
  evaluation dataset by batch size, if there is one.
\<close>

record ('m, 'x) world =
  wd_torch :: torch
  wd_nn :: "('m, 'x) nn"
  wd_runtime :: runtime
  wd_np_mean :: "fl list \<Rightarrow> fl"
  wd_choice :: "int \<Rightarrow> string list \<Rightarrow> nat \<Rightarrow> string list"
  wd_eval_batch :: "'m \<Rightarrow> 'x \<Rightarrow> int list \<Rightarrow> fl \<times> int"
  wd_eval_batches :: "(int \<Rightarrow> 'x batch list) option"

definition choice_ok :: "('m, 'x) world \<Rightarrow> bool" where
  "choice_ok W \<longleftrightarrow>
     (\<forall>seed pop k. k \<le> length pop \<longrightarrow> distinct pop \<longrightarrow>
        length (wd_choice W seed pop k) = k \<and> distinct (wd_choice W seed pop k) \<and> set (wd_choice W seed pop k) \<subseteq> set pop)"

definition eval_batch_ok :: "('m, 'x) world \<Rightarrow> bool" where
  "eval_batch_ok W \<longleftrightarrow>
     (\<forall>m x labels. 0 \<le> snd (wd_eval_batch W m x labels) \<and> snd (wd_eval_batch W m x labels) \<le> int (length labels))"

record plan =
  simulation :: SimulationConfig
  aggregation :: AggregationConfig
  worker_specs :: "WorkerSpec list"

definition node_ids :: "plan \<Rightarrow> string list" where
  "node_ids P = map (\<lambda>spec. node_id (spec_config spec)) (worker_specs P)"

datatype effect = Put string command | Join string | Terminate string

record 'm coordinator =
  co_model :: 'm
  busy_round :: "string \<rightharpoonup> int"
  processes :: "string list"        \<comment> \<open>the keys of \<open>_processes\<close> and \<open>_command_queues\<close>\<close>
  co_started :: bool
  co_closed :: bool
  co_log :: "effect list"

section \<open>Round counts\<close>

definition clients_per_round :: "plan \<Rightarrow> int res" where
  "clients_per_round P =
     (let total_workers = int (length (worker_specs P)) in
      case clients_per_round_opt (simulation P) of
        Some n \<Rightarrow> Inr (min total_workers n)
      | None \<Rightarrow>
          res_bind (py_int_float total_workers) (\<lambda>t.
          res_bind (py_ceil (py_mul t (client_fraction (simulation P)))) (\<lambda>c. Inr (max 1 c))))"

definition min_results_for :: "plan \<Rightarrow> int \<Rightarrow> int res" where
  "min_results_for P selected_count =
     (case min_results_opt (simulation P) of
        None \<Rightarrow> Inr selected_count
      | Some configured \<Rightarrow>
          if configured > selected_count
            then Inl (ValueError ''min_results cannot exceed clients selected per round'')
          else Inr configured)"

definition validate_round_counts :: "plan \<Rightarrow> unit res" where
  "validate_round_counts P =
     res_bind (clients_per_round P) (\<lambda>selected.
     res_bind (min_results_for P selected) (\<lambda>minimum.
       let c = aggregation P;
           krum_check =
             (if agg_method c \<in> {''krum'', ''multi_krum''} then
                if minimum < 2 * agg_f c + 3 then Inl (ValueError ''Krum requires min_results >= 2*f + 3'')
                else if (if agg_method c = ''krum'' then 1 else agg_k c) > minimum - agg_f c - 2
                  then Inl (ValueError ''Multi-Krum k cannot exceed clients_per_round - f - 2'')
                else Inr ()
              else Inr ())
       in res_bind krum_check (\<lambda>_.
          if agg_method c = ''trimmed_mean'' then
            res_bind (py_int_float minimum) (\<lambda>m.
            res_bind (py_floor (py_mul (agg_beta c) m)) (\<lambda>trim.
              if 2 * trim \<ge> minimum then Inl (ValueError ''trimmed mean would remove every client update'')
              else Inr ()))
          else Inr ())))"

definition coordinator_init ::
  "('m, 'x) world \<Rightarrow> (string \<Rightarrow> string \<Rightarrow> (string \<times> kwarg) list \<Rightarrow> 'm factory_result res) \<Rightarrow> ModelSpec \<Rightarrow> plan \<Rightarrow> 'm coordinator res" where
  "coordinator_init W call_factory model_spec P =
     (if worker_specs P = [] then Inl (ValueError ''at least one worker is required'')
      else if \<not> distinct (node_ids P) then Inl (ValueError ''worker node IDs must be unique'')
      else if list_ex (\<lambda>spec. sample_indices spec = []) (worker_specs P)
        then Inl (ValueError ''every worker must own at least one sample'')
      else res_bind (build_model call_factory model_spec) (\<lambda>model.
        if list_ex (\<lambda>n. n \<noteq> 0) (nn_buffers (wd_nn W) model)
          then Inl (ValueError ''models with registered buffers are not supported'')
        else res_bind (parameter_vector (wd_nn W) model) (\<lambda>_.
             res_bind (validate_round_counts P) (\<lambda>_.
               Inr \<lparr>co_model = model, busy_round = Map.empty, processes = [], co_started = False,
                    co_closed = False, co_log = []\<rparr>))))"

section \<open>Lifecycle\<close>

definition processes_alive :: "(string \<Rightarrow> bool) \<Rightarrow> 'm coordinator \<Rightarrow> nat" where
  "processes_alive is_alive s = length (filter is_alive (processes s))"

definition start :: "plan \<Rightarrow> 'm coordinator \<Rightarrow> 'm coordinator \<times> unit res" where
  "start P s =
     (if co_closed s then (s, Inl (RuntimeError ''coordinator has already been closed''))
      else if co_started s then (s, Inr ())
      else (s\<lparr>processes := node_ids P, co_started := True\<rparr>, Inr ()))"

text \<open>Which command queues are full at the stop, and which processes outlive the grace period.\<close>

record close_env =
  ce_full :: "string \<Rightarrow> bool"
  ce_alive_after_join :: "string \<Rightarrow> bool"

definition close :: "close_env \<Rightarrow> 'm coordinator \<Rightarrow> 'm coordinator" where
  "close E s =
     (if co_closed s then s
      else s\<lparr>busy_round := Map.empty, co_closed := True,
             co_log := co_log s @ map (\<lambda>n. Put n Stop) (filter (\<lambda>n. \<not> ce_full E n) (processes s)) @
               concat (map (\<lambda>n. if ce_alive_after_join E n then [Join n, Terminate n, Join n] else [Join n]) (processes s))\<rparr>)"

section \<open>Selecting clients\<close>

text \<open>\<open>_drain_completed_results\<close>: every result found frees its worker.\<close>

definition drain_completed_results :: "WorkerResult list \<Rightarrow> (string \<rightharpoonup> int) \<Rightarrow> (string \<rightharpoonup> int)" where
  "drain_completed_results found busy = foldl (\<lambda>b r. b(r_node_id r := None)) busy found"

text \<open>One pass of the waiting loop: what is drained, and which processes answer \<open>is_alive()\<close> in each scan.\<close>

record poll =
  po_drained :: "WorkerResult list"
  po_alive :: "string \<Rightarrow> bool"
  po_alive_later :: "string \<Rightarrow> bool"

definition available_at :: "plan \<Rightarrow> (string \<rightharpoonup> int) \<Rightarrow> (string \<Rightarrow> bool) \<Rightarrow> string list" where
  "available_at P busy is_alive = filter (\<lambda>n. busy n = None \<and> is_alive n) (node_ids P)"

text \<open>The polls before the deadline, and the first one after it.\<close>

fun wait_loop :: "plan \<Rightarrow> int \<Rightarrow> int \<Rightarrow> poll list \<Rightarrow> poll \<Rightarrow> (string \<rightharpoonup> int) \<Rightarrow> (string \<rightharpoonup> int) \<times> string list res" where
  "wait_loop P required minimum polls late busy =
     (let p = (case polls of [] \<Rightarrow> late | q # _ \<Rightarrow> q);
          busy' = drain_completed_results (po_drained p) busy;
          available = available_at P busy' (po_alive p);
          possible = length (worker_specs P) - length (filter (\<lambda>n. \<not> po_alive_later p n) (node_ids P))
      in if int (length available) \<ge> required then (busy', Inr available)
         else if int possible < minimum then (busy', Inl (RuntimeError ''live workers below required quorum''))
         else (case polls of
                 [] \<Rightarrow> if int (length available) \<ge> minimum then (busy', Inr available)
                       else (busy', Inl (RuntimeError ''available workers below quorum''))
               | q # rest \<Rightarrow> wait_loop P required minimum rest late busy'))"

declare wait_loop.simps [simp del]

definition wait_for_available ::
  "plan \<Rightarrow> int \<Rightarrow> int option \<Rightarrow> poll list \<Rightarrow> poll \<Rightarrow> (string \<rightharpoonup> int) \<Rightarrow> (string \<rightharpoonup> int) \<times> string list res" where
  "wait_for_available P required minimum polls late busy =
     (let m = (case minimum of None \<Rightarrow> required | Some k \<Rightarrow> k) in
      if m \<le> 0 \<or> m > required
        then (busy, Inl (ValueError ''minimum available workers must satisfy 1 <= minimum <= required''))
      else wait_loop P required m polls late busy)"

definition select_clients ::
  "('m, 'x) world \<Rightarrow> plan \<Rightarrow> int \<Rightarrow> poll list \<Rightarrow> poll \<Rightarrow> (string \<rightharpoonup> int) \<Rightarrow> (string \<rightharpoonup> int) \<times> string list res" where
  "select_clients W P round_id polls late busy =
     (case clients_per_round P of
        Inl e \<Rightarrow> (busy, Inl e)
      | Inr required \<Rightarrow>
          (case min_results_for P required of
             Inl e \<Rightarrow> (busy, Inl e)
           | Inr minimum \<Rightarrow>
               (case wait_for_available P required (Some minimum) polls late busy of
                  (busy', Inl e) \<Rightarrow> (busy', Inl e)
                | (busy', Inr available) \<Rightarrow>
                    (busy', Inr (wd_choice W (sim_seed (simulation P) + round_id * 65537) available
                                   (nat (min required (int (length available)))))))))"

section \<open>Collecting results\<close>

text \<open>A \<open>get\<close> on the result queue: a result, or \<open>queue.Empty\<close> with the processes alive at that moment.\<close>

datatype qevent = Got WorkerResult | QEmpty "string \<Rightarrow> bool"

record cstate =
  cs_busy :: "string \<rightharpoonup> int"
  cs_results :: "WorkerResult list"
  cs_failures :: "string set"
  cs_observed :: "string set"

definition dead_unobserved_workers :: "(string \<Rightarrow> bool) \<Rightarrow> string set \<Rightarrow> string set \<Rightarrow> string set" where
  "dead_unobserved_workers is_alive selected observed = Set.filter (\<lambda>n. \<not> is_alive n) (selected - observed)"

definition raise_if_required_workers_died :: "(string \<Rightarrow> bool) \<Rightarrow> string set \<Rightarrow> string set \<Rightarrow> unit res" where
  "raise_if_required_workers_died is_alive selected observed =
     (if dead_unobserved_workers is_alive selected observed \<noteq> {}
      then Inl (RuntimeError ''worker process exited before returning a result'') else Inr ())"

definition hopeless :: "string set \<Rightarrow> int \<Rightarrow> cstate \<Rightarrow> bool" where
  "hopeless selected min_results st \<longleftrightarrow>
     int (length (cs_results st)) + (int (card selected) - int (card (cs_observed st))) < min_results"

definition on_empty :: "string set \<Rightarrow> (string \<Rightarrow> bool) \<Rightarrow> cstate \<Rightarrow> cstate" where
  "on_empty selected is_alive st =
     (let dead = dead_unobserved_workers is_alive selected (cs_observed st)
      in st\<lparr>cs_failures := cs_failures st \<union> dead, cs_observed := cs_observed st \<union> dead,
            cs_busy := (\<lambda>n. if n \<in> dead then None else cs_busy st n)\<rparr>)"

definition on_result :: "WorkerResult \<Rightarrow> cstate \<Rightarrow> cstate" where
  "on_result r st =
     (let st' = st\<lparr>cs_observed := insert (r_node_id r) (cs_observed st)\<rparr>
      in if succeeded r then st'\<lparr>cs_results := cs_results st @ [r]\<rparr>
         else st'\<lparr>cs_failures := insert (r_node_id r) (cs_failures st)\<rparr>)"

text \<open>The events are those before the deadline.\<close>

fun collect_loop :: "int \<Rightarrow> string set \<Rightarrow> int \<Rightarrow> qevent list \<Rightarrow> cstate \<Rightarrow> cstate" where
  "collect_loop round_id selected min_results [] st = st"
| "collect_loop round_id selected min_results (ev # evs) st =
     (if \<not> card (cs_observed st) < card selected then st
      else case ev of
        QEmpty is_alive \<Rightarrow>
          let st' = on_empty selected is_alive st
          in if hopeless selected min_results st' then st'
             else collect_loop round_id selected min_results evs st'
      | Got r \<Rightarrow>
          let st1 = st\<lparr>cs_busy := (cs_busy st)(r_node_id r := None)\<rparr> in
          if r_round_id r \<noteq> round_id \<or> r_node_id r \<notin> selected then collect_loop round_id selected min_results evs st1
          else if r_node_id r \<in> cs_observed st then collect_loop round_id selected min_results evs st1
          else
            let st2 = on_result r st1 in
            if int (length (cs_results st2)) \<ge> min_results then st2
            else if hopeless selected min_results st2 then st2
            else collect_loop round_id selected min_results evs st2)"

definition collect_round_results :: "int \<Rightarrow> string set \<Rightarrow> int \<Rightarrow> qevent list \<Rightarrow> (string \<rightharpoonup> int) \<Rightarrow> cstate" where
  "collect_round_results round_id selected min_results events busy =
     collect_loop round_id selected min_results events
       \<lparr>cs_busy = busy, cs_results = [], cs_failures = {}, cs_observed = {}\<rparr>"

section \<open>Aggregating and evaluating\<close>

definition coordinator_aggregate :: "('m, 'x) world \<Rightarrow> plan \<Rightarrow> tensor list \<Rightarrow> (tensor \<times> string) res" where
  "coordinator_aggregate W P updates =
     (let c = aggregation P; R = wd_runtime W in
      if updates = [] then Inl (ValueError ''cannot aggregate an empty update list'')
      else if agg_method c = ''mean'' then
        (if list_ex (\<lambda>u. tshape u \<noteq> tshape (hd updates)) updates
           then Inl (RuntimeError ''stack expects each tensor to be equal size'')
         else Inr (f32_tensor (tshape (hd updates)) (along_dim0 (t_mean (wd_torch W)) (numel (hd updates)) (map tdata updates)),
                   ''torch''))
      else if agg_backend c = ''native'' \<and> \<not> native_extension_available R
        then Inl (RuntimeError ''native aggregation backend requested but zerotrust_fl_cpp is unavailable'')
      else if agg_backend c = ''native'' \<or> agg_backend c = ''auto'' \<and> native_extension_available R then
        res_bind (CppByzantineAggregator_init R False False True) (\<lambda>native.
        res_bind (cpp_aggregate native (map PyTensor updates) (agg_method c) (agg_f c) (agg_k c) (agg_beta c)) (\<lambda>result.
          Inr (cpu_float result, ''native'')))
      else res_bind (torch_aggregate (wd_torch W) c updates) (\<lambda>result. Inr (result, ''torch'')))"

fun eval_loop :: "('m, 'x) world \<Rightarrow> 'm \<Rightarrow> 'x batch list \<Rightarrow> fl \<Rightarrow> int \<Rightarrow> int \<Rightarrow> (fl \<times> int \<times> int) res" where
  "eval_loop W model [] total_loss total_correct total_examples = Inr (total_loss, total_correct, total_examples)"
| "eval_loop W model (BadBatch # bs) total_loss total_correct total_examples =
     Inl (TypeError ''evaluation dataset must return (inputs, labels)'')"
| "eval_loop W model (Batch x labels # bs) total_loss total_correct total_examples =
     (case wd_eval_batch W model x labels of
        (loss, correct) \<Rightarrow>
          eval_loop W model bs (py_add total_loss loss) (total_correct + correct) (total_examples + int (length labels)))"

definition evaluate :: "('m, 'x) world \<Rightarrow> plan \<Rightarrow> 'm \<Rightarrow> (fl option \<times> fl option) res" where
  "evaluate W P model =
     (case wd_eval_batches W of
        None \<Rightarrow> Inr (None, None)
      | Some loader \<Rightarrow>
          res_bind (eval_loop W model (loader (evaluation_batch_size (simulation P))) (Fin 0) 0 0)
            (\<lambda>(total_loss, total_correct, total_examples).
              if total_examples = 0 then Inr (Some NaN, Some NaN)
              else res_bind (py_int_float total_examples) (\<lambda>n.
                   res_bind (py_div total_loss n) (\<lambda>loss.
                   res_bind (py_truediv total_correct total_examples) (\<lambda>accuracy. Inr (Some loss, Some accuracy))))))"

section \<open>A round and a run\<close>

record round_env =
  e_drained :: "WorkerResult list"
  e_polls :: "poll list"
  e_late :: poll
  e_events :: "qevent list"
  e_duration_ms :: int

text \<open>The training commands put for the selected clients.\<close>

definition dispatch :: "int \<Rightarrow> tensor \<Rightarrow> string list \<Rightarrow> 'm coordinator \<Rightarrow> 'm coordinator" where
  "dispatch round_id global_parameters selected s =
     foldl (\<lambda>s n. s\<lparr>co_log := co_log s @ [Put n (Train \<lparr>cmd_round_id = round_id, cmd_global_parameters = PyTensor global_parameters\<rparr>)],
                     busy_round := (busy_round s)(n \<mapsto> round_id)\<rparr>) s selected"

definition round_metrics ::
  "('m, 'x) world \<Rightarrow> plan \<Rightarrow> int \<Rightarrow> int \<Rightarrow> string list \<Rightarrow> WorkerResult list \<Rightarrow> string set \<Rightarrow> string \<Rightarrow>
   fl option \<times> fl option \<Rightarrow> fl option \<times> bool option \<Rightarrow> RoundMetrics" where
  "round_metrics W P round_id duration selected results failures backend_used evaluation mitigation =
     (let completed = map r_node_id results;
          failed = sorted_list_of_set failures;
          stragglers = sort (filter (\<lambda>n. n \<notin> set completed \<union> set failed) selected)
      in \<lparr>rm_round_id = round_id, selected_clients = selected, completed_clients = completed, failed_clients = failed,
          straggler_clients = stragglers, malicious_results = int (length (filter r_malicious results)),
          rm_aggregation_backend = backend_used, rm_aggregation_method = agg_method (aggregation P),
          mean_client_loss = wd_np_mean W (map r_loss results), evaluation_loss = fst evaluation,
          evaluation_accuracy = snd evaluation, mitigation_score = fst mitigation, attack_mitigated = snd mitigation,
          round_duration_ms = duration\<rparr>)"

text \<open>From the collected results to the metrics: aggregation, the new model, evaluation.\<close>

definition finish_coordinator_round ::
  "('m, 'x) world \<Rightarrow> plan \<Rightarrow> int \<Rightarrow> int \<Rightarrow> string list \<Rightarrow> WorkerResult list \<Rightarrow> string set \<Rightarrow> 'm coordinator \<Rightarrow>
   'm coordinator \<times> RoundMetrics res" where
  "finish_coordinator_round W P round_id duration selected results failures s =
     (case (if agg_method (aggregation P) = ''mean''
            then res_bind (weighted_fedavg (wd_torch W) results) (\<lambda>a. Inr (a, ''torch''))
            else coordinator_aggregate W P (concat (map (\<lambda>r. case r_update r of None \<Rightarrow> [] | Some u \<Rightarrow> [u]) results))) of
        Inl e \<Rightarrow> (s, Inl e)
      | Inr (aggregated, backend_used) \<Rightarrow>
          (case apply_parameter_delta (wd_nn W) (co_model s) (PyTensor aggregated) of
             Inl e \<Rightarrow> (s, Inl e)
           | Inr model \<Rightarrow>
               let s' = s\<lparr>co_model := model\<rparr> in
               (case evaluate W P model of
                  Inl e \<Rightarrow> (s', Inl e)
                | Inr evaluation \<Rightarrow>
                    (case attack_mitigation_metrics (wd_torch W) results aggregated of
                       Inl e \<Rightarrow> (s', Inl e)
                     | Inr mitigation \<Rightarrow>
                         (s', Inr (round_metrics W P round_id duration selected results failures backend_used evaluation mitigation))))))"

text \<open>The part of a round after the commands are put.\<close>

definition await_round ::
  "('m, 'x) world \<Rightarrow> plan \<Rightarrow> round_env \<Rightarrow> int \<Rightarrow> string list \<Rightarrow> 'm coordinator \<Rightarrow> 'm coordinator \<times> RoundMetrics res" where
  "await_round W P E round_id selected s =
     (case min_results_for P (int (length selected)) of
        Inl e \<Rightarrow> (s, Inl e)
      | Inr min_results \<Rightarrow>
          let c = collect_round_results round_id (set selected) min_results (e_events E) (busy_round s);
              s' = s\<lparr>busy_round := cs_busy c\<rparr>
          in if int (length (cs_results c)) < min_results
               then (s', Inl (TimeoutError ''round received fewer than the required successful results''))
             else finish_coordinator_round W P round_id (e_duration_ms E) selected (cs_results c) (cs_failures c) s')"

definition run_round :: "('m, 'x) world \<Rightarrow> plan \<Rightarrow> round_env \<Rightarrow> int \<Rightarrow> 'm coordinator \<Rightarrow> 'm coordinator \<times> RoundMetrics res" where
  "run_round W P E round_id s =
     (case select_clients W P round_id (e_polls E) (e_late E) (drain_completed_results (e_drained E) (busy_round s)) of
        (busy, Inl e) \<Rightarrow> (s\<lparr>busy_round := busy\<rparr>, Inl e)
      | (busy, Inr selected) \<Rightarrow>
          (case parameter_vector (wd_nn W) (co_model s) of
             Inl e \<Rightarrow> (s\<lparr>busy_round := busy\<rparr>, Inl e)
           | Inr vector \<Rightarrow>
               await_round W P E round_id selected
                 (dispatch round_id (cpu_float vector) selected (s\<lparr>busy_round := busy\<rparr>))))"

fun run_rounds ::
  "('m, 'x) world \<Rightarrow> plan \<Rightarrow> (int \<Rightarrow> round_env) \<Rightarrow> int list \<Rightarrow> RoundMetrics list \<Rightarrow> 'm coordinator \<Rightarrow>
   'm coordinator \<times> RoundMetrics list res" where
  "run_rounds W P envs [] history s = (s, Inr history)"
| "run_rounds W P envs (round_id # ids) history s =
     (case run_round W P (envs round_id) round_id s of
        (s', Inl e) \<Rightarrow> (s', Inl e)
      | (s', Inr metrics) \<Rightarrow> run_rounds W P envs ids (history @ [metrics]) s')"

definition success_rate :: "RoundMetrics list \<Rightarrow> fl option res" where
  "success_rate history =
     (let attacked = concat (map (\<lambda>m. case attack_mitigated m of None \<Rightarrow> [] | Some b \<Rightarrow> [b]) history)
      in if attacked = [] then Inr None
         else res_bind (py_truediv (int (length (filter (\<lambda>b. b) attacked))) (int (length attacked))) (\<lambda>r. Inr (Some r)))"

definition run ::
  "('m, 'x) world \<Rightarrow> plan \<Rightarrow> (int \<Rightarrow> round_env) \<Rightarrow> close_env \<Rightarrow> 'm coordinator \<Rightarrow> 'm coordinator \<times> SimulationSummary res" where
  "run W P envs CE s =
     (case start P s of
        (s1, Inl e) \<Rightarrow> (s1, Inl e)
      | (s1, Inr _) \<Rightarrow>
          (case run_rounds W P envs [1..rounds (simulation P)] [] s1 of
             (s2, Inl e) \<Rightarrow> (close CE s2, Inl e)
           | (s2, Inr history) \<Rightarrow>
               (close CE s2, res_bind (success_rate history) (\<lambda>rate.
                  Inr \<lparr>summary_rounds = history, attack_mitigation_success_rate = rate\<rparr>))))"


section \<open>Configurations\<close>

definition wf_SimulationConfig :: "SimulationConfig \<Rightarrow> bool" where
  "wf_SimulationConfig c \<longleftrightarrow>
     0 < rounds c \<and> (\<forall>n. clients_per_round_opt c = Some n \<longrightarrow> 0 < n) \<and>
     fl_less (Fin 0) (client_fraction c) \<and> fl_le (client_fraction c) (Fin 1) \<and>
     (\<forall>n. min_results_opt c = Some n \<longrightarrow> 0 < n) \<and> \<not> fl_le (round_timeout_seconds c) (Fin 0) \<and>
     0 < evaluation_batch_size c"

interpretation simulation_config: validated_record SimulationConfig_post_init wf_SimulationConfig
  by unfold_locales
    (auto simp: SimulationConfig_post_init_def wf_SimulationConfig_def not_le split: option.splits)

text \<open>
  With a validated configuration the number of clients asked for each round lies between 1 and the number
  of workers, and \<open>client_fraction\<close> rounds up: no fraction in (0, 1] ever asks for no client or for more than
  there are, in binary64 arithmetic.
\<close>

theorem clients_per_round_bounds:
  assumes c: "wf_SimulationConfig (simulation P)" and n: "worker_specs P \<noteq> []" "length (worker_specs P) < 2 ^ 53"
  shows "\<exists>k. clients_per_round P = Inr k \<and> 1 \<le> k \<and> k \<le> int (length (worker_specs P))"
proof (cases "clients_per_round_opt (simulation P)")
  case (Some k)
  then show ?thesis using c n by (auto simp: clients_per_round_def Let_def wf_SimulationConfig_def Suc_le_eq)
next
  case None
  let ?n = "int (length (worker_specs P))"
  have nn: "1 \<le> ?n" using n(1) by (cases "worker_specs P") auto
  have "py_float ?n = Fin (of_int ?n)" using n(2) by (intro py_float_small) simp
  then have t: "py_int_float ?n = Inr (Fin (of_int ?n))" by (simp add: py_int_float_def)
  obtain q where q: "client_fraction (simulation P) = Fin q" "0 < q" "q \<le> 1"
    using c by (cases "client_fraction (simulation P)") (auto simp: wf_SimulationConfig_def)
  have rep: "representable binary64 0" "representable binary64 (of_int ?n)"
    using n(2) representable_int [of ?n binary64] by (simp_all add: representable_zero, simp add: binary64_def)
  have "0 \<le> of_int ?n * q" "of_int ?n * q \<le> of_int ?n" using q nn by (auto intro: mult_left_le)
  then obtain y where y: "rnd binary64 (of_int ?n * q) = Fin y" "0 \<le> y" "y \<le> of_int ?n"
    using rnd_between [OF fmt_ok_binary(1) rep] by blast
  then have "\<lceil>y\<rceil> \<le> ?n" by (simp add: ceiling_le_iff)
  then show ?thesis using None t q(1) y(1) nn by (simp add: clients_per_round_def Let_def)
qed

theorem clients_per_round_bounds_witness:
  "\<exists>k. clients_per_round \<lparr>simulation = default_SimulationConfig, aggregation = default_AggregationConfig,
       worker_specs = [\<lparr>spec_config = worker_example, sample_indices = [0]\<rparr>]\<rparr> = Inr k \<and> 1 \<le> k \<and> k \<le> 1"
proof -
  have "wf_SimulationConfig default_SimulationConfig"
    by (simp add: wf_SimulationConfig_def default_SimulationConfig_def)
  then show ?thesis
    using clients_per_round_bounds [of "\<lparr>simulation = default_SimulationConfig, aggregation = default_AggregationConfig,
       worker_specs = [\<lparr>spec_config = worker_example, sample_indices = [0]\<rparr>]\<rparr>"] by simp
qed

section \<open>Collecting\<close>

text \<open>
  What holds at every pass of the collection loop: each observed client has either one successful result of this
  round or a failure.
\<close>

definition collect_inv :: "int \<Rightarrow> string set \<Rightarrow> cstate \<Rightarrow> bool" where
  "collect_inv round_id selected st \<longleftrightarrow>
     distinct (map r_node_id (cs_results st)) \<and> set (map r_node_id (cs_results st)) \<inter> cs_failures st = {} \<and>
     cs_observed st = set (map r_node_id (cs_results st)) \<union> cs_failures st \<and> cs_observed st \<subseteq> selected \<and>
     (\<forall>r \<in> set (cs_results st). succeeded r \<and> r_round_id r = round_id)"

lemma collect_inv_init: "collect_inv round_id selected \<lparr>cs_busy = busy, cs_results = [], cs_failures = {}, cs_observed = {}\<rparr>"
  by (simp add: collect_inv_def)

lemma collect_inv_busy [simp]: "collect_inv round_id selected (cs_busy_update f st) = collect_inv round_id selected st"
  by (simp add: collect_inv_def)

lemma collect_inv_empty: "collect_inv round_id selected st \<Longrightarrow> collect_inv round_id selected (on_empty selected is_alive st)"
  by (auto simp: collect_inv_def on_empty_def Let_def dead_unobserved_workers_def)

lemma collect_inv_result:
  "collect_inv round_id selected st \<Longrightarrow> r_round_id r = round_id \<Longrightarrow> r_node_id r \<in> selected \<Longrightarrow> r_node_id r \<notin> cs_observed st \<Longrightarrow>
   collect_inv round_id selected (on_result r st)"
  by (auto simp: collect_inv_def on_result_def Let_def)

lemmas collect_invs = collect_inv_empty collect_inv_result

lemma collect_loop_inv: "collect_inv round_id selected st \<Longrightarrow> collect_inv round_id selected (collect_loop round_id selected min_results evs st)"
  by (induction round_id selected min_results evs st rule: collect_loop.induct)
    (auto simp: Let_def collect_invs split: qevent.split)

text \<open>The loop never collects more than the quorum: it stops as soon as that is reached.\<close>

lemma collect_loop_quorum:
  assumes "int (length (cs_results st)) < min_results"
  shows "int (length (cs_results (collect_loop round_id selected min_results evs st))) \<le> min_results"
  using assms
proof (induction evs arbitrary: st)
  case (Cons ev evs)
  show ?case
  proof (cases ev)
    case (QEmpty is_alive)
    have "cs_results (on_empty selected is_alive st) = cs_results st" by (simp add: on_empty_def Let_def)
    then show ?thesis using Cons.IH [of "on_empty selected is_alive st"] Cons.prems by (simp add: QEmpty Let_def)
  next
    case (Got r)
    let ?st = "st\<lparr>cs_busy := (cs_busy st)(r_node_id r := None)\<rparr>"
    have "length (cs_results (on_result r s)) \<le> Suc (length (cs_results s))" for s by (simp add: on_result_def Let_def)
    from this [of ?st] show ?thesis using Cons.IH [of ?st] Cons.IH [of "on_result r ?st"] Cons.prems by (auto simp: Got Let_def)
  qed
qed simp


text \<open>Every result it collects came off the result queue.\<close>

lemma collect_loop_events:
  "set (cs_results (collect_loop round_id selected min_results evs st)) \<subseteq> set (cs_results st) \<union> {r. Got r \<in> set evs}"
proof (induction evs arbitrary: st)
  case (Cons ev evs)
  have e: "cs_results (on_empty selected is_alive st) = cs_results st" for is_alive by (simp add: on_empty_def Let_def)
  have r: "set (cs_results (on_result r s)) \<subseteq> insert r (set (cs_results s))" for r s by (auto simp: on_result_def Let_def)
  show ?case
  proof (cases ev)
    case (QEmpty is_alive)
    then show ?thesis using Cons.IH [of "on_empty selected is_alive st"] e by (auto simp: Let_def)
  next
    case (Got q)
    let ?st = "st\<lparr>cs_busy := (cs_busy st)(r_node_id q := None)\<rparr>"
    show ?thesis using Cons.IH [of ?st] Cons.IH [of "on_result q ?st"] r [of q ?st] by (auto simp: Got Let_def)
  qed
qed simp

section \<open>Selection\<close>

lemma wait_loop_Inr:
  assumes "wait_loop P required minimum polls late busy = (busy', Inr available)" "minimum \<le> required"
  shows "\<exists>p \<in> insert late (set polls). available = available_at P busy' (po_alive p) \<and> minimum \<le> int (length available)"
  using assms(1)
proof (induction polls arbitrary: busy)
  case Nil
  then show ?case using assms(2) by (subst (asm) wait_loop.simps) (auto simp: Let_def split: if_split_asm)
next
  case (Cons p ps)
  then show ?case using assms(2) by (subst (asm) wait_loop.simps) (auto simp: Let_def split: if_split_asm)
qed

lemma select_clients_Inr:
  assumes W: "choice_ok W" "distinct (node_ids P)" and sel: "select_clients W P round_id polls late busy = (busy', Inr selected)"
  obtains required minimum p where
    "clients_per_round P = Inr required" "min_results_for P required = Inr minimum" "min_results_for P (int (length selected)) = Inr minimum"
    "0 < minimum" "minimum \<le> int (length selected)" "int (length selected) \<le> required" "distinct selected"
    "p \<in> insert late (set polls)" "set selected \<subseteq> set (available_at P busy' (po_alive p))"
proof -
  obtain required minimum available where r: "clients_per_round P = Inr required" "min_results_for P required = Inr minimum"
      and w: "wait_for_available P required (Some minimum) polls late busy = (busy', Inr available)"
      and s: "selected = wd_choice W (sim_seed (simulation P) + round_id * 65537) available (nat (min required (int (length available))))"
    using sel by (auto simp: select_clients_def split: sum.splits prod.splits)
  have m: "0 < minimum" "minimum \<le> required" and wl: "wait_loop P required minimum polls late busy = (busy', Inr available)"
    using w by (auto simp: wait_for_available_def split: if_split_asm)
  obtain p where p: "p \<in> insert late (set polls)" "available = available_at P busy' (po_alive p)" "minimum \<le> int (length available)"
    using wait_loop_Inr [OF wl m(2)] by blast
  have "distinct available" using W(2) p(2) by (simp add: available_at_def)
  then have c: "length selected = nat (min required (int (length available)))" "distinct selected" "set selected \<subseteq> set available"
    using W(1) unfolding s choice_ok_def by simp_all
  then have l: "minimum \<le> int (length selected)" "int (length selected) \<le> required" using m p(3) by simp_all
  have "min_results_for P (int (length selected)) = Inr minimum"
    using r(2) l by (auto simp: min_results_for_def split: option.splits if_split_asm)
  then show ?thesis using that r m(1) l c(2,3) p(1,2) by blast
qed

text \<open>Selecting in a round: the facts a completed round rests on.\<close>

lemma dispatch_simps [simp]:
  "co_model (dispatch round_id g selected s) = co_model s" "processes (dispatch round_id g selected s) = processes s"
  "co_started (dispatch round_id g selected s) = co_started s" "co_closed (dispatch round_id g selected s) = co_closed s"
  by (induction selected arbitrary: s) (simp_all add: dispatch_def)

text \<open>Inversion of a step that returns the state together with a result or an exception.\<close>

lemma outcome_Inr:
  "(case r of Inl e \<Rightarrow> (s, Inl e) | Inr x \<Rightarrow> g x) = (s', Inr m) \<longleftrightarrow> (\<exists>x. r = Inr x \<and> g x = (s', Inr m))"
  by (cases r) simp_all

lemma outcome_pair_Inr:
  "(case p of (b, Inl e) \<Rightarrow> (f b e, Inl e) | (b, Inr x) \<Rightarrow> g b x) = (s', Inr m) \<longleftrightarrow>
   (\<exists>b x. p = (b, Inr x) \<and> g b x = (s', Inr m))"
  by (cases p; cases "snd p") auto

lemma finish_coordinator_round_Inr:
  assumes "finish_coordinator_round W P round_id duration selected results failures s = (s', Inr m)"
  obtains aggregated backend evaluation mitigation where
    "(if agg_method (aggregation P) = ''mean''
      then res_bind (weighted_fedavg (wd_torch W) results) (\<lambda>a. Inr (a, ''torch''))
      else coordinator_aggregate W P (concat (map (\<lambda>r. case r_update r of None \<Rightarrow> [] | Some u \<Rightarrow> [u]) results))) = Inr (aggregated, backend)"
    "apply_parameter_delta (wd_nn W) (co_model s) (PyTensor aggregated) = Inr (co_model s')"
    "evaluate W P (co_model s') = Inr evaluation" "attack_mitigation_metrics (wd_torch W) results aggregated = Inr mitigation"
    "m = round_metrics W P round_id duration selected results failures backend evaluation mitigation"
    "s' = s\<lparr>co_model := co_model s'\<rparr>"
proof -
  let ?agg = "(if agg_method (aggregation P) = ''mean''
      then res_bind (weighted_fedavg (wd_torch W) results) (\<lambda>a. Inr (a, ''torch''))
      else coordinator_aggregate W P (concat (map (\<lambda>r. case r_update r of None \<Rightarrow> [] | Some u \<Rightarrow> [u]) results)))"
  note f = assms [unfolded finish_coordinator_round_def Let_def]
  obtain p where p: "?agg = Inr p" using f by (cases ?agg) simp_all
  obtain aggregated backend where ab: "p = (aggregated, backend)" by (cases p)
  note f1 = f [unfolded p ab, simplified]
  obtain model where mo: "apply_parameter_delta (wd_nn W) (co_model s) (PyTensor aggregated) = Inr model"
    using f1 by (cases "apply_parameter_delta (wd_nn W) (co_model s) (PyTensor aggregated)") simp_all
  note f2 = f1 [unfolded mo, simplified]
  obtain evaluation where ev: "evaluate W P model = Inr evaluation" using f2 by (cases "evaluate W P model") simp_all
  note f3 = f2 [unfolded ev, simplified]
  obtain mitigation where mi: "attack_mitigation_metrics (wd_torch W) results aggregated = Inr mitigation"
    using f3 by (cases "attack_mitigation_metrics (wd_torch W) results aggregated") simp_all
  note f4 = f3 [unfolded mi, simplified]
  then have "s' = s\<lparr>co_model := model\<rparr>" "m = round_metrics W P round_id duration selected results failures backend evaluation mitigation"
    by auto
  then show ?thesis using that [OF p [unfolded ab]] mo ev mi by simp
qed

lemma await_round_Inr:
  assumes "await_round W P E round_id selected s = (s', Inr m)" "min_results_for P (int (length selected)) = Inr minimum" "0 < minimum"
  obtains c where "collect_inv round_id (set selected) c" "int (length (cs_results c)) = minimum"
    "finish_coordinator_round W P round_id (e_duration_ms E) selected (cs_results c) (cs_failures c) (s\<lparr>busy_round := cs_busy c\<rparr>) = (s', Inr m)"
    "\<forall>r \<in> set (cs_results c). Got r \<in> set (e_events E)"
proof -
  define c where "c = collect_round_results round_id (set selected) minimum (e_events E) (busy_round s)"
  have fin: "\<not> int (length (cs_results c)) < minimum"
      "finish_coordinator_round W P round_id (e_duration_ms E) selected (cs_results c) (cs_failures c) (s\<lparr>busy_round := cs_busy c\<rparr>) = (s', Inr m)"
    using assms(1,2) unfolding await_round_def Let_def c_def by (simp_all split: if_split_asm)
  have "collect_inv round_id (set selected) c"
    unfolding c_def collect_round_results_def by (intro collect_loop_inv collect_inv_init)
  moreover have "int (length (cs_results c)) \<le> minimum"
    unfolding c_def collect_round_results_def by (rule collect_loop_quorum) (use assms(3) in simp)
  moreover have "\<forall>r \<in> set (cs_results c). Got r \<in> set (e_events E)"
    unfolding c_def collect_round_results_def using collect_loop_events by fastforce
  ultimately show ?thesis using that fin by simp
qed

lemma run_round_Inr:
  assumes W: "choice_ok W" "distinct (node_ids P)" and run: "run_round W P E round_id s = (s', Inr m)"
  obtains selected minimum required vector c s3 where
    "clients_per_round P = Inr required" "min_results_for P required = Inr minimum" "0 < minimum"
    "minimum \<le> int (length selected)" "int (length selected) \<le> required" "distinct selected" "set selected \<subseteq> set (node_ids P)"
    "parameter_vector (wd_nn W) (co_model s) = Inr vector" "co_model s3 = co_model s"
    "collect_inv round_id (set selected) c" "int (length (cs_results c)) = minimum"
    "finish_coordinator_round W P round_id (e_duration_ms E) selected (cs_results c) (cs_failures c) s3 = (s', Inr m)"
    "\<forall>r \<in> set (cs_results c). Got r \<in> set (e_events E)"
proof -
  obtain busy selected vector where
      sel: "select_clients W P round_id (e_polls E) (e_late E) (drain_completed_results (e_drained E) (busy_round s)) = (busy, Inr selected)"
      and v: "parameter_vector (wd_nn W) (co_model s) = Inr vector"
      and aw: "await_round W P E round_id selected (dispatch round_id (cpu_float vector) selected (s\<lparr>busy_round := busy\<rparr>)) = (s', Inr m)"
    using run unfolding run_round_def outcome_pair_Inr outcome_Inr by blast
  obtain required minimum p where q: "clients_per_round P = Inr required" "min_results_for P required = Inr minimum"
      "min_results_for P (int (length selected)) = Inr minimum" "0 < minimum" "minimum \<le> int (length selected)"
      "int (length selected) \<le> required" "distinct selected" "p \<in> insert (e_late E) (set (e_polls E))"
      "set selected \<subseteq> set (available_at P busy (po_alive p))"
    by (rule select_clients_Inr [OF W sel])
  obtain c where c: "collect_inv round_id (set selected) c" "int (length (cs_results c)) = minimum"
      "finish_coordinator_round W P round_id (e_duration_ms E) selected (cs_results c) (cs_failures c)
         (dispatch round_id (cpu_float vector) selected (s\<lparr>busy_round := busy\<rparr>)\<lparr>busy_round := cs_busy c\<rparr>) = (s', Inr m)"
      "\<forall>r \<in> set (cs_results c). Got r \<in> set (e_events E)"
    by (rule await_round_Inr [OF aw q(3,4)])
  have sub: "set selected \<subseteq> set (node_ids P)" using q(9) by (auto simp: available_at_def)
  have "co_model (dispatch round_id (cpu_float vector) selected (s\<lparr>busy_round := busy\<rparr>)\<lparr>busy_round := cs_busy c\<rparr>) = co_model s"
    by simp
  from that [OF q(1,2,4-7) sub v this c] show ?thesis .
qed


section \<open>What a completed round reports\<close>

lemma round_metrics_simps [simp]:
  "selected_clients (round_metrics W P i d sel rs fs b ev mi) = sel"
  "completed_clients (round_metrics W P i d sel rs fs b ev mi) = map r_node_id rs"
  "failed_clients (round_metrics W P i d sel rs fs b ev mi) = sorted_list_of_set fs"
  "rm_round_id (round_metrics W P i d sel rs fs b ev mi) = i"
  "evaluation_accuracy (round_metrics W P i d sel rs fs b ev mi) = snd ev"
  "attack_mitigated (round_metrics W P i d sel rs fs b ev mi) = snd mi"
  by (simp_all add: round_metrics_def Let_def)

lemma round_accounting:
  assumes W: "choice_ok W" "distinct (node_ids P)" and run: "run_round W P E round_id s = (s', Inr m)"
  shows "mset (selected_clients m) = mset (completed_clients m) + mset (failed_clients m) + mset (straggler_clients m)"
    "distinct (selected_clients m)" "set (selected_clients m) \<subseteq> set (node_ids P)" "rm_round_id m = round_id"
    "\<exists>required. clients_per_round P = Inr required \<and> min_results_for P required = Inr (int (length (completed_clients m)))"
proof -
  obtain selected minimum required vector c s3 where r:
    "clients_per_round P = Inr required" "min_results_for P required = Inr minimum" "0 < minimum"
    "minimum \<le> int (length selected)" "int (length selected) \<le> required" "distinct selected" "set selected \<subseteq> set (node_ids P)"
    "parameter_vector (wd_nn W) (co_model s) = Inr vector" "co_model s3 = co_model s"
    "collect_inv round_id (set selected) c" "int (length (cs_results c)) = minimum"
    "finish_coordinator_round W P round_id (e_duration_ms E) selected (cs_results c) (cs_failures c) s3 = (s', Inr m)"
    "\<forall>r \<in> set (cs_results c). Got r \<in> set (e_events E)"
    by (rule run_round_Inr [OF W run])
  obtain aggregated backend evaluation mitigation where
      m: "m = round_metrics W P round_id (e_duration_ms E) selected (cs_results c) (cs_failures c) backend evaluation mitigation"
    by (rule finish_coordinator_round_Inr [OF r(12)])
  let ?done = "map r_node_id (cs_results c)"
  have inv: "distinct ?done" "set ?done \<inter> cs_failures c = {}" "set ?done \<subseteq> set selected" "cs_failures c \<subseteq> set selected"
    using r(10) unfolding collect_inv_def by blast+
  have fin: "finite (cs_failures c)" using inv(4) finite_subset by blast
  let ?rest = "filter (\<lambda>n. n \<notin> set ?done \<union> set (sorted_list_of_set (cs_failures c))) selected"
  have "distinct (?done @ sorted_list_of_set (cs_failures c) @ ?rest)" using inv r(6) fin by auto
  moreover have "set (?done @ sorted_list_of_set (cs_failures c) @ ?rest) = set selected" using inv fin by auto
  ultimately have "mset selected = mset (?done @ sorted_list_of_set (cs_failures c) @ ?rest)"
    using r(6) set_eq_iff_mset_eq_distinct by metis
  then show "mset (selected_clients m) = mset (completed_clients m) + mset (failed_clients m) + mset (straggler_clients m)"
    unfolding m round_metrics_def Let_def mset_append add.assoc by simp
  show "distinct (selected_clients m)" "set (selected_clients m) \<subseteq> set (node_ids P)" "rm_round_id m = round_id"
    using r(6,7) by (simp_all add: m)
  show "\<exists>required. clients_per_round P = Inr required \<and> min_results_for P required = Inr (int (length (completed_clients m)))"
    using r(1,2,11) by (simp add: m)
qed


text \<open>
  The counts checked when the coordinator is built are the counts at aggregation: in every completed round
  the number of aggregated updates satisfies the requirement of the aggregation rule (\<open>n >= 2f + 3\<close> and
  \<open>k <= n - f - 2\<close> for Krum, a trim that leaves at least one update for the trimmed mean), even when some
  clients fail or straggle.
\<close>

theorem round_counts_validated:
  assumes W: "choice_ok W" "distinct (node_ids P)" and v: "validate_round_counts P = Inr ()"
    and run: "run_round W P E round_id s = (s', Inr m)"
  shows "counts_ok (aggregation P) (int (length (completed_clients m)))"
proof -
  obtain required where r: "clients_per_round P = Inr required" "min_results_for P required = Inr (int (length (completed_clients m)))"
    using round_accounting(5) [OF W run] by blast
  show ?thesis using v
    unfolding validate_round_counts_def r res_bind.simps Let_def counts_ok_def
    by (auto simp: res_simps py_int_float_def not_less not_le split: if_split_asm)
qed


section \<open>A concrete round\<close>

definition world_example :: "(fl list, unit) world" where
  "world_example =
     \<lparr>wd_torch = torch_exact, wd_nn = nn_counter, wd_runtime = \<lparr>rt_native = None, rt_cuda_available = False\<rparr>,
      wd_np_mean = exact_mean, wd_choice = (\<lambda>seed pop k. take k pop), wd_eval_batch = (\<lambda>m x labels. (Fin 1, int (length labels) div 2)),
      wd_eval_batches = Some (\<lambda>_. [Batch () [0, 1]])\<rparr>"

definition plan_example :: plan where
  "plan_example =
     \<lparr>simulation = default_SimulationConfig\<lparr>rounds := 1, min_results_opt := Some 2\<rparr>,
      aggregation = default_AggregationConfig\<lparr>agg_backend := ''torch''\<rparr>,
      worker_specs = map (\<lambda>n. \<lparr>spec_config = worker_example\<lparr>node_id := n\<rparr>, sample_indices = [0]\<rparr>) [''a'', ''b'', ''c'']\<rparr>"

definition poll_example :: poll where
  "poll_example = \<lparr>po_drained = [], po_alive = (\<lambda>_. True), po_alive_later = (\<lambda>_. True)\<rparr>"

text \<open>Client \<open>a\<close> answers, \<open>b\<close> dies, a late result of another round arrives, \<open>c\<close> answers.\<close>

definition env_example :: round_env where
  "env_example =
     \<lparr>e_drained = [], e_polls = [], e_late = poll_example,
      e_events = [Got (ok_result ''a'' 1 (flat_vector [Fin 1]) 10 False), QEmpty (\<lambda>n. n \<noteq> ''b''),
                  Got (ok_result ''c'' 0 (flat_vector [Fin 9]) 10 False), Got (ok_result ''c'' 1 (flat_vector [Fin 3]) 10 False)],
      e_duration_ms = 5\<rparr>"

definition coordinator_example :: "fl list coordinator" where
  "coordinator_example =
     \<lparr>co_model = [Fin 1], busy_round = Map.empty, processes = [''a'', ''b'', ''c''], co_started = True, co_closed = False, co_log = []\<rparr>"

lemma choice_ok_example: "choice_ok world_example"
  by (simp add: choice_ok_def world_example_def set_take_subset)

lemma eval_batch_ok_example: "eval_batch_ok world_example"
  unfolding eval_batch_ok_def world_example_def by (simp, linarith)

lemma node_ids_example: "node_ids plan_example = [''a'', ''b'', ''c'']"
  by (simp add: node_ids_def plan_example_def)

lemma counts_example:
  "clients_per_round plan_example = Inr 3" "min_results_for plan_example n = (if 2 > n then min_results_for plan_example n else Inr 2)"
  "validate_round_counts plan_example = Inr ()"
proof -
  have f: "py_int_float 3 = Inr (Fin 3)" using py_float_small [of 3] by (simp add: py_int_float_def)
  show c: "clients_per_round plan_example = Inr 3"
    by (simp add: clients_per_round_def plan_example_def default_SimulationConfig_def f rnd64_ints Let_def)
  show m: "min_results_for plan_example n = (if 2 > n then min_results_for plan_example n else Inr 2)" for n
    by (simp add: min_results_for_def plan_example_def)
  have "min_results_for plan_example 3 = Inr 2" by (simp add: min_results_for_def plan_example_def)
  then show "validate_round_counts plan_example = Inr ()"
    by (simp add: validate_round_counts_def c Let_def) (simp add: plan_example_def default_AggregationConfig_def)
qed

lemma select_example: "select_clients world_example plan_example 1 [] poll_example Map.empty = (Map.empty, Inr [''a'', ''b'', ''c''])"
proof -
  have "min_results_for plan_example 3 = Inr 2" by (simp add: min_results_for_def plan_example_def)
  moreover have "wait_loop plan_example 3 2 [] poll_example Map.empty = (Map.empty, Inr [''a'', ''b'', ''c''])"
    by (subst wait_loop.simps) (simp add: poll_example_def drain_completed_results_def available_at_def node_ids_example)
  ultimately show ?thesis
    by (simp add: select_clients_def counts_example(1) wait_for_available_def) (simp add: world_example_def)
qed

lemma ok_result_fields:
  "succeeded (ok_result n i u k b)" "r_node_id (ok_result n i u k b) = n" "r_round_id (ok_result n i u k b) = i"
  "r_update (ok_result n i u k b) = Some u" "r_malicious (ok_result n i u k b) = b"
  by (simp_all add: succeeded_def ok_result_def)

lemma run_round_example:
  "\<exists>s' m. run_round world_example plan_example env_example 1 coordinator_example = (s', Inr m) \<and>
     completed_clients m = [''a'', ''c''] \<and> failed_clients m = [''b''] \<and> straggler_clients m = [] \<and> co_model s' = [Fin 3]"
proof -
  let ?r1 = "ok_result ''a'' 1 (flat_vector [Fin 1]) 10 False" and ?r2 = "ok_result ''c'' 1 (flat_vector [Fin 3]) 10 False"
  let ?s = "dispatch 1 (cpu_float (flat_vector [Fin 1])) [''a'', ''b'', ''c''] (coordinator_example\<lparr>busy_round := Map.empty\<rparr>)"
  have v: "parameter_vector (wd_nn world_example) (co_model coordinator_example) = Inr (flat_vector [Fin 1])"
    by (simp add: parameter_vector_def world_example_def coordinator_example_def nn_counter_def numel_def all_finite_def)
  note ok = ok_result_fields
  have dead: "dead_unobserved_workers (\<lambda>n. n \<noteq> ''b'') {''a'', ''b'', ''c''} {''a''} = {''b''}"
    by (auto simp: dead_unobserved_workers_def)
  obtain busy obs where col: "collect_round_results 1 {''a'', ''b'', ''c''} 2 (e_events env_example) (busy_round ?s) =
      \<lparr>cs_busy = busy, cs_results = [?r1, ?r2], cs_failures = {''b''}, cs_observed = obs\<rparr>"
    using dead by (simp add: collect_round_results_def env_example_def on_result_def on_empty_def hopeless_def ok Let_def)
  have agg: "coordinator_aggregate world_example plan_example [flat_vector [Fin 1], flat_vector [Fin 3]] = Inr (flat_vector [Fin 2], ''torch'')"
    by (simp add: coordinator_aggregate_def plan_example_def world_example_def torch_aggregate_def default_AggregationConfig_def Let_def
        rnd32_ints all_finite_def numel_def along_dim0_def column_def median_col_def torch_exact_def fin_sort_def vals_def
        flat_vector_def f32_tensor_def cpu_float_def native_extension_available_def)
  have app: "apply_parameter_delta nn_counter [Fin 1] (PyTensor (flat_vector [Fin 2])) = Inr [Fin 3]"
    by (simp add: apply_parameter_delta_def parameter_vector_def nn_counter_def numel_def ndim_def all_finite_def
        flat_vector_def f32_tensor_def fmt_of_def rnd32_ints)
  obtain ev where ev: "evaluate world_example plan_example [Fin 3] = Inr ev"
    by (simp add: evaluate_def world_example_def py_int_float_def py_float_small [of 2, simplified] py_div_def py_truediv_def
        rnd64_ints rnd64_halves Let_def)
  have mit: "attack_mitigation_metrics torch_exact [?r1, ?r2] a = Inr (None, None)" for a
    by (simp add: attack_mitigation_metrics_def ok Let_def)
  have min: "min_results_for plan_example 3 = Inr 2" by (simp add: min_results_for_def plan_example_def)
  have w: "wd_torch world_example = torch_exact" "wd_nn world_example = nn_counter" by (simp_all add: world_example_def)
  have me: "agg_method (aggregation plan_example) = ''median''" by (simp add: plan_example_def default_AggregationConfig_def)
  have "run_round world_example plan_example env_example 1 coordinator_example = await_round world_example plan_example env_example 1 [''a'', ''b'', ''c''] ?s"
    using select_example v unfolding run_round_def by (simp add: env_example_def coordinator_example_def drain_completed_results_def)
  also have "\<dots> = finish_coordinator_round world_example plan_example 1 5 [''a'', ''b'', ''c''] [?r1, ?r2] {''b''} (?s\<lparr>busy_round := busy\<rparr>)"
    using col min by (simp add: await_round_def Let_def) (simp add: env_example_def)
  also have "\<dots> = (?s\<lparr>busy_round := busy, co_model := [Fin 3]\<rparr>,
      Inr (round_metrics world_example plan_example 1 5 [''a'', ''b'', ''c''] [?r1, ?r2] {''b''} ''torch'' ev (None, None)))"
    using agg app ev mit by (simp add: finish_coordinator_round_def me ok w coordinator_example_def Let_def)
  finally show ?thesis by (simp add: ok) (simp add: round_metrics_def ok Let_def)
qed



theorem round_counts_validated_witness:
  "\<exists>s' m. run_round world_example plan_example env_example 1 coordinator_example = (s', Inr m) \<and>
     counts_ok (aggregation plan_example) (int (length (completed_clients m)))"
proof -
  obtain s' m where r: "run_round world_example plan_example env_example 1 coordinator_example = (s', Inr m)"
    using run_round_example by blast
  have "distinct (node_ids plan_example)" by (simp add: node_ids_example)
  from round_counts_validated [OF choice_ok_example this counts_example(3) r] r show ?thesis by blast
qed

section \<open>The model and the lifecycle of a run\<close>

text \<open>A step keeps a property of the state whether it returns or raises.\<close>

definition keeps_model :: "('m, 'x) nn \<Rightarrow> 'm \<Rightarrow> 'm \<Rightarrow> bool" where
  "keeps_model M m m' \<longleftrightarrow> (nn_load_ok M \<and> valid_model M m \<longrightarrow> valid_model M m' \<and> numel (nn_vector M m') = numel (nn_vector M m))"

lemma keeps_model_refl [simp]: "keeps_model M m m"
  by (simp add: keeps_model_def)

lemma keeps_model_trans: "keeps_model M m m' \<Longrightarrow> keeps_model M m' m'' \<Longrightarrow> keeps_model M m m''"
  by (simp add: keeps_model_def)

lemma apply_keeps_model:
  assumes "apply_parameter_delta M m delta = Inr m'"
  shows "keeps_model M m m'"
  unfolding keeps_model_def
proof (intro impI, elim conjE)
  assume "nn_load_ok M"
  from this assms show "valid_model M m' \<and> numel (nn_vector M m') = numel (nn_vector M m)"
    by (rule apply_parameter_delta_effect) simp
qed

lemma finish_round_state:
  "\<exists>model. fst (finish_coordinator_round W P i d sel rs fs s) = s\<lparr>co_model := model\<rparr> \<and> keeps_model (wd_nn W) (co_model s) model"
proof -
  have same: "\<exists>model. s = s\<lparr>co_model := model\<rparr> \<and> keeps_model (wd_nn W) (co_model s) model"
    by (rule exI [of _ "co_model s"]) simp
  let ?agg = "(if agg_method (aggregation P) = ''mean''
      then res_bind (weighted_fedavg (wd_torch W) rs) (\<lambda>a. Inr (a, ''torch''))
      else coordinator_aggregate W P (concat (map (\<lambda>r. case r_update r of None \<Rightarrow> [] | Some u \<Rightarrow> [u]) rs)))"
  show ?thesis
  proof (cases ?agg)
    case (Inl e)
    then show ?thesis using same by (simp add: finish_coordinator_round_def)
  next
    case (Inr p)
    obtain aggregated backend where p: "p = (aggregated, backend)" by (cases p)
    show ?thesis
    proof (cases "apply_parameter_delta (wd_nn W) (co_model s) (PyTensor aggregated)")
      case (Inl e)
      then show ?thesis using same Inr p by (simp add: finish_coordinator_round_def)
    next
      case (Inr model)
      then have "fst (finish_coordinator_round W P i d sel rs fs s) = s\<lparr>co_model := model\<rparr>"
        using \<open>?agg = Inr p\<close> p by (simp add: finish_coordinator_round_def Let_def split: sum.split)
      then show ?thesis using apply_keeps_model [OF Inr] by blast
    qed
  qed
qed

lemma await_round_state:
  "\<exists>busy model. fst (await_round W P E i sel s) = s\<lparr>busy_round := busy, co_model := model\<rparr> \<and> keeps_model (wd_nn W) (co_model s) model"
proof (cases "min_results_for P (int (length sel))")
  case (Inl e)
  then show ?thesis by (intro exI [of _ "busy_round s"] exI [of _ "co_model s"]) (simp add: await_round_def)
next
  case (Inr m)
  define c where "c = collect_round_results i (set sel) m (e_events E) (busy_round s)"
  show ?thesis
  proof (cases "int (length (cs_results c)) < m")
    case True
    then show ?thesis using Inr by (intro exI [of _ "cs_busy c"] exI [of _ "co_model s"]) (simp add: await_round_def c_def Let_def)
  next
    case False
    then have "await_round W P E i sel s =
        finish_coordinator_round W P i (e_duration_ms E) sel (cs_results c) (cs_failures c) (s\<lparr>busy_round := cs_busy c\<rparr>)"
      using Inr by (simp add: await_round_def c_def Let_def)
    then show ?thesis using finish_round_state [of W P i "e_duration_ms E" sel "cs_results c" "cs_failures c" "s\<lparr>busy_round := cs_busy c\<rparr>"]
      by auto
  qed
qed

text \<open>What a round may change of the state.\<close>

definition round_frame :: "('m, 'x) nn \<Rightarrow> 'm coordinator \<Rightarrow> 'm coordinator \<Rightarrow> bool" where
  "round_frame M s s' \<longleftrightarrow> keeps_model M (co_model s) (co_model s') \<and> processes s' = processes s \<and>
     co_started s' = co_started s \<and> co_closed s' = co_closed s \<and> (\<exists>new. co_log s' = co_log s @ new)"

lemma round_frame_refl [simp]: "round_frame M s s"
  by (simp add: round_frame_def)

lemma round_frame_busy [simp]: "round_frame M s (s'\<lparr>busy_round := busy\<rparr>) = round_frame M s s'"
  "round_frame M (s\<lparr>busy_round := busy\<rparr>) s' = round_frame M s s'"
  by (simp_all add: round_frame_def)

lemma round_frame_trans: "round_frame M s s' \<Longrightarrow> round_frame M s' s'' \<Longrightarrow> round_frame M s s''"
  unfolding round_frame_def using keeps_model_trans by fastforce

lemma dispatch_log: "co_log (dispatch i g sel s) = co_log s @
    map (\<lambda>n. Put n (Train \<lparr>cmd_round_id = i, cmd_global_parameters = PyTensor g\<rparr>)) sel"
  by (induction sel arbitrary: s) (simp_all add: dispatch_def)

lemma run_round_frame:
  "round_frame (wd_nn W) s (fst (run_round W P E i s))"
proof -
  obtain busy o1 where o1: "select_clients W P i (e_polls E) (e_late E) (drain_completed_results (e_drained E) (busy_round s)) = (busy, o1)"
    by (cases "select_clients W P i (e_polls E) (e_late E) (drain_completed_results (e_drained E) (busy_round s))")
  show ?thesis
  proof (cases o1)
    case (Inl e)
    then show ?thesis using o1 by (simp add: run_round_def)
  next
    case (Inr sel)
    show ?thesis
    proof (cases "parameter_vector (wd_nn W) (co_model s)")
      case (Inl e)
      then show ?thesis using o1 Inr by (simp add: run_round_def)
    next
      case vec: (Inr v)
      let ?s = "dispatch i (cpu_float v) sel (s\<lparr>busy_round := busy\<rparr>)"
      have "run_round W P E i s = await_round W P E i sel ?s" using o1 Inr vec by (simp add: run_round_def)
      then show ?thesis using await_round_state [of W P E i sel ?s] by (auto simp: round_frame_def dispatch_log)
    qed
  qed
qed

lemma run_rounds_frame:
  "round_frame (wd_nn W) s (fst (run_rounds W P envs ids history s))"
proof (induction ids arbitrary: history s)
  case (Cons i ids)
  obtain s' o1 where o1: "run_round W P (envs i) i s = (s', o1)" by (cases "run_round W P (envs i) i s")
  then have "round_frame (wd_nn W) s s'" using run_round_frame [of W s P "envs i" i] by simp
  moreover have "round_frame (wd_nn W) s' (fst (run_rounds W P envs ids (history @ [m]) s'))" for m by (rule Cons.IH)
  ultimately have "round_frame (wd_nn W) s (fst (run_rounds W P envs ids (history @ [m]) s'))" for m by (rule round_frame_trans)
  then show ?case using o1 \<open>round_frame (wd_nn W) s s'\<close> by (cases o1) auto
qed simp


lemma run_round_id:
  assumes "run_round W P E i s = (s', Inr m)"
  shows "rm_round_id m = i"
proof -
  obtain sel s1 where "await_round W P E i sel s1 = (s', Inr m)"
    using assms unfolding run_round_def outcome_pair_Inr outcome_Inr by blast
  then obtain k where "(let c = collect_round_results i (set sel) k (e_events E) (busy_round s1); s2 = s1\<lparr>busy_round := cs_busy c\<rparr>
      in if int (length (cs_results c)) < k
         then (s2, Inl (TimeoutError ''round received fewer than the required successful results''))
         else finish_coordinator_round W P i (e_duration_ms E) sel (cs_results c) (cs_failures c) s2) = (s', Inr m)"
    unfolding await_round_def outcome_Inr by blast
  then have "finish_coordinator_round W P i (e_duration_ms E) sel (cs_results (collect_round_results i (set sel) k (e_events E) (busy_round s1)))
      (cs_failures (collect_round_results i (set sel) k (e_events E) (busy_round s1)))
      (s1\<lparr>busy_round := cs_busy (collect_round_results i (set sel) k (e_events E) (busy_round s1))\<rparr>) = (s', Inr m)"
    by (simp add: Let_def split: if_split_asm)
  then show ?thesis by (rule finish_coordinator_round_Inr) simp
qed

lemma run_rounds_history:
  "run_rounds W P envs ids history s = (s', Inr h) \<Longrightarrow> map rm_round_id h = map rm_round_id history @ ids"
proof (induction ids arbitrary: history s)
  case (Cons i ids)
  obtain s1 m where r: "run_round W P (envs i) i s = (s1, Inr m)" "run_rounds W P envs ids (history @ [m]) s1 = (s', Inr h)"
    using Cons.prems by (auto split: prod.splits sum.splits)
  have "rm_round_id m = i" by (rule run_round_id [OF r(1)])
  then show ?case using Cons.IH [OF r(2)] by simp
qed simp




text \<open>
  C16: The global model is valid at every point of a run: a non-empty flat vector of finite parameters of
  constant length. This holds whatever the workers send and whichever step of whichever round raises.
\<close>

theorem run_keeps_model_valid:
  assumes "nn_load_ok (wd_nn W)" "valid_model (wd_nn W) (co_model s)"
  shows "valid_model (wd_nn W) (co_model (fst (run W P envs CE s))) \<and>
    numel (nn_vector (wd_nn W) (co_model (fst (run W P envs CE s)))) = numel (nn_vector (wd_nn W) (co_model s))"
proof -
  obtain s1 o1 where o1: "start P s = (s1, o1)" by (cases "start P s")
  then have m1: "co_model s1 = co_model s" by (auto simp: start_def split: if_split_asm)
  obtain s2 o2 where o2: "run_rounds W P envs [1..rounds (simulation P)] [] s1 = (s2, o2)"
    by (cases "run_rounds W P envs [1..rounds (simulation P)] [] s1")
  then have "keeps_model (wd_nn W) (co_model s1) (co_model s2)"
    using run_rounds_frame [of W s1 P envs "[1..rounds (simulation P)]" "[]"] by (simp add: round_frame_def)
  moreover have "co_model (fst (run W P envs CE s)) = (case o1 of Inl e \<Rightarrow> co_model s1 | Inr _ \<Rightarrow> co_model s2)"
    using o1 o2 by (cases o1; cases o2) (auto simp: run_def close_def)
  ultimately show ?thesis using assms m1 by (cases o1) (simp_all add: keeps_model_def)
qed

theorem run_keeps_model_valid_witness:
  "valid_model nn_counter (co_model (fst (run world_example plan_example (\<lambda>_. env_example)
     \<lparr>ce_full = (\<lambda>_. True), ce_alive_after_join = (\<lambda>n. False)\<rparr> (coordinator_example\<lparr>co_started := False\<rparr>))))"
proof -
  have "valid_model (wd_nn world_example) (co_model (coordinator_example\<lparr>co_started := False\<rparr>))"
    by (simp add: valid_model_def world_example_def coordinator_example_def nn_counter_def numel_def all_finite_def)
  moreover have "nn_load_ok (wd_nn world_example)" using nn_load_ok_counter by (simp add: world_example_def)
  ultimately show ?thesis
    using run_keeps_model_valid [of world_example "coordinator_example\<lparr>co_started := False\<rparr>"] by (simp add: world_example_def)
qed

section \<open>Rates\<close>

lemma truediv_unit:
  assumes "0 \<le> a" "a \<le> b" "py_truediv a b = Inr q"
  shows "\<exists>r. q = Fin r \<and> 0 \<le> r \<and> r \<le> 1"
proof -
  have b: "0 < b" using assms by (auto simp: py_truediv_def split: if_split_asm)
  have "representable binary64 0" "representable binary64 1"
    using representable_zero [OF fmt_ok_binary(1)] representable_int [of 1 binary64] by (simp_all add: binary64_def)
  moreover have "0 \<le> of_int a / (of_int b :: real)" "of_int a / of_int b \<le> (1 :: real)" using assms b by simp_all
  ultimately obtain y where "rnd binary64 (of_int a / of_int b) = Fin y" "0 \<le> y" "y \<le> 1"
    by (rule rnd_between [OF fmt_ok_binary(1)])
  moreover from this have "q = Fin y" using assms(3) b by (simp add: py_truediv_def Let_def)
  ultimately show ?thesis by blast
qed

lemma eval_loop_correct:
  assumes "eval_batch_ok W" "0 \<le> k" "k \<le> n" "eval_loop W m bs l k n = Inr (l', k', n')"
  shows "0 \<le> k' \<and> k' \<le> n'"
  using assms
proof (induction W m bs l k n rule: eval_loop.induct)
  case (3 W model x labels bs total_loss total_correct total_examples)
  obtain loss correct where b: "wd_eval_batch W model x labels = (loss, correct)" by (cases "wd_eval_batch W model x labels")
  then have "0 \<le> correct" "correct \<le> int (length labels)" using 3(2) unfolding eval_batch_ok_def by (metis snd_conv)+
  then show ?case using 3 b by simp
qed simp_all

text \<open>
  Reported rates are rates. The evaluation accuracy is a number between 0 and 1, or NaN exactly when the
  evaluation dataset yields no example; the attack mitigation success rate of a run is absent or between 0 and 1.
\<close>

theorem reported_rates_bounded:
  assumes W: "eval_batch_ok W" and ev: "evaluate W P m = Inr (loss, Some acc)"
    and sr: "success_rate history = Inr (Some rate)"
  shows "(acc = NaN \<or> (\<exists>q. acc = Fin q \<and> 0 \<le> q \<and> q \<le> 1)) \<and> (\<exists>q. rate = Fin q \<and> 0 \<le> q \<and> q \<le> 1)"
proof
  obtain loader where lo: "wd_eval_batches W = Some loader" using ev by (cases "wd_eval_batches W") (auto simp: evaluate_def)
  obtain l k n where e: "eval_loop W m (loader (evaluation_batch_size (simulation P))) (Fin 0) 0 0 = Inr (l, k, n)"
    using ev lo by (cases "eval_loop W m (loader (evaluation_batch_size (simulation P))) (Fin 0) 0 0") (auto simp: evaluate_def)
  have kn: "0 \<le> k \<and> k \<le> n" by (rule eval_loop_correct [OF W _ _ e]) simp_all
  have "n = 0 \<and> acc = NaN \<or> py_truediv k n = Inr acc"
    using ev unfolding evaluate_def lo by (auto simp: e res_simps split: if_split_asm)
  then show "acc = NaN \<or> (\<exists>q. acc = Fin q \<and> 0 \<le> q \<and> q \<le> 1)" using truediv_unit kn by blast
  let ?attacked = "concat (map (\<lambda>m. case attack_mitigated m of None \<Rightarrow> [] | Some b \<Rightarrow> [b]) history)"
  have "py_truediv (int (length (filter (\<lambda>b. b) ?attacked))) (int (length ?attacked)) = Inr rate"
    using sr by (auto simp: success_rate_def Let_def res_simps split: if_split_asm)
  then show "\<exists>q. rate = Fin q \<and> 0 \<le> q \<and> q \<le> 1" by (rule truediv_unit [rotated 2]) simp_all
qed


theorem reported_rates_bounded_witness:
  "\<exists>loss acc rate q. evaluate world_example plan_example [Fin 3] = Inr (loss, Some acc) \<and> rate = Fin q \<and> q \<le> 1 \<and>
     success_rate [round_metrics world_example plan_example 1 5 [] [] {} ''torch'' (None, None) (Some (Fin 1), Some True)] = Inr (Some rate)"
proof -
  obtain loss acc where ev: "evaluate world_example plan_example [Fin 3] = Inr (loss, Some acc)"
    by (simp add: evaluate_def world_example_def py_int_float_def py_float_small [of 2, simplified] py_div_def py_truediv_def
        rnd64_ints rnd64_halves Let_def)
  let ?h = "[round_metrics world_example plan_example 1 5 [] [] {} ''torch'' (None, None) (Some (Fin 1), Some True)]"
  have sr: "success_rate ?h = Inr (Some (Fin 1))"
    by (simp add: success_rate_def py_truediv_def rnd64_ints Let_def)
  from reported_rates_bounded [OF eval_batch_ok_example ev sr] ev sr show ?thesis by blast
qed

end
