(* ===== verification/Round_Protocol.thy ===== *)
theory Round_Protocol
  imports Coordinator
begin

text \<open>
  The message protocol between \<open>AsyncFederatedCoordinator\<close> and its worker processes, as a step relation: one
  command queue of capacity one per worker (\<open>Queue(maxsize=1)\<close> in \<open>start\<close>), one shared result queue, workers
  that may crash at any moment, and the bookkeeping of \<open>_busy_round\<close> done by the coordinator's own functions.

  The coordinator's \<open>put\<close> would block forever on a full queue, so what matters is that it never meets one, that
  a worker never has two commands outstanding, and that a worker marked busy is one an answer can still come from.
\<close>

section \<open>States and steps\<close>

record pstate =
  pr_busy :: "string \<rightharpoonup> int"
  pr_queue :: "string \<Rightarrow> TrainCommand option"     \<comment> \<open>the command queue of a worker\<close>
  pr_work :: "string \<Rightarrow> TrainCommand option"      \<comment> \<open>the command a worker is executing\<close>
  pr_results :: "WorkerResult list"                \<comment> \<open>the result queue\<close>
  pr_dead :: "string set"
  pr_avail :: "string list"                        \<comment> \<open>the last list of available clients, until used\<close>

definition protocol_init :: pstate where
  "protocol_init = \<lparr>pr_busy = Map.empty, pr_queue = (\<lambda>_. None), pr_work = (\<lambda>_. None), pr_results = [], pr_dead = {}, pr_avail = []\<rparr>"

text \<open>
  Coordinator: poll for available clients, put a command, take a result off the queue, notice dead workers.
  Worker: take a command, answer it, crash. An answer names the worker and the round of the command.
\<close>

inductive pstep :: "plan \<Rightarrow> pstate \<Rightarrow> pstate \<Rightarrow> bool" for P where
  poll: "pstep P s (s\<lparr>pr_avail := available_at P (pr_busy s) (\<lambda>n. n \<notin> pr_dead s)\<rparr>)"
| put: "n \<in> set (pr_avail s) \<Longrightarrow> pr_queue s n = None \<Longrightarrow>
    pstep P s (s\<lparr>pr_queue := (pr_queue s)(n := Some c), pr_busy := (pr_busy s)(n \<mapsto> cmd_round_id c),
                pr_avail := removeAll n (pr_avail s)\<rparr>)"
| receive: "pr_results s = r # rest \<Longrightarrow>
    pstep P s (s\<lparr>pr_results := rest, pr_busy := drain_completed_results [r] (pr_busy s), pr_avail := []\<rparr>)"
| bury: "cs_busy st = pr_busy s \<Longrightarrow>
    pstep P s (s\<lparr>pr_busy := cs_busy (on_empty selected (\<lambda>n. n \<notin> pr_dead s) st), pr_avail := []\<rparr>)"
| take_command: "n \<notin> pr_dead s \<Longrightarrow> pr_queue s n = Some c \<Longrightarrow> pr_work s n = None \<Longrightarrow>
    pstep P s (s\<lparr>pr_queue := (pr_queue s)(n := None), pr_work := (pr_work s)(n := Some c)\<rparr>)"
| answer: "n \<notin> pr_dead s \<Longrightarrow> pr_work s n = Some c \<Longrightarrow> r_node_id r = n \<Longrightarrow> r_round_id r = cmd_round_id c \<Longrightarrow>
    pstep P s (s\<lparr>pr_work := (pr_work s)(n := None), pr_results := pr_results s @ [r]\<rparr>)"
| crash: "pstep P s (s\<lparr>pr_dead := insert n (pr_dead s), pr_work := (pr_work s)(n := None)\<rparr>)"

inductive_cases pstepE: "pstep P s s'"

inductive reachable :: "plan \<Rightarrow> pstate \<Rightarrow> bool" for P where
  init: "reachable P protocol_init"
| step: "reachable P s \<Longrightarrow> pstep P s s' \<Longrightarrow> reachable P s'"

section \<open>The invariant\<close>

text \<open>What is under way for a worker: a queued command, one being executed, answers not yet received.\<close>

definition outstanding :: "pstate \<Rightarrow> string \<Rightarrow> nat" where
  "outstanding s n = (if pr_queue s n = None then 0 else 1) + (if pr_work s n = None then 0 else 1) +
     length (filter (\<lambda>r. r_node_id r = n) (pr_results s))"

text \<open>
  Of a live worker, the busy mark says whether something is outstanding and for which round; an available
  client is not busy and its queue is empty.
\<close>

definition worker_inv :: "pstate \<Rightarrow> string \<Rightarrow> bool" where
  "worker_inv s n \<longleftrightarrow>
     (n \<notin> pr_dead s \<longrightarrow>
        outstanding s n = (if pr_busy s n = None then 0 else 1) \<and>
        (\<forall>c. pr_queue s n = Some c \<or> pr_work s n = Some c \<longrightarrow> pr_busy s n = Some (cmd_round_id c)) \<and>
        (\<forall>r \<in> set (filter (\<lambda>r. r_node_id r = n) (pr_results s)). pr_busy s n = Some (r_round_id r))) \<and>
     (n \<in> set (pr_avail s) \<longrightarrow> pr_busy s n = None \<and> pr_queue s n = None)"

definition protocol_inv :: "pstate \<Rightarrow> bool" where
  "protocol_inv s \<longleftrightarrow> (\<forall>n. worker_inv s n)"

lemma cs_busy_on_empty: "cs_busy (on_empty sel al st) n = None \<or> cs_busy (on_empty sel al st) n = cs_busy st n"
  by (simp add: on_empty_def Let_def)

lemma cs_busy_on_empty_alive: "al n \<Longrightarrow> cs_busy (on_empty sel al st) n = cs_busy st n"
  by (simp add: on_empty_def Let_def dead_unobserved_workers_def)

lemma protocol_inv_init: "protocol_inv protocol_init"
  by (simp add: protocol_inv_def worker_inv_def outstanding_def protocol_init_def)


text \<open>A live worker that is not busy has nothing under way.\<close>

lemma worker_inv_free:
  assumes "worker_inv s n" "n \<notin> pr_dead s" "pr_busy s n = None"
  shows "pr_queue s n = None" "pr_work s n = None" "filter (\<lambda>r. r_node_id r = n) (pr_results s) = []"
proof -
  have "outstanding s n = 0" using assms by (simp add: worker_inv_def)
  then show "pr_queue s n = None" "pr_work s n = None" "filter (\<lambda>r. r_node_id r = n) (pr_results s) = []"
    by (auto simp: outstanding_def split: if_split_asm)
qed

lemma protocol_invD: "protocol_inv s \<Longrightarrow> worker_inv s n"
  by (simp add: protocol_inv_def)

lemma protocol_invI: "(\<And>n. worker_inv s n) \<Longrightarrow> protocol_inv s"
  by (simp add: protocol_inv_def)

lemma inv_poll:
  assumes "protocol_inv s"
  shows "protocol_inv (s\<lparr>pr_avail := available_at P (pr_busy s) (\<lambda>n. n \<notin> pr_dead s)\<rparr>)"
proof (rule protocol_invI)
  fix n
  have w: "worker_inv s n" by (rule protocol_invD [OF assms])
  show "worker_inv (s\<lparr>pr_avail := available_at P (pr_busy s) (\<lambda>n. n \<notin> pr_dead s)\<rparr>) n"
    using w worker_inv_free(1) [OF w] by (auto simp: worker_inv_def outstanding_def available_at_def)
qed

lemma inv_put:
  assumes inv: "protocol_inv s" and n: "n \<in> set (pr_avail s)" "pr_queue s n = None"
  shows "protocol_inv (s\<lparr>pr_queue := (pr_queue s)(n := Some c), pr_busy := (pr_busy s)(n \<mapsto> cmd_round_id c),
    pr_avail := removeAll n (pr_avail s)\<rparr>)"
proof (rule protocol_invI)
  fix m
  have w: "worker_inv s m" by (rule protocol_invD [OF inv])
  show "worker_inv (s\<lparr>pr_queue := (pr_queue s)(n := Some c), pr_busy := (pr_busy s)(n \<mapsto> cmd_round_id c),
      pr_avail := removeAll n (pr_avail s)\<rparr>) m"
  proof (cases "m = n")
    case False
    then show ?thesis using w by (simp add: worker_inv_def outstanding_def)
  next
    case True
    have b: "pr_busy s n = None" using w n(1) True by (simp add: worker_inv_def)
    show ?thesis
    proof (cases "n \<in> pr_dead s")
      case False
      then have "pr_work s n = None" "filter (\<lambda>r. r_node_id r = n) (pr_results s) = []" using worker_inv_free [OF w [unfolded True] _ b] by blast+
      then show ?thesis using True by (simp add: worker_inv_def outstanding_def)
    qed (simp add: worker_inv_def True)
  qed
qed

lemma inv_receive:
  assumes inv: "protocol_inv s" and r: "pr_results s = r # rest"
  shows "protocol_inv (s\<lparr>pr_results := rest, pr_busy := drain_completed_results [r] (pr_busy s), pr_avail := []\<rparr>)"
proof (rule protocol_invI)
  fix m
  have w: "worker_inv s m" by (rule protocol_invD [OF inv])
  show "worker_inv (s\<lparr>pr_results := rest, pr_busy := drain_completed_results [r] (pr_busy s), pr_avail := []\<rparr>) m"
    using w r by (cases "r_node_id r = m")
      (auto simp: worker_inv_def outstanding_def drain_completed_results_def filter_empty_conv split: if_split_asm)
qed

lemma inv_bury:
  assumes inv: "protocol_inv s" and b: "cs_busy st = pr_busy s"
  shows "protocol_inv (s\<lparr>pr_busy := cs_busy (on_empty selected (\<lambda>n. n \<notin> pr_dead s) st), pr_avail := []\<rparr>)"
proof (rule protocol_invI)
  fix m
  have "cs_busy (on_empty selected (\<lambda>n. n \<notin> pr_dead s) st) m = pr_busy s m" if "m \<notin> pr_dead s"
    using cs_busy_on_empty_alive [of "\<lambda>n. n \<notin> pr_dead s" m selected st] that b by simp
  then show "worker_inv (s\<lparr>pr_busy := cs_busy (on_empty selected (\<lambda>n. n \<notin> pr_dead s) st), pr_avail := []\<rparr>) m"
    using protocol_invD [OF inv, of m] by (cases "m \<in> pr_dead s") (simp_all add: worker_inv_def outstanding_def)
qed

lemma inv_take:
  assumes inv: "protocol_inv s" and n: "n \<notin> pr_dead s" "pr_queue s n = Some c" "pr_work s n = None"
  shows "protocol_inv (s\<lparr>pr_queue := (pr_queue s)(n := None), pr_work := (pr_work s)(n := Some c)\<rparr>)"
proof (rule protocol_invI)
  fix m
  show "worker_inv (s\<lparr>pr_queue := (pr_queue s)(n := None), pr_work := (pr_work s)(n := Some c)\<rparr>) m"
    using protocol_invD [OF inv, of m] n by (cases "m = n") (auto simp: worker_inv_def outstanding_def)
qed

lemma inv_answer:
  assumes inv: "protocol_inv s" and n: "n \<notin> pr_dead s" "pr_work s n = Some c" "r_node_id r = n" "r_round_id r = cmd_round_id c"
  shows "protocol_inv (s\<lparr>pr_work := (pr_work s)(n := None), pr_results := pr_results s @ [r]\<rparr>)"
proof (rule protocol_invI)
  fix m
  show "worker_inv (s\<lparr>pr_work := (pr_work s)(n := None), pr_results := pr_results s @ [r]\<rparr>) m"
    using protocol_invD [OF inv, of m] n by (cases "m = n") (auto simp: worker_inv_def outstanding_def split: if_split_asm)
qed

lemma inv_crash:
  assumes "protocol_inv s"
  shows "protocol_inv (s\<lparr>pr_dead := insert n (pr_dead s), pr_work := (pr_work s)(n := None)\<rparr>)"
proof (rule protocol_invI)
  fix m
  show "worker_inv (s\<lparr>pr_dead := insert n (pr_dead s), pr_work := (pr_work s)(n := None)\<rparr>) m"
    using protocol_invD [OF assms, of m] by (cases "m = n") (simp_all add: worker_inv_def outstanding_def)
qed

lemma pstep_inv: "pstep P s s' \<Longrightarrow> protocol_inv s \<Longrightarrow> protocol_inv s'"
proof (induction rule: pstep.induct)
  case (poll s)
  then show ?case by (rule inv_poll)
next
  case (put n s c)
  from inv_put [OF put(3,1,2)] show ?case .
next
  case (receive s r rest)
  from inv_receive [OF receive(2,1)] show ?case .
next
  case (bury st s selected)
  from inv_bury [OF bury(2,1)] show ?case .
next
  case (take_command n s c)
  from inv_take [OF take_command(4,1,2,3)] show ?case .
next
  case (answer n s c r)
  from inv_answer [OF answer(5,1,2,3,4)] show ?case .
next
  case (crash s n)
  then show ?case by (rule inv_crash)
qed

lemma reachable_inv: "reachable P s \<Longrightarrow> protocol_inv s"
  by (induction rule: reachable.induct) (rule protocol_inv_init, rule pstep_inv)

text \<open>
  C6: The coordinator never blocks on a command queue and never has two commands under way for one worker. In
  every reachable state of coordinator and workers, crashes included, each client in the list of available ones
  has an empty command queue, so that \<open>put\<close> on the queue of capacity one returns at once; and a live worker has
  exactly one command queued, in execution or answered while it is marked busy, and none otherwise.
\<close>

theorem commands_never_block:
  assumes "reachable P s"
  shows "(\<forall>n \<in> set (pr_avail s). pr_queue s n = None) \<and>
    (\<forall>n. n \<notin> pr_dead s \<longrightarrow> outstanding s n = (if pr_busy s n = None then 0 else 1))"
  using protocol_invD [OF reachable_inv [OF assms]] by (simp add: worker_inv_def)

text \<open>
  C29: No worker is lost. A worker marked busy is dead, or it can take its command, or it can answer the one it
  has, or its answer waits in the result queue; and an answer of a live worker is for the round the coordinator
  has recorded for it. Once the answer is received the worker is free again.
\<close>

theorem busy_worker_progress:
  assumes "reachable P s" "pr_busy s n = Some i" "n \<notin> pr_dead s"
  shows "(\<exists>c. pr_queue s n = Some c \<and> pr_work s n = None \<and> cmd_round_id c = i) \<or> (\<exists>c. pr_work s n = Some c \<and> cmd_round_id c = i) \<or>
    (\<exists>r \<in> set (pr_results s). r_node_id r = n \<and> r_round_id r = i)"
proof -
  have w: "worker_inv s n" by (rule protocol_invD [OF reachable_inv [OF assms(1)]])
  then have o: "outstanding s n = 1" using assms(2,3) by (simp add: worker_inv_def)
  show ?thesis
  proof (cases "filter (\<lambda>r. r_node_id r = n) (pr_results s)")
    case Nil
    then show ?thesis using w o assms(2,3)
      by (cases "pr_queue s n"; cases "pr_work s n") (auto simp: worker_inv_def outstanding_def)
  next
    case (Cons r rs)
    then have r: "r \<in> set (filter (\<lambda>r. r_node_id r = n) (pr_results s))" by simp
    then have "pr_busy s n = Some (r_round_id r)" using w assms(3) unfolding worker_inv_def by blast
    then show ?thesis using r assms(2) by auto
  qed
qed


section \<open>The coordinator's code takes steps of the protocol\<close>

text \<open>Steps of the workers leave the coordinator's bookkeeping alone.\<close>

definition quiet_step :: "plan \<Rightarrow> pstate \<Rightarrow> pstate \<Rightarrow> bool" where
  "quiet_step P s s' \<longleftrightarrow> pstep P s s' \<and> pr_busy s' = pr_busy s"

text \<open>
  \<open>feed P s evs\<close>: starting in \<open>s\<close>, the environment can present the events \<open>evs\<close> to the collection loop, each
  result being the head of the result queue and each \<open>queue.Empty\<close> coming with the processes then alive.
\<close>

inductive feed :: "plan \<Rightarrow> pstate \<Rightarrow> qevent list \<Rightarrow> bool" for P where
  feed_nil: "feed P s []"
| feed_got: "(quiet_step P)\<^sup>*\<^sup>* s s1 \<Longrightarrow> pr_results s1 = r # rest \<Longrightarrow>
    feed P (s1\<lparr>pr_results := rest, pr_busy := drain_completed_results [r] (pr_busy s1), pr_avail := []\<rparr>) evs \<Longrightarrow>
    feed P s (Got r # evs)"
| feed_empty: "(quiet_step P)\<^sup>*\<^sup>* s s1 \<Longrightarrow> is_alive = (\<lambda>n. n \<notin> pr_dead s1) \<Longrightarrow>
    (\<And>selected st. cs_busy st = pr_busy s1 \<Longrightarrow>
       feed P (s1\<lparr>pr_busy := cs_busy (on_empty selected is_alive st), pr_avail := []\<rparr>) evs) \<Longrightarrow>
    feed P s (QEmpty is_alive # evs)"

inductive_cases feed_GotE: "feed P s (Got r # evs)"
inductive_cases feed_QEmptyE: "feed P s (QEmpty is_alive # evs)"

lemma quiet_steps_reachable:
  assumes "(quiet_step P)\<^sup>*\<^sup>* s s1" "reachable P s"
  shows "reachable P s1 \<and> pr_busy s1 = pr_busy s"
  using assms by (induction rule: rtranclp_induct) (auto simp: quiet_step_def intro: reachable.step)


section \<open>A concrete exchange\<close>

definition command_example :: TrainCommand where
  "command_example = \<lparr>cmd_round_id = 1, cmd_global_parameters = PyTensor (flat_vector [Fin 1])\<rparr>"

definition protocol_example :: pstate where
  "protocol_example = protocol_init\<lparr>pr_avail := [''b'', ''c''], pr_queue := (\<lambda>_. None)(''a'' := Some command_example),
     pr_busy := [''a'' \<mapsto> 1]\<rparr>"

lemma reachable_example: "reachable plan_example protocol_example"
proof -
  let ?s = "protocol_init\<lparr>pr_avail := available_at plan_example (pr_busy protocol_init) (\<lambda>n. n \<notin> pr_dead protocol_init)\<rparr>"
  have 1: "reachable plan_example ?s" by (rule reachable.step [OF reachable.init pstep.poll])
  have av: "pr_avail ?s = [''a'', ''b'', ''c'']" by (simp add: available_at_def node_ids_example protocol_init_def)
  have "pstep plan_example ?s (?s\<lparr>pr_queue := (pr_queue ?s)(''a'' := Some command_example),
      pr_busy := (pr_busy ?s)(''a'' \<mapsto> cmd_round_id command_example), pr_avail := removeAll ''a'' (pr_avail ?s)\<rparr>)"
    by (rule pstep.put) (simp_all only: av, simp_all add: protocol_init_def)
  from reachable.step [OF 1 this] show ?thesis
    unfolding av by (simp add: protocol_example_def command_example_def protocol_init_def)
qed

theorem commands_never_block_witness:
  "pr_avail protocol_example = [''b'', ''c''] \<and> pr_queue protocol_example ''b'' = None \<and>
    pr_queue protocol_example ''c'' = None"
  using commands_never_block [OF reachable_example] by (simp add: protocol_example_def)

theorem busy_worker_progress_witness:
  "\<exists>c. pr_queue protocol_example ''a'' = Some c \<and> cmd_round_id c = 1"
proof -
  have "pr_busy protocol_example ''a'' = Some 1" "''a'' \<notin> pr_dead protocol_example"
    by (simp_all add: protocol_example_def protocol_init_def)
  from busy_worker_progress [OF reachable_example this] show ?thesis
    by (auto simp: protocol_example_def protocol_init_def)
qed


end
