(* ===== verification/CKKS.thy ===== *)
theory CKKS
  imports Native_Aggregators
begin

text \<open>
  Encrypted aggregation: \<open>cpp/src/ckks_secure_aggregation.cpp\<close>, its bindings in
  \<open>cpp/src/aggregator_pybind.cpp\<close> and the roles of \<open>privacy/ckks.py\<close> (client, server, key authority).

  Microsoft SEAL is the record \<open>seal\<close>, over the types of its parameters, keys, plaintexts and ciphertexts. What
  the roles rely on is \<open>seal_ok\<close>: what was saved loads again, a fresh ciphertext carries a bounded noise, the
  noise of a sum is at most the sum of the noises, and decoding reads the message up to the noise. Serialised
  objects (\<open>std::string\<close>, \<open>bytes\<close>) are strings; the random draws of key generation and encryption are numbers.
\<close>

unbundle bit_operations_syntax

section \<open>The SEAL library\<close>

record ('par, 'key, 'pt, 'ct) seal =
  sl_create :: "nat \<Rightarrow> int list \<Rightarrow> 'par res"     \<comment> \<open>\<open>set_poly_modulus_degree\<close>, \<open>CoeffModulus::Create\<close>\<close>
  sl_parameters_set :: "'par \<Rightarrow> bool"
  sl_slot_count :: "'par \<Rightarrow> nat"
  sl_keygen :: "'par \<Rightarrow> nat \<Rightarrow> 'key \<times> 'key"     \<comment> \<open>secret key and public key of one draw\<close>
  sl_save_parameters :: "'par \<Rightarrow> string"
  sl_load_parameters :: "string \<Rightarrow> 'par res"
  sl_save_public_key :: "'key \<Rightarrow> string"
  sl_load_public_key :: "'par \<Rightarrow> string \<Rightarrow> 'key res"
  sl_save_secret_key :: "'key \<Rightarrow> string"
  sl_load_secret_key :: "'par \<Rightarrow> string \<Rightarrow> 'key res"
  sl_save_ciphertext :: "'ct \<Rightarrow> string"
  sl_load_ciphertext :: "'par \<Rightarrow> string \<Rightarrow> 'ct res"
  sl_encode :: "'par \<Rightarrow> fl list \<Rightarrow> fl \<Rightarrow> 'pt res"
  sl_decode :: "'par \<Rightarrow> 'pt \<Rightarrow> fl list"
  sl_encrypt :: "'par \<Rightarrow> 'key \<Rightarrow> nat \<Rightarrow> 'pt \<Rightarrow> 'ct res"
  sl_decrypt :: "'par \<Rightarrow> 'key \<Rightarrow> 'ct \<Rightarrow> 'pt res"
  sl_add :: "'par \<Rightarrow> 'ct \<Rightarrow> 'ct \<Rightarrow> 'ct res"

section \<open>The C++ core\<close>

definition load_context :: "('par, 'key, 'pt, 'ct) seal \<Rightarrow> string \<Rightarrow> 'par res" where
  "load_context S serialized_parameters =
     res_bind (sl_load_parameters S serialized_parameters) (\<lambda>par.
       if \<not> sl_parameters_set S par then Inl (ValueError ''invalid CKKS encryption parameters'') else Inr par)"

record CKKSKeyMaterial =
  km_parameters :: string
  km_public_key :: string
  km_secret_key :: string
  km_slot_count :: nat
  km_scale_bits :: int

definition generate_ckks_key_material ::
  "('par, 'key, 'pt, 'ct) seal \<Rightarrow> nat \<Rightarrow> nat \<Rightarrow> int list \<Rightarrow> int \<Rightarrow> CKKSKeyMaterial res"
where
  "generate_ckks_key_material S draw poly_modulus_degree coeff_modulus_bits scale_bits =
     (if poly_modulus_degree < 2048 \<or> poly_modulus_degree AND (poly_modulus_degree - 1) \<noteq> 0
        then Inl (ValueError ''poly_modulus_degree must be a power of two >= 2048'')
      else if length coeff_modulus_bits < 2
        then Inl (ValueError ''at least two coefficient-modulus primes are required'')
      else if scale_bits \<le> 0 \<or> 60 \<le> scale_bits then Inl (ValueError ''scale_bits must be in (0, 60)'')
      else res_bind (sl_create S poly_modulus_degree coeff_modulus_bits) (\<lambda>par.
        if \<not> sl_parameters_set S par
          then Inl (ValueError ''SEAL rejected the requested CKKS parameter set'')
        else let (secret_key, public_key) = sl_keygen S par draw
          in Inr \<lparr>km_parameters = sl_save_parameters S par, km_public_key = sl_save_public_key S public_key,
                  km_secret_key = sl_save_secret_key S secret_key, km_slot_count = sl_slot_count S par,
                  km_scale_bits = scale_bits\<rparr>))"

text \<open>
  The encryption loop, over what is left of the values from \<open>offset\<close>. \<open>draw\<close> gives the random draw of each
  chunk. The number of slots is positive (a zero would be a division by zero before the loop).
\<close>

function encrypt_chunks ::
  "('par, 'key, 'pt, 'ct) seal \<Rightarrow> 'par \<Rightarrow> 'key \<Rightarrow> fl \<Rightarrow> nat \<Rightarrow> (nat \<Rightarrow> nat) \<Rightarrow> nat \<Rightarrow> fl list \<Rightarrow> string list res"
where
  "encrypt_chunks S par key scale slots draw k rest =
     (if rest = [] \<or> slots = 0 then Inr []
      else res_bind (sl_encode S par (take slots rest) scale) (\<lambda>plaintext.
        res_bind (sl_encrypt S par key (draw k) plaintext) (\<lambda>ciphertext.
        res_bind (encrypt_chunks S par key scale slots draw (Suc k) (drop slots rest)) (\<lambda>encrypted.
          Inr (sl_save_ciphertext S ciphertext # encrypted)))))"
  by pat_completeness auto
termination
  by (relation "measure (\<lambda>(S, par, key, scale, slots, draw, k, rest). length rest)") auto

declare encrypt_chunks.simps [simp del]

definition ckks_encrypt ::
  "('par, 'key, 'pt, 'ct) seal \<Rightarrow> (nat \<Rightarrow> nat) \<Rightarrow> fl list \<Rightarrow> string \<Rightarrow> string \<Rightarrow> int \<Rightarrow> string list res"
where
  "ckks_encrypt S draw plain parameters public_key scale_bits =
     (if plain = [] then Inl (ValueError ''at least one value is required for CKKS encryption'')
      else if scale_bits \<le> 0 \<or> 60 \<le> scale_bits then Inl (ValueError ''scale_bits must be in (0, 60)'')
      else res_bind (load_context S parameters) (\<lambda>par.
        res_bind (sl_load_public_key S par public_key) (\<lambda>key.
          let slots = sl_slot_count S par; scale = Fin (2 ^ nat scale_bits)
          in encrypt_chunks S par key scale slots draw 0 plain)))"

fun add_loop :: "('par, 'key, 'pt, 'ct) seal \<Rightarrow> 'par \<Rightarrow> 'ct \<Rightarrow> string list \<Rightarrow> 'ct res" where
  "add_loop S par agg [] = Inr agg"
| "add_loop S par agg (serialized # rest) =
     res_bind (sl_load_ciphertext S par serialized) (\<lambda>current.
     res_bind (sl_add S par agg current) (\<lambda>agg. add_loop S par agg rest))"

definition ckks_add_ciphertext_sets ::
  "('par, 'key, 'pt, 'ct) seal \<Rightarrow> string list list \<Rightarrow> string \<Rightarrow> string list res"
where
  "ckks_add_ciphertext_sets S encrypted_updates parameters =
     (case encrypted_updates of
        [] \<Rightarrow> Inl (ValueError ''at least one encrypted update is required'')
      | first # others \<Rightarrow>
          (let chunk_count = length first
           in if chunk_count = 0 then Inl (ValueError ''encrypted updates must contain at least one chunk'')
              else if list_ex (\<lambda>u. length u \<noteq> chunk_count) encrypted_updates
                then Inl (ValueError ''all encrypted updates must contain the same number of chunks'')
              else res_bind (load_context S parameters) (\<lambda>par.
                res_map (\<lambda>j. res_bind (sl_load_ciphertext S par (first ! j)) (\<lambda>agg.
                  res_bind (add_loop S par agg (map (\<lambda>u. u ! j) others)) (\<lambda>agg.
                    Inr (sl_save_ciphertext S agg)))) [0..<chunk_count])))"

text \<open>The loop ends early once enough values are decoded; it never holds more than \<open>original_size\<close> of them.\<close>

fun decrypt_loop ::
  "('par, 'key, 'pt, 'ct) seal \<Rightarrow> 'par \<Rightarrow> 'key \<Rightarrow> nat \<Rightarrow> fl list \<Rightarrow> string list \<Rightarrow> fl list res"
where
  "decrypt_loop S par key original_size decoded [] = Inr decoded"
| "decrypt_loop S par key original_size decoded (serialized # rest) =
     res_bind (sl_load_ciphertext S par serialized) (\<lambda>ciphertext.
     res_bind (sl_decrypt S par key ciphertext) (\<lambda>plaintext.
       let chunk = sl_decode S par plaintext;
           remaining = original_size - length decoded;
           decoded = decoded @ take (min remaining (length chunk)) chunk
       in if length decoded = original_size then Inr decoded
          else decrypt_loop S par key original_size decoded rest))"

definition ckks_decrypt ::
  "('par, 'key, 'pt, 'ct) seal \<Rightarrow> string list \<Rightarrow> string \<Rightarrow> string \<Rightarrow> nat \<Rightarrow> fl list res"
where
  "ckks_decrypt S ciphertexts parameters secret_key original_size =
     (if ciphertexts = [] then Inl (ValueError ''at least one ciphertext chunk is required'')
      else if original_size = 0 then Inl (ValueError ''original_size must be positive'')
      else res_bind (load_context S parameters) (\<lambda>par.
        res_bind (sl_load_secret_key S par secret_key) (\<lambda>key.
        res_bind (decrypt_loop S par key original_size [] ciphertexts) (\<lambda>decoded_values.
          if length decoded_values \<noteq> original_size
            then Inl (RuntimeError ''decrypted CKKS payload is shorter than the declared original size'')
          else Inr decoded_values))))"

section \<open>Bindings\<close>

definition c_size :: "int \<Rightarrow> nat res" where
  "c_size i = (if 0 \<le> i \<and> i < 2 ^ 64 then Inr (nat i) else Inl (TypeError ''incompatible function arguments''))"

definition ckks_generate_key_material_binding ::
  "('par, 'key, 'pt, 'ct) seal \<Rightarrow> nat \<Rightarrow> int \<Rightarrow> int list \<Rightarrow> int \<Rightarrow> CKKSKeyMaterial res"
where
  "ckks_generate_key_material_binding S draw poly_modulus_degree coeff_modulus_bits scale_bits =
     res_bind (c_size poly_modulus_degree) (\<lambda>degree.
     res_bind (res_map c_int coeff_modulus_bits) (\<lambda>bits.
     res_bind (c_int scale_bits) (\<lambda>scale_bits. generate_ckks_key_material S draw degree bits scale_bits)))"

definition ckks_encrypt_binding ::
  "('par, 'key, 'pt, 'ct) seal \<Rightarrow> (nat \<Rightarrow> nat) \<Rightarrow> fl list \<Rightarrow> string \<Rightarrow> string \<Rightarrow> int \<Rightarrow> string list res"
where
  "ckks_encrypt_binding S draw plain parameters public_key scale_bits =
     res_bind (c_int scale_bits) (\<lambda>scale_bits.
       if plain = [] then Inl (ValueError ''CKKS plaintext vector must not be empty'')
       else ckks_encrypt S draw plain parameters public_key scale_bits)"

definition ckks_decrypt_binding ::
  "('par, 'key, 'pt, 'ct) seal \<Rightarrow> string list \<Rightarrow> string \<Rightarrow> string \<Rightarrow> int \<Rightarrow> fl list res"
where
  "ckks_decrypt_binding S ciphertexts parameters secret_key original_size =
     res_bind (c_size original_size) (\<lambda>n. ckks_decrypt S ciphertexts parameters secret_key n)"

section \<open>Configuration and roles\<close>

record CKKSConfig =
  cc_poly_modulus_degree :: int
  cc_coeff_modulus_bits :: "int list"
  cc_scale_bits :: int

definition default_CKKSConfig :: CKKSConfig where
  "default_CKKSConfig = \<lparr>cc_poly_modulus_degree = 8192, cc_coeff_modulus_bits = [60, 40, 40, 60], cc_scale_bits = 40\<rparr>"

definition CKKSConfig_post_init :: "CKKSConfig \<Rightarrow> unit res" where
  "CKKSConfig_post_init c =
     (let degree = cc_poly_modulus_degree c
      in if degree < 2048 \<or> degree AND (degree - 1) \<noteq> 0
           then Inl (ValueError ''poly_modulus_degree must be a power of two >= 2048'')
         else if length (cc_coeff_modulus_bits c) < 2
           then Inl (ValueError ''at least two coefficient-modulus primes are required'')
         else if cc_scale_bits c \<le> 0 \<or> 60 \<le> cc_scale_bits c
           then Inl (ValueError ''scale_bits must be in (0, 60)'')
         else Inr ())"

record CKKSPublicBundle =
  pb_parameters :: string
  pb_public_key :: string
  pb_slot_count :: nat
  pb_scale_bits :: int

definition public_bundle :: "CKKSKeyMaterial \<Rightarrow> CKKSPublicBundle" where
  "public_bundle m =
     \<lparr>pb_parameters = km_parameters m, pb_public_key = km_public_key m, pb_slot_count = km_slot_count m,
      pb_scale_bits = km_scale_bits m\<rparr>"

text \<open>The imported module: \<open>None\<close> after an \<open>ImportError\<close>, else its \<open>ckks_enabled\<close> and the SEAL it links.\<close>

record ('par, 'key, 'pt, 'ct) ckks_module =
  cm_ckks_enabled :: bool
  cm_seal :: "('par, 'key, 'pt, 'ct) seal"

definition native_ckks_available :: "('par, 'key, 'pt, 'ct) ckks_module option \<Rightarrow> bool" where
  "native_ckks_available M = (case M of None \<Rightarrow> False | Some m \<Rightarrow> cm_ckks_enabled m)"

definition require_native_ckks :: "('par, 'key, 'pt, 'ct) ckks_module option \<Rightarrow> ('par, 'key, 'pt, 'ct) seal res" where
  "require_native_ckks M =
     (case M of
        None \<Rightarrow> Inl (RuntimeError ''CKKS support is unavailable; rebuild zerotrust_fl_cpp with ZTFL_ENABLE_CKKS=ON'')
      | Some m \<Rightarrow> if \<not> native_ckks_available M then Inl (RuntimeError ''CKKS support is unavailable; rebuild zerotrust_fl_cpp with ZTFL_ENABLE_CKKS=ON'')
                  else Inr (cm_seal m))"

definition CKKSKeyMaterial_generate ::
  "('par, 'key, 'pt, 'ct) ckks_module option \<Rightarrow> nat \<Rightarrow> CKKSConfig option \<Rightarrow> CKKSKeyMaterial res"
where
  "CKKSKeyMaterial_generate M draw config =
     res_bind (require_native_ckks M) (\<lambda>S.
       let cfg = (case config of None \<Rightarrow> default_CKKSConfig | Some c \<Rightarrow> c)
       in ckks_generate_key_material_binding S draw (cc_poly_modulus_degree cfg) (cc_coeff_modulus_bits cfg)
            (cc_scale_bits cfg))"

text \<open>A model update arrives as a tensor, a numpy array or an iterable of floats; all become float64.\<close>

datatype update_values = TensorValues tensor | ArrayValues "fl list" | IterableValues "fl list"

definition as_numpy_vector :: "update_values \<Rightarrow> fl list res" where
  "as_numpy_vector v =
     (let array = (case v of TensorValues t \<Rightarrow> map (to_fmt binary64) (tdata t)
                   | ArrayValues xs \<Rightarrow> map (to_fmt binary64) xs
                   | IterableValues xs \<Rightarrow> map (to_fmt binary64) xs)
      in if array = [] then Inl (ValueError ''model update must not be empty'')
         else if \<not> all_finite array then Inl (ValueError ''model update contains non-finite values'')
         else Inr array)"

record EncryptedUpdate =
  eu_chunks :: "string list"
  eu_original_size :: int
  eu_weight :: fl

record ('par, 'key, 'pt, 'ct) CKKSClientEncryptor =
  ce_native :: "('par, 'key, 'pt, 'ct) seal"
  ce_bundle :: CKKSPublicBundle

definition CKKSClientEncryptor_init ::
  "('par, 'key, 'pt, 'ct) ckks_module option \<Rightarrow> CKKSPublicBundle \<Rightarrow> ('par, 'key, 'pt, 'ct) CKKSClientEncryptor res"
where
  "CKKSClientEncryptor_init M bundle =
     res_bind (require_native_ckks M) (\<lambda>S. Inr \<lparr>ce_native = S, ce_bundle = bundle\<rparr>)"

definition client_encrypt ::
  "('par, 'key, 'pt, 'ct) CKKSClientEncryptor \<Rightarrow> (nat \<Rightarrow> nat) \<Rightarrow> update_values \<Rightarrow> fl \<Rightarrow> EncryptedUpdate res"
where
  "client_encrypt E draw update weight =
     (if \<not> is_fin weight \<or> fl_le weight (Fin 0) then Inl (ValueError ''weight must be finite and positive'')
      else res_bind (as_numpy_vector update) (\<lambda>plain.
        let weighted = map (\<lambda>x. py_mul x weight) plain; bundle = ce_bundle E
        in res_bind (ckks_encrypt_binding (ce_native E) draw weighted (pb_parameters bundle) (pb_public_key bundle)
             (pb_scale_bits bundle)) (\<lambda>chunks.
           Inr \<lparr>eu_chunks = chunks, eu_original_size = int (length weighted), eu_weight = weight\<rparr>)))"

record ('par, 'key, 'pt, 'ct) CKKSServerAggregator =
  sa_native :: "('par, 'key, 'pt, 'ct) seal"
  sa_parameters :: string

definition CKKSServerAggregator_init ::
  "('par, 'key, 'pt, 'ct) ckks_module option \<Rightarrow> string \<Rightarrow> ('par, 'key, 'pt, 'ct) CKKSServerAggregator res"
where
  "CKKSServerAggregator_init M parameters =
     res_bind (require_native_ckks M) (\<lambda>S.
       if parameters = [] then Inl (ValueError ''serialized CKKS parameters are required'')
       else Inr \<lparr>sa_native = S, sa_parameters = parameters\<rparr>)"

text \<open>\<open>sum\<close> over floats is compensated: the error of each addition is collected and added at the end.\<close>

fun fl_abs :: "fl \<Rightarrow> fl" where
  "fl_abs (Fin x) = Fin \<bar>x\<bar>"
| "fl_abs NaN = NaN"
| "fl_abs _ = PInf"

fun py_sum_loop :: "fl \<Rightarrow> fl \<Rightarrow> fl list \<Rightarrow> fl" where
  "py_sum_loop hi lo [] = (if lo \<noteq> Fin 0 \<and> is_fin lo then py_add hi lo else hi)"
| "py_sum_loop hi lo (x # xs) =
     (let t = py_add hi x;
          err = (if fl_le (fl_abs x) (fl_abs hi) then py_add (py_sub hi t) x else py_add (py_sub x t) hi)
      in py_sum_loop t (py_add lo err) xs)"

definition py_sum :: "fl list \<Rightarrow> fl" where
  "py_sum xs = py_sum_loop (Fin 0) (Fin 0) xs"

definition server_aggregate ::
  "('par, 'key, 'pt, 'ct) CKKSServerAggregator \<Rightarrow> EncryptedUpdate list \<Rightarrow> EncryptedUpdate res"
where
  "server_aggregate A updates =
     (case updates of
        [] \<Rightarrow> Inl (ValueError ''at least one encrypted update is required'')
      | first # _ \<Rightarrow>
          if list_ex (\<lambda>u. eu_original_size u \<noteq> eu_original_size first) updates
            then Inl (ValueError ''all encrypted updates must have the same original size'')
          else res_bind (ckks_add_ciphertext_sets (sa_native A) (map eu_chunks updates) (sa_parameters A)) (\<lambda>chunks.
            Inr \<lparr>eu_chunks = chunks, eu_original_size = eu_original_size first,
                 eu_weight = py_sum (map eu_weight updates)\<rparr>))"

record ('par, 'key, 'pt, 'ct) CKKSDecryptor =
  cd_native :: "('par, 'key, 'pt, 'ct) seal"
  cd_key_material :: CKKSKeyMaterial

definition CKKSDecryptor_init ::
  "('par, 'key, 'pt, 'ct) ckks_module option \<Rightarrow> CKKSKeyMaterial \<Rightarrow> ('par, 'key, 'pt, 'ct) CKKSDecryptor res"
where
  "CKKSDecryptor_init M key_material =
     res_bind (require_native_ckks M) (\<lambda>S. Inr \<lparr>cd_native = S, cd_key_material = key_material\<rparr>)"

definition decrypt_sum :: "('par, 'key, 'pt, 'ct) CKKSDecryptor \<Rightarrow> EncryptedUpdate \<Rightarrow> fl list res" where
  "decrypt_sum D encrypted =
     ckks_decrypt_binding (cd_native D) (eu_chunks encrypted) (km_parameters (cd_key_material D))
       (km_secret_key (cd_key_material D)) (eu_original_size encrypted)"

definition decrypt_weighted_mean :: "('par, 'key, 'pt, 'ct) CKKSDecryptor \<Rightarrow> EncryptedUpdate \<Rightarrow> fl list res" where
  "decrypt_weighted_mean D encrypted =
     (if fl_le (eu_weight encrypted) (Fin 0) then Inl (ValueError ''aggregate weight must be positive'')
      else res_bind (decrypt_sum D encrypted) (\<lambda>agg.
        Inr (map (\<lambda>x. fl_div binary64 x (eu_weight encrypted)) agg)))"

section \<open>Configuration\<close>

lemma and_pred_power:
  fixes n :: int
  assumes "0 < n"
  shows "n AND (n - 1) = 0 \<longleftrightarrow> (\<exists>k. n = 2 ^ k)"
  using assms
proof (induction "nat n" arbitrary: n rule: less_induct)
  case less
  show ?case
  proof (cases "even n")
    case True
    then obtain m where n: "n = 2 * m" by blast
    then have m: "0 < m" and smaller: "nat m < nat n" using less.prems by auto
    have "(2 * m - 1) div 2 = m - 1" by linarith
    then have "n AND (n - 1) = 2 * (m AND (m - 1))"
      using n by (subst and_rec) simp
    moreover have "(\<exists>k. n = 2 ^ k) \<longleftrightarrow> (\<exists>k. m = 2 ^ k)"
    proof
      assume "\<exists>k. n = 2 ^ k"
      then obtain k where k: "n = 2 ^ k" by blast
      then show "\<exists>k. m = 2 ^ k" using n True by (cases k) auto
    next
      assume "\<exists>k. m = 2 ^ k"
      then obtain k where "m = 2 ^ k" by blast
      then have "n = 2 ^ Suc k" using n by simp
      then show "\<exists>k. n = 2 ^ k" by blast
    qed
    ultimately show ?thesis using less.hyps [OF smaller m] by simp
  next
    case False
    then obtain m where n: "n = 2 * m + 1" by (elim oddE)
    have "n AND (n - 1) = 2 * m"
      using n by (subst and_rec) simp
    moreover have "m = 0 \<longleftrightarrow> (\<exists>k. n = 2 ^ k)"
    proof
      assume "m = 0"
      then show "\<exists>k. n = 2 ^ k" using n by (intro exI [of _ 0]) simp
    next
      assume "\<exists>k. n = 2 ^ k"
      then obtain k where k: "n = 2 ^ k" by blast
      then show "m = 0" using n False by (cases k) auto
    qed
    ultimately show ?thesis by simp
  qed
qed

definition wf_CKKSConfig :: "CKKSConfig \<Rightarrow> bool" where
  "wf_CKKSConfig c \<longleftrightarrow>
     (\<exists>k. cc_poly_modulus_degree c = 2 ^ k) \<and> 2048 \<le> cc_poly_modulus_degree c \<and>
     2 \<le> length (cc_coeff_modulus_bits c) \<and> 0 < cc_scale_bits c \<and> cc_scale_bits c < 60"

interpretation ckks_config: validated_record CKKSConfig_post_init wf_CKKSConfig
proof
  fix c
  show "CKKSConfig_post_init c = Inr () \<longleftrightarrow> wf_CKKSConfig c"
  proof (cases "2048 \<le> cc_poly_modulus_degree c")
    case True
    then have "cc_poly_modulus_degree c AND (cc_poly_modulus_degree c - 1) = 0 \<longleftrightarrow> (\<exists>k. cc_poly_modulus_degree c = 2 ^ k)"
      by (intro and_pred_power) simp
    with True show ?thesis by (auto simp: CKKSConfig_post_init_def wf_CKKSConfig_def Let_def)
  qed (simp add: CKKSConfig_post_init_def wf_CKKSConfig_def)
qed

section \<open>What the roles rely on\<close>

text \<open>
  \<open>noise ct m x\<close>: the ciphertext \<open>ct\<close> carries the message \<open>m\<close>, one number per slot, up to an error of at most
  \<open>x\<close> per slot. \<open>bound\<close> limits what fits into the coefficient modulus.
\<close>

definition fits :: "real \<Rightarrow> real \<Rightarrow> real list \<Rightarrow> bool" where
  "fits bound x m \<longleftrightarrow> (\<forall>v \<in> set m. \<bar>v\<bar> + x \<le> bound)"

definition near :: "real \<Rightarrow> fl \<Rightarrow> real \<Rightarrow> bool" where
  "near r z v \<longleftrightarrow> is_fin z \<and> \<bar>val z - v\<bar> \<le> r"

definition saves_ok :: "('par, 'key, 'pt, 'ct) seal \<Rightarrow> ('ct \<Rightarrow> real list \<Rightarrow> real \<Rightarrow> bool) \<Rightarrow> 'par \<Rightarrow> 'key \<Rightarrow> 'key \<Rightarrow> bool" where
  "saves_ok S noise par sk pk \<longleftrightarrow>
     sl_save_parameters S par \<noteq> [] \<and> sl_load_parameters S (sl_save_parameters S par) = Inr par \<and>
     sl_load_public_key S par (sl_save_public_key S pk) = Inr pk \<and>
     sl_load_secret_key S par (sl_save_secret_key S sk) = Inr sk \<and>
     (\<forall>ct m x. noise ct m x \<longrightarrow> sl_load_ciphertext S par (sl_save_ciphertext S ct) = Inr ct)"

definition encryption_ok ::
  "('par, 'key, 'pt, 'ct) seal \<Rightarrow> ('ct \<Rightarrow> real list \<Rightarrow> real \<Rightarrow> bool) \<Rightarrow> 'par \<Rightarrow> 'key \<Rightarrow> int \<Rightarrow> real \<Rightarrow> real \<Rightarrow> bool"
where
  "encryption_ok S noise par pk scale_bits fresh bound \<longleftrightarrow>
     (\<forall>xs draw. xs \<noteq> [] \<longrightarrow> length xs \<le> sl_slot_count S par \<longrightarrow> all_finite xs \<longrightarrow> fits bound fresh (map val xs) \<longrightarrow>
        (\<exists>pt ct. sl_encode S par xs (Fin (2 ^ nat scale_bits)) = Inr pt \<and> sl_encrypt S par pk draw pt = Inr ct \<and>
           noise ct (map val xs @ replicate (sl_slot_count S par - length xs) 0) fresh))"

definition addition_ok :: "('par, 'key, 'pt, 'ct) seal \<Rightarrow> ('ct \<Rightarrow> real list \<Rightarrow> real \<Rightarrow> bool) \<Rightarrow> 'par \<Rightarrow> real \<Rightarrow> bool" where
  "addition_ok S noise par bound \<longleftrightarrow>
     (\<forall>a b m u x y. noise a m x \<longrightarrow> noise b u y \<longrightarrow> length m = sl_slot_count S par \<longrightarrow>
        length u = sl_slot_count S par \<longrightarrow> fits bound (x + y) (map2 (+) m u) \<longrightarrow>
        (\<exists>c. sl_add S par a b = Inr c \<and> noise c (map2 (+) m u) (x + y)))"

definition decryption_ok ::
  "('par, 'key, 'pt, 'ct) seal \<Rightarrow> ('ct \<Rightarrow> real list \<Rightarrow> real \<Rightarrow> bool) \<Rightarrow> 'par \<Rightarrow> 'key \<Rightarrow> real \<Rightarrow> real \<Rightarrow> bool"
where
  "decryption_ok S noise par sk decoding bound \<longleftrightarrow>
     (\<forall>c m x. noise c m x \<longrightarrow> length m = sl_slot_count S par \<longrightarrow> fits bound x m \<longrightarrow>
        (\<exists>pt. sl_decrypt S par sk c = Inr pt \<and> list_all2 (near (x + decoding)) (sl_decode S par pt) m))"

definition seal_ok ::
  "('par, 'key, 'pt, 'ct) seal \<Rightarrow> ('par \<Rightarrow> 'key \<Rightarrow> 'ct \<Rightarrow> real list \<Rightarrow> real \<Rightarrow> bool) \<Rightarrow> int \<Rightarrow> real \<Rightarrow> real \<Rightarrow> real \<Rightarrow> bool"
where
  "seal_ok S noise scale_bits fresh decoding bound \<longleftrightarrow>
     0 \<le> fresh \<and>
     (\<forall>degree bits par draw sk pk. sl_create S degree bits = Inr par \<longrightarrow> sl_parameters_set S par \<longrightarrow>
        sl_keygen S par draw = (sk, pk) \<longrightarrow>
        0 < sl_slot_count S par \<and> saves_ok S (noise par sk) par sk pk \<and>
        encryption_ok S (noise par sk) par pk scale_bits fresh bound \<and> addition_ok S (noise par sk) par bound \<and>
        decryption_ok S (noise par sk) par sk decoding bound)"

section \<open>Vectors in slots\<close>

text \<open>A vector cut into blocks of \<open>n\<close> slots, the last one filled up with zeros.\<close>

function blocks :: "nat \<Rightarrow> real list \<Rightarrow> real list list" where
  "blocks n xs = (if xs = [] \<or> n = 0 then [] else (take n xs @ replicate (n - length xs) 0) # blocks n (drop n xs))"
  by pat_completeness auto
termination
  by (relation "measure (\<lambda>(n, xs). length xs)") auto

declare blocks.simps [simp del]

lemma blocks_Nil [simp]: "blocks n [] = []"
  by (simp add: blocks.simps)

lemma blocks_0: "blocks 0 xs = []"
  by (simp add: blocks.simps)

lemma blocks_step:
  "0 < n \<Longrightarrow> xs \<noteq> [] \<Longrightarrow> blocks n xs = (take n xs @ replicate (n - length xs) 0) # blocks n (drop n xs)"
  by (subst blocks.simps) simp

lemma length_block: "b \<in> set (blocks n xs) \<Longrightarrow> length b = n"
proof (induction n xs rule: blocks.induct)
  case (1 n xs)
  then show ?case by (subst (asm) blocks.simps) (auto split: if_splits)
qed

lemma length_blocks: "0 < n \<Longrightarrow> length (blocks n xs) = (length xs + n - 1) div n"
proof (induction n xs rule: blocks.induct)
  case (1 n xs)
  note n = 1(2)
  show ?case
  proof (cases "xs = []")
    case True
    then show ?thesis using n by simp
  next
    case False
    then have "length (blocks n (drop n xs)) = (length xs - n + n - 1) div n"
      using 1(1) n by simp
    then have "length (blocks n xs) = Suc ((length xs - n + n - 1) div n)"
      by (simp only: blocks_step [OF n False] list.size)
    also have "\<dots> = (length xs + n - 1) div n"
    proof (cases "n \<le> length xs")
      case True
      then have "length xs + n - 1 = (length xs - n + n - 1) + n" using n by linarith
      then show ?thesis using div_add_self2 [OF gr_implies_not0 [OF n]] by (metis Suc_eq_plus1)
    next
      case small: False
      have "0 < length xs" using False by blast
      with small have "length xs + n - 1 = (length xs - 1) + n" "(length xs - 1) div n = 0" "(length xs - n + n - 1) div n = 0"
        using n by (linarith, simp_all)
      then show ?thesis using div_add_self2 [OF gr_implies_not0 [OF n]] by (metis Suc_eq_plus1)
    qed
    finally show ?thesis .
  qed
qed

lemma concat_blocks: "0 < n \<Longrightarrow> \<exists>k. concat (blocks n xs) = xs @ replicate k 0"
proof (induction n xs rule: blocks.induct)
  case (1 n xs)
  show ?case
  proof (cases "xs = []")
    case True
    then show ?thesis by simp
  next
    case False
    show ?thesis
    proof (cases "length xs \<le> n")
      case True
      then show ?thesis using 1 False by (subst blocks_step) auto
    next
      case less: False
      from 1 False less obtain k where "concat (blocks n (drop n xs)) = drop n xs @ replicate k 0" by auto
      then have "concat (blocks n xs) = take n xs @ drop n xs @ replicate k 0"
        using 1 False less by (subst blocks_step) auto
      then show ?thesis by (metis append_assoc append_take_drop_id)
    qed
  qed
qed

lemma blocks_add:
  "length xs = length ys \<Longrightarrow> blocks n (map2 (+) xs ys) = map2 (map2 (+)) (blocks n xs) (blocks n ys)"
proof (induction n xs arbitrary: ys rule: blocks.induct)
  case (1 n xs)
  show ?case
  proof (cases "xs = [] \<or> n = 0")
    case True
    then show ?thesis using 1 by (auto simp: blocks_0)
  next
    case False
    then have ne: "0 < n" "xs \<noteq> []" "ys \<noteq> []" "map2 (+) xs ys \<noteq> []" using 1 by auto
    have "blocks n (map2 (+) (drop n xs) (drop n ys)) = map2 (map2 (+)) (blocks n (drop n xs)) (blocks n (drop n ys))"
      using 1(1) [OF False] 1(2) by simp
    moreover have "map2 (+) (replicate k 0) (replicate k 0) = replicate k (0::real)" for k
      by (simp add: zip_replicate)
    ultimately show ?thesis
      using 1 unfolding blocks_step [OF ne(1,2)] blocks_step [OF ne(1,3)] blocks_step [OF ne(1,4)]
      by (simp add: take_map drop_map take_zip drop_zip zip_append)
  qed
qed

lemma foldl_map2_nth:
  assumes "length b = k" "\<forall>c \<in> set bs. length c = k" "j < k"
  shows "length (foldl (map2 f) b bs) = k \<and> foldl (map2 f) b bs ! j = foldl f (b ! j) (map (\<lambda>c. c ! j) bs)"
  using assms by (induction bs arbitrary: b) auto

lemma blocks_sum:
  assumes "\<forall>u \<in> set us. length u = length m"
  shows "foldl (map2 (map2 (+))) (blocks n m) (map (blocks n) us) = blocks n (foldl (map2 (+)) m us)"
  using assms
proof (induction us arbitrary: m)
  case (Cons u us)
  then show ?case using blocks_add [of m u n] Cons.IH [of "map2 (+) m u"] by simp
qed simp

lemma foldl_plus: "foldl (+) (a::real) xs = a + sum_list xs"
  by (induction xs arbitrary: a) simp_all


section \<open>One chunk at a time\<close>

lemma saves_okD:
  assumes "saves_ok S noise par sk pk"
  shows "sl_load_parameters S (sl_save_parameters S par) = Inr par" "sl_save_parameters S par \<noteq> []"
    "sl_load_public_key S par (sl_save_public_key S pk) = Inr pk"
    "sl_load_secret_key S par (sl_save_secret_key S sk) = Inr sk"
    "noise ct m x \<Longrightarrow> sl_load_ciphertext S par (sl_save_ciphertext S ct) = Inr ct"
  using assms unfolding saves_ok_def by auto

lemma encrypt_chunks_ok:
  assumes enc: "encryption_ok S noise par pk scale_bits fresh bound" and slots: "0 < sl_slot_count S par"
    and fin: "all_finite xs" and small: "fits bound fresh (map val xs)"
  shows "\<exists>cts. encrypt_chunks S par pk (Fin (2 ^ nat scale_bits)) (sl_slot_count S par) draw k xs =
      Inr (map (sl_save_ciphertext S) cts) \<and>
    list_all2 (\<lambda>ct b. noise ct b fresh) cts (blocks (sl_slot_count S par) (map val xs))"
  using fin small
proof (induction "length xs" arbitrary: xs k rule: less_induct)
  case less
  let ?n = "sl_slot_count S par"
  show ?case
  proof (cases "xs = []")
    case True
    then show ?thesis by (simp add: encrypt_chunks.simps)
  next
    case False
    have part: "all_finite (take ?n xs)" "fits bound fresh (map val (take ?n xs))"
      "all_finite (drop ?n xs)" "fits bound fresh (map val (drop ?n xs))"
      using less.prems by (auto simp: all_finite_def fits_def list_all_iff dest: in_set_takeD in_set_dropD)
    have "take ?n xs \<noteq> []" "length (take ?n xs) \<le> ?n" using False slots by auto
    then obtain pt ct where head: "sl_encode S par (take ?n xs) (Fin (2 ^ nat scale_bits)) = Inr pt"
        "sl_encrypt S par pk (draw k) pt = Inr ct"
        "noise ct (map val (take ?n xs) @ replicate (?n - length (take ?n xs)) 0) fresh"
      using enc part unfolding encryption_ok_def by blast
    have "length (drop ?n xs) < length xs" using False slots by simp
    from less.hyps [OF this part(3,4)] obtain cts where tail:
        "encrypt_chunks S par pk (Fin (2 ^ nat scale_bits)) ?n draw (Suc k) (drop ?n xs) =
           Inr (map (sl_save_ciphertext S) cts)"
        "list_all2 (\<lambda>ct b. noise ct b fresh) cts (blocks ?n (map val (drop ?n xs)))"
      by blast
    have block: "blocks ?n (map val xs) =
        (map val (take ?n xs) @ replicate (?n - length (take ?n xs)) 0) # blocks ?n (map val (drop ?n xs))"
      using slots False by (subst blocks_step) (auto simp: take_map drop_map min_def)
    have "encrypt_chunks S par pk (Fin (2 ^ nat scale_bits)) ?n draw k xs = Inr (map (sl_save_ciphertext S) (ct # cts))"
      using False slots head tail by (subst encrypt_chunks.simps) simp
    moreover have "list_all2 (\<lambda>ct b. noise ct b fresh) (ct # cts) (blocks ?n (map val xs))"
      using head(3) tail(2) by (simp only: block list_all2_Cons simp_thms)
    ultimately show ?thesis by blast
  qed
qed

lemma add_loop_ok:
  assumes add: "addition_ok S noise par bound" and load: "saves_ok S noise par sk pk"
    and "noise c m x" "list_all2 (\<lambda>ct u. noise ct u fresh) cts us"
    and "length m = sl_slot_count S par" "\<forall>u \<in> set us. length u = sl_slot_count S par" "0 \<le> fresh"
    and "\<forall>i < sl_slot_count S par. \<bar>m ! i\<bar> + (\<Sum>u \<leftarrow> us. \<bar>u ! i\<bar>) + x + fresh * real (length us) \<le> bound"
  shows "\<exists>d. add_loop S par c (map (sl_save_ciphertext S) cts) = Inr d \<and>
    noise d (foldl (map2 (+)) m us) (x + fresh * real (length us))"
  using assms(3-)
proof (induction cts arbitrary: c m x us)
  case (Cons ct cts)
  then obtain u vs where us: "us = u # vs" and u: "noise ct u fresh"
    and vs: "list_all2 (\<lambda>ct u. noise ct u fresh) cts vs"
    by (auto simp: list_all2_Cons1)
  let ?m = "map2 (+) m u"
  have len: "length u = sl_slot_count S par" "length ?m = sl_slot_count S par" using Cons.prems us by auto
  have nonneg: "0 \<le> (\<Sum>v \<leftarrow> vs. \<bar>v ! i\<bar>)" "0 \<le> fresh * real (length vs)" for i
    using Cons.prems(5) by (induction vs) simp_all
  have step: "\<bar>?m ! i\<bar> + (\<Sum>v \<leftarrow> vs. \<bar>v ! i\<bar>) + (x + fresh) + fresh * real (length vs) \<le> bound"
    if i: "i < sl_slot_count S par" for i
  proof -
    have "\<bar>m ! i\<bar> + (\<bar>u ! i\<bar> + (\<Sum>v \<leftarrow> vs. \<bar>v ! i\<bar>)) + x + (fresh + fresh * real (length vs)) \<le> bound"
      using Cons.prems(6) i us by (simp add: algebra_simps)
    moreover have "?m ! i = m ! i + u ! i" using i len Cons.prems by simp
    ultimately show ?thesis using abs_triangle_ineq [of "m ! i" "u ! i"] by linarith
  qed
  have "fits bound (x + fresh) ?m"
    unfolding fits_def
  proof
    fix v assume "v \<in> set ?m"
    then obtain i where "i < length ?m" and v: "v = ?m ! i" unfolding in_set_conv_nth by blast
    then have i: "i < sl_slot_count S par" using len(1) by simp
    show "\<bar>v\<bar> + (x + fresh) \<le> bound" unfolding v using step [OF i] nonneg(1) [of i] nonneg(2) by linarith
  qed
  from add [unfolded addition_ok_def, rule_format, OF Cons.prems(1) u Cons.prems(3) len(1) this]
  obtain e where e: "sl_add S par c ct = Inr e" "noise e ?m (x + fresh)"
    by blast
  have "\<exists>d. add_loop S par e (map (sl_save_ciphertext S) cts) = Inr d \<and>
      noise d (foldl (map2 (+)) ?m vs) (x + fresh + fresh * real (length vs))"
  proof (rule Cons.IH [OF e(2) vs len(2)])
    show "\<forall>u \<in> set vs. length u = sl_slot_count S par" using Cons.prems(4) us by simp
    show "\<forall>i < sl_slot_count S par. \<bar>?m ! i\<bar> + (\<Sum>v \<leftarrow> vs. \<bar>v ! i\<bar>) + (x + fresh) + fresh * real (length vs) \<le> bound"
      using step by blast
  qed (rule Cons.prems(5))
  then obtain d where d: "add_loop S par e (map (sl_save_ciphertext S) cts) = Inr d"
      "noise d (foldl (map2 (+)) ?m vs) (x + fresh + fresh * real (length vs))" by blast
  have x: "x + fresh + fresh * real (length vs) = x + fresh * real (length us)"
    unfolding us by (simp add: algebra_simps)
  have "add_loop S par c (map (sl_save_ciphertext S) (ct # cts)) = Inr d"
    using d(1) e(1) saves_okD(5) [OF load u] by simp
  moreover have "noise d (foldl (map2 (+)) m us) (x + fresh * real (length us))"
    using d(2) unfolding x unfolding us foldl.simps .
  ultimately show ?case by blast
qed simp

lemma decrypt_chunks_ok:
  assumes dec: "decryption_ok S noise par sk decoding bound" and load: "saves_ok S noise par sk pk"
    and "list_all2 (\<lambda>ct b. noise ct b x) cts bs" "\<forall>b \<in> set bs. length b = sl_slot_count S par \<and> fits bound x b"
  shows "\<exists>pts. list_all2 (\<lambda>ct pt. sl_load_ciphertext S par (sl_save_ciphertext S ct) = Inr ct \<and>
        sl_decrypt S par sk ct = Inr pt) cts pts \<and>
      list_all2 (list_all2 (near (x + decoding))) (map (sl_decode S par) pts) bs"
  using assms(3-)
proof (induction cts bs rule: list_all2_induct)
  case (Cons ct cts b bs)
  then obtain pts where pts: "list_all2 (\<lambda>ct pt. sl_load_ciphertext S par (sl_save_ciphertext S ct) = Inr ct \<and>
        sl_decrypt S par sk ct = Inr pt) cts pts"
      "list_all2 (list_all2 (near (x + decoding))) (map (sl_decode S par) pts) bs"
    by auto
  have "length b = sl_slot_count S par" "fits bound x b" using Cons.prems by auto
  from dec [unfolded decryption_ok_def, rule_format, OF Cons.hyps(1) this]
  obtain pt where "sl_decrypt S par sk ct = Inr pt" "list_all2 (near (x + decoding)) (sl_decode S par pt) b"
    by blast
  then show ?case using pts saves_okD(5) [OF load Cons.hyps(1)] by (intro exI [of _ "pt # pts"]) simp
qed simp

lemma decrypt_loop_eq:
  assumes "list_all2 (\<lambda>ct pt. sl_load_ciphertext S par (sl_save_ciphertext S ct) = Inr ct \<and>
      sl_decrypt S par sk ct = Inr pt) cts pts" "length decoded < n"
  shows "decrypt_loop S par sk n decoded (map (sl_save_ciphertext S) cts) =
    Inr (take n (decoded @ concat (map (sl_decode S par) pts)))"
  using assms
proof (induction cts pts arbitrary: decoded rule: list_all2_induct)
  case (Cons ct cts pt pts)
  let ?chunk = "sl_decode S par pt"
  let ?decoded = "decoded @ take (min (n - length decoded) (length ?chunk)) ?chunk"
  have decoded: "?decoded = take n (decoded @ ?chunk)" using Cons.prems by (simp add: min_def)
  have step: "decrypt_loop S par sk n decoded (map (sl_save_ciphertext S) (ct # cts)) =
      (if length (take n (decoded @ ?chunk)) = n then Inr (take n (decoded @ ?chunk))
       else decrypt_loop S par sk n (take n (decoded @ ?chunk)) (map (sl_save_ciphertext S) cts))"
    using Cons.hyps(1) unfolding decoded [symmetric] list.map decrypt_loop.simps by (simp only: res_bind.simps Let_def simp_thms)
  show ?case
  proof (cases "length decoded + length ?chunk < n")
    case True
    then have "take n (decoded @ ?chunk) = decoded @ ?chunk" by simp
    then show ?thesis unfolding step using True Cons.IH [of "decoded @ ?chunk"] by simp
  next
    case False
    then have "length (take n (decoded @ ?chunk)) = n" by auto
    then show ?thesis unfolding step using False by simp
  qed
qed simp

lemma list_all2_concat: "list_all2 (list_all2 P) xss yss \<Longrightarrow> list_all2 P (concat xss) (concat yss)"
  by (induction xss yss rule: list_all2_induct) (auto intro: list_all2_appendI)

lemma blocks_nth:
  "0 < n \<Longrightarrow> j < length (blocks n xs) \<Longrightarrow> i < n \<Longrightarrow>
     blocks n xs ! j ! i = (if j * n + i < length xs then xs ! (j * n + i) else 0)"
proof (induction n xs arbitrary: j rule: blocks.induct)
  case (1 n xs)
  have ne: "xs \<noteq> []" using 1(3) by auto
  note step = blocks_step [OF 1(2) ne]
  show ?case
  proof (cases j)
    case 0
    then show ?thesis using 1(4) by (simp add: step nth_append)
  next
    case (Suc k)
    have "k < length (blocks n (drop n xs))" using 1(3) Suc by (simp add: step)
    then have "blocks n (drop n xs) ! k ! i = (if k * n + i < length (drop n xs) then drop n xs ! (k * n + i) else 0)"
      using 1 ne by simp
    then show ?thesis using Suc 1(3) by (auto simp: step add.assoc)
  qed
qed

lemma block_bound:
  assumes "0 < slots" "0 < width" "\<forall>v \<in> set vs. length v = width"
    and small: "\<forall>i < width. (\<Sum>v \<leftarrow> vs. \<bar>v ! i\<bar>) + x \<le> bound"
    and j: "j < (width + slots - 1) div slots" "i < slots"
  shows "(\<Sum>v \<leftarrow> vs. \<bar>blocks slots v ! j ! i\<bar>) + x \<le> bound"
proof -
  have nth: "blocks slots v ! j ! i = (if j * slots + i < width then v ! (j * slots + i) else 0)" if "v \<in> set vs" for v
    using assms that blocks_nth [of slots j v i] by (simp add: length_blocks)
  show ?thesis
  proof (cases "j * slots + i < width")
    case True
    then have "(\<Sum>v \<leftarrow> vs. \<bar>blocks slots v ! j ! i\<bar>) = (\<Sum>v \<leftarrow> vs. \<bar>v ! (j * slots + i)\<bar>)"
      using nth by (intro arg_cong [of _ _ sum_list]) simp
    then show ?thesis using small True by simp
  next
    case False
    then have "(\<Sum>v \<leftarrow> vs. \<bar>blocks slots v ! j ! i\<bar>) = (\<Sum>v \<leftarrow> vs. 0)"
      using nth by (intro arg_cong [of _ _ sum_list]) simp
    moreover have "0 \<le> (\<Sum>v \<leftarrow> vs. \<bar>v ! 0\<bar>)" by (induction vs) simp_all
    ultimately show ?thesis using small assms(2) by force
  qed
qed

lemma length_chunk_sets:
  assumes "list_all2 (\<lambda>cts v. list_all2 P cts (blocks n v)) css vs" "\<forall>v \<in> set vs. length v = width" "0 < n"
    and "d \<in> set css"
  shows "length d = (width + n - 1) div n"
proof -
  obtain k where k: "k < length css" "css ! k = d" using \<open>d \<in> set css\<close> by (auto simp: in_set_conv_nth)
  with assms(1) have "list_all2 P d (blocks n (vs ! k))" "vs ! k \<in> set vs"
    by (auto simp: list_all2_conv_all_nth)
  then show ?thesis using assms(2,3) by (simp add: list_all2_lengthD length_blocks)
qed

lemma add_chunk_ok:
  assumes add: "addition_ok S noise par bound" and load: "saves_ok S noise par sk pk"
    and slots: "0 < sl_slot_count S par" "0 < width" "0 \<le> fresh"
    and sets: "list_all2 (\<lambda>cts v. list_all2 (\<lambda>ct b. noise ct b fresh) cts (blocks (sl_slot_count S par) v)) (c # ds) (v # us)"
    and vs: "\<forall>v \<in> set (v # us). length v = width"
    and small: "\<forall>i < width. (\<Sum>v \<leftarrow> v # us. \<bar>v ! i\<bar>) + fresh * real (length (v # us)) \<le> bound"
    and j: "j < (width + sl_slot_count S par - 1) div sl_slot_count S par"
  shows "\<exists>e. res_bind (sl_load_ciphertext S par (map (sl_save_ciphertext S) c ! j)) (\<lambda>agg.
        res_bind (add_loop S par agg (map (\<lambda>u. u ! j) (map (map (sl_save_ciphertext S)) ds))) (\<lambda>agg.
          Inr (sl_save_ciphertext S agg))) = Inr (sl_save_ciphertext S e) \<and>
      noise e (blocks (sl_slot_count S par) (foldl (map2 (+)) v us) ! j) (fresh * real (length (v # us)))"
proof -
  let ?n = "sl_slot_count S par"
  let ?save = "sl_save_ciphertext S"
  let ?m = "blocks ?n v ! j" and ?us = "map (\<lambda>u. blocks ?n u ! j) us" and ?cs = "map (\<lambda>d. d ! j) ds"
  note lens = length_chunk_sets [OF sets vs slots(1)]
  have count: "length (blocks ?n u) = (width + ?n - 1) div ?n" if "u \<in> set (v # us)" for u
    using that vs slots by (auto simp: length_blocks)
  have block: "length (blocks ?n u ! j) = ?n" if "u \<in> set (v # us)" for u
    using length_block [OF nth_mem, of j ?n u] count [OF that] j by simp
  have split: "list_all2 (\<lambda>ct b. noise ct b fresh) c (blocks ?n v)"
      "list_all2 (\<lambda>cts v. list_all2 (\<lambda>ct b. noise ct b fresh) cts (blocks ?n v)) ds us"
    using sets by simp_all
  have m: "noise (c ! j) ?m fresh" using list_all2_nthD [OF split(1), of j] j lens by simp
  have us: "list_all2 (\<lambda>ct u. noise ct u fresh) ?cs ?us"
    unfolding list_all2_map1 list_all2_map2
  proof (rule list_all2_all_nthI)
    show "length ds = length us" using split(2) by (rule list_all2_lengthD)
    fix k assume k: "k < length ds"
    from list_all2_nthD [OF list_all2_nthD [OF split(2) k], of j] k j lens
    show "noise (ds ! k ! j) (blocks ?n (us ! k) ! j) fresh" by simp
  qed
  have len: "length ?m = ?n" "\<forall>u \<in> set ?us. length u = ?n" using block by auto
  have "\<forall>i < ?n. \<bar>?m ! i\<bar> + (\<Sum>u \<leftarrow> ?us. \<bar>u ! i\<bar>) + fresh + fresh * real (length ?us) \<le> bound"
  proof (intro allI impI)
    fix i assume "i < ?n"
    from block_bound [OF slots(1,2) vs small j this]
    show "\<bar>?m ! i\<bar> + (\<Sum>u \<leftarrow> ?us. \<bar>u ! i\<bar>) + fresh + fresh * real (length ?us) \<le> bound"
      by (simp add: o_def algebra_simps)
  qed
  from add_loop_ok [OF add load m us len slots(3) this]
  obtain e where e: "add_loop S par (c ! j) (map ?save ?cs) = Inr e"
    "noise e (foldl (map2 (+)) ?m ?us) (fresh + fresh * real (length ?us))" by blast
  have "foldl (map2 (map2 (+))) (blocks ?n v) (map (blocks ?n) us) ! j = foldl (map2 (+)) ?m ?us"
    using foldl_map2_nth [of "blocks ?n v" "(width + ?n - 1) div ?n" "map (blocks ?n) us" j "map2 (+)"] count j
    by (simp add: o_def)
  then have sums: "foldl (map2 (+)) ?m ?us = blocks ?n (foldl (map2 (+)) v us) ! j"
    using blocks_sum [of us v ?n] vs by simp
  have noises: "fresh + fresh * real (length ?us) = fresh * real (length (v # us))"
    by (simp add: algebra_simps)
  have saves: "map (\<lambda>u. u ! j) (map (map ?save) ds) = map ?save ?cs" "map ?save c ! j = ?save (c ! j)"
    using lens j by simp_all
  show ?thesis
    using e unfolding saves sums noises by (simp add: saves_okD(5) [OF load m] del: map_map) blast
qed

lemma ckks_add_ok:
  assumes add: "addition_ok S noise par bound" and load: "saves_ok S noise par sk pk" and set: "sl_parameters_set S par"
    and slots: "0 < sl_slot_count S par" "0 < width" "0 \<le> fresh"
    and sets: "list_all2 (\<lambda>cts v. list_all2 (\<lambda>ct b. noise ct b fresh) cts (blocks (sl_slot_count S par) v)) css (v # us)"
    and vs: "\<forall>v \<in> set (v # us). length v = width"
    and small: "\<forall>i < width. (\<Sum>v \<leftarrow> v # us. \<bar>v ! i\<bar>) + fresh * real (length (v # us)) \<le> bound"
  shows "\<exists>cs. ckks_add_ciphertext_sets S (map (map (sl_save_ciphertext S)) css) (sl_save_parameters S par) =
      Inr (map (sl_save_ciphertext S) cs) \<and>
    list_all2 (\<lambda>c b. noise c b (fresh * real (length (v # us)))) cs (blocks (sl_slot_count S par) (foldl (map2 (+)) v us))"
proof -
  let ?n = "sl_slot_count S par"
  let ?save = "sl_save_ciphertext S"
  let ?count = "(width + ?n - 1) div ?n"
  obtain c ds where css: "css = c # ds" using sets by (auto simp: list_all2_Cons2)
  let ?chunk = "\<lambda>j. res_bind (sl_load_ciphertext S par (map ?save c ! j)) (\<lambda>agg.
        res_bind (add_loop S par agg (map (\<lambda>u. u ! j) (map (map ?save) ds))) (\<lambda>agg. Inr (?save agg)))"
  note lens = length_chunk_sets [OF sets vs slots(1)]
  have "\<forall>j. j < ?count \<longrightarrow> (\<exists>e. ?chunk j = Inr (?save e) \<and>
      noise e (blocks ?n (foldl (map2 (+)) v us) ! j) (fresh * real (length (v # us))))"
    using add_chunk_ok [OF add load slots sets [unfolded css] vs small] by blast
  then obtain f where f: "\<And>j. j < ?count \<Longrightarrow> ?chunk j = Inr (?save (f j))"
      "\<And>j. j < ?count \<Longrightarrow> noise (f j) (blocks ?n (foldl (map2 (+)) v us) ! j) (fresh * real (length (v # us)))"
    by metis
  have fold: "length (foldl (map2 (+)) v us) = width"
    using foldl_map2_nth [of v width us 0 "(+)"] vs slots by simp
  have "res_map ?chunk [0..<?count] = Inr (map (\<lambda>j. ?save (f j)) [0..<?count])"
    using f(1) by (intro res_map_all_Inr) simp
  moreover have "load_context S (sl_save_parameters S par) = Inr par"
    using saves_okD(1) [OF load] set by (simp add: load_context_def)
  moreover have "0 < ?count" using slots by (simp add: div_greater_zero_iff)
  moreover have "\<not> list_ex (\<lambda>u. length u \<noteq> ?count) (map (map ?save) css)" using lens by (auto simp: list_ex_iff)
  moreover have "length (map ?save c) = ?count" using lens css by simp
  ultimately have "ckks_add_ciphertext_sets S (map (map ?save) css) (sl_save_parameters S par) =
      Inr (map ?save (map f [0..<?count]))"
    unfolding ckks_add_ciphertext_sets_def css by (simp add: Let_def o_def)
  moreover have "list_all2 (\<lambda>c b. noise c b (fresh * real (length (v # us)))) (map f [0..<?count])
      (blocks ?n (foldl (map2 (+)) v us))"
    using f(2) fold slots by (simp add: list_all2_conv_all_nth length_blocks)
  ultimately show ?thesis by blast
qed


section \<open>Sums of sample counts\<close>

lemma rnd64_count: "n < 2 ^ 53 \<Longrightarrow> rnd binary64 (real n) = Fin (real n)"
  "n < 2 ^ 53 \<Longrightarrow> rnd binary64 (- real n) = Fin (- real n)"
  using rnd64_int [of "int n"] rnd64_int [of "- int n"] by simp_all

lemma py_sum_loop_counts:
  "h + sum_list ns < 2 ^ 53 \<Longrightarrow>
     py_sum_loop (Fin (real h)) (Fin 0) (map (\<lambda>n. Fin (real n)) ns) = Fin (real (h + sum_list ns))"
proof (induction ns arbitrary: h)
  case (Cons n ns)
  have small: "h + n < 2 ^ 53" "h < 2 ^ 53" "n < 2 ^ 53" using Cons.prems by simp_all
  have step: "py_add (Fin (real h)) (Fin (real n)) = Fin (real (h + n))"
    using rnd64_count(1) [OF small(1)] by simp
  have err: "py_add (py_sub (Fin (real h)) (Fin (real (h + n)))) (Fin (real n)) = Fin 0"
    "py_add (py_sub (Fin (real n)) (Fin (real (h + n)))) (Fin (real h)) = Fin 0"
    using rnd64_count(2) [OF small(2)] rnd64_count(2) [OF small(3)] rnd64_count(1) [of 0] by (simp_all add: fl_sub_def)
  have eq: "py_sum_loop (Fin (real h)) (Fin 0) (map (\<lambda>n. Fin (real n)) (n # ns)) =
      py_sum_loop (Fin (real (h + n))) (Fin 0) (map (\<lambda>n. Fin (real n)) ns)"
    unfolding list.map py_sum_loop.simps Let_def step err if_cancel using rnd64_count(1) [of 0] by simp
  show ?case unfolding eq using Cons.IH [of "h + n"] Cons.prems by (simp add: add.assoc)
qed simp

lemma py_sum_counts: "sum_list ns < 2 ^ 53 \<Longrightarrow> py_sum (map (\<lambda>n. Fin (real n)) ns) = Fin (real (sum_list ns))"
  using py_sum_loop_counts [of 0 ns] by (simp add: py_sum_def)

section \<open>The encrypted round\<close>

lemma generate_ok:
  assumes ok: "seal_ok S noise (cc_scale_bits cfg) fresh decoding bound" and M: "M = Some \<lparr>cm_ckks_enabled = True, cm_seal = S\<rparr>"
    and gen: "CKKSKeyMaterial_generate M draw (Some cfg) = Inr km"
  obtains par sk pk where "km_parameters km = sl_save_parameters S par" "km_public_key km = sl_save_public_key S pk"
    "km_secret_key km = sl_save_secret_key S sk" "km_scale_bits km = cc_scale_bits cfg"
    "0 < cc_scale_bits cfg" "cc_scale_bits cfg < 60" "sl_parameters_set S par" "0 < sl_slot_count S par"
    "saves_ok S (noise par sk) par sk pk" "encryption_ok S (noise par sk) par pk (cc_scale_bits cfg) fresh bound"
    "addition_ok S (noise par sk) par bound" "decryption_ok S (noise par sk) par sk decoding bound"
proof -
  have "require_native_ckks M = Inr S" by (simp add: M require_native_ckks_def native_ckks_available_def)
  with gen obtain degree bits sb where core: "generate_ckks_key_material S draw degree bits sb = Inr km"
      and sb: "c_int (cc_scale_bits cfg) = Inr sb"
    by (auto simp: CKKSKeyMaterial_generate_def ckks_generate_key_material_binding_def res_simps)
  from sb have sb: "sb = cc_scale_bits cfg" by (simp add: c_int_def split: if_splits)
  obtain par where par: "sl_create S degree bits = Inr par" "sl_parameters_set S par" "0 < sb" "sb < 60"
    using core by (auto simp: generate_ckks_key_material_def res_simps split: if_splits)
  obtain sk pk where keys: "sl_keygen S par draw = (sk, pk)" by (cases "sl_keygen S par draw")
  have "km = \<lparr>km_parameters = sl_save_parameters S par, km_public_key = sl_save_public_key S pk,
      km_secret_key = sl_save_secret_key S sk, km_slot_count = sl_slot_count S par, km_scale_bits = sb\<rparr>"
    using core par keys by (auto simp: generate_ckks_key_material_def split: if_splits)
  moreover note ok [unfolded seal_ok_def, THEN conjunct2, rule_format, OF par(1,2) keys]
  ultimately show thesis using that par sb by simp
qed

lemma client_encrypt_ok:
  assumes enc: "encryption_ok S noise par pk sb fresh bound" and load: "saves_ok S noise par sk pk"
    and set: "sl_parameters_set S par" "0 < sl_slot_count S par" "0 < sb" "sb < 60"
    and E: "ce_native E = S" "pb_parameters (ce_bundle E) = sl_save_parameters S par"
      "pb_public_key (ce_bundle E) = sl_save_public_key S pk" "pb_scale_bits (ce_bundle E) = sb"
    and u: "as_numpy_vector u = Inr xs" "0 < w"
    and fin: "all_finite (map (\<lambda>x. py_mul x (Fin w)) xs)" and small: "fits bound fresh (map (\<lambda>x. val (py_mul x (Fin w))) xs)"
  shows "\<exists>cts. client_encrypt E draw u (Fin w) =
      Inr \<lparr>eu_chunks = map (sl_save_ciphertext S) cts, eu_original_size = int (length xs), eu_weight = Fin w\<rparr> \<and>
    list_all2 (\<lambda>ct b. noise ct b fresh) cts (blocks (sl_slot_count S par) (map (\<lambda>x. val (py_mul x (Fin w))) xs))"
proof -
  let ?ws = "map (\<lambda>x. py_mul x (Fin w)) xs"
  have "fits bound fresh (map val ?ws)" using small by (simp add: o_def)
  from encrypt_chunks_ok [OF enc set(2) fin this, of draw 0] obtain cts where cts:
      "encrypt_chunks S par pk (Fin (2 ^ nat sb)) (sl_slot_count S par) draw 0 ?ws = Inr (map (sl_save_ciphertext S) cts)"
      "list_all2 (\<lambda>ct b. noise ct b fresh) cts (blocks (sl_slot_count S par) (map val ?ws))"
    by blast
  have "xs \<noteq> []" using u by (auto simp: as_numpy_vector_def Let_def split: if_splits)
  then have "ckks_encrypt S draw ?ws (sl_save_parameters S par) (sl_save_public_key S pk) sb =
      Inr (map (sl_save_ciphertext S) cts)"
    using cts(1) saves_okD(1,3) [OF load] set by (simp add: ckks_encrypt_def load_context_def Let_def)
  moreover have "c_int sb = Inr sb" using set by (simp add: c_int_def)
  ultimately have "client_encrypt E draw u (Fin w) =
      Inr \<lparr>eu_chunks = map (sl_save_ciphertext S) cts, eu_original_size = int (length xs), eu_weight = Fin w\<rparr>"
    using u E \<open>xs \<noteq> []\<close> by (simp add: client_encrypt_def ckks_encrypt_binding_def Let_def)
  then show ?thesis using cts(2) by (auto simp: o_def)
qed

lemma decrypt_sum_ok:
  assumes dec: "decryption_ok S noise par sk decoding bound" and load: "saves_ok S noise par sk pk"
    and set: "sl_parameters_set S par" "0 < sl_slot_count S par"
    and D: "cd_native D = S" "km_parameters (cd_key_material D) = sl_save_parameters S par"
      "km_secret_key (cd_key_material D) = sl_save_secret_key S sk"
    and agg: "eu_chunks agg = map (sl_save_ciphertext S) cs" "eu_original_size agg = int (length v)"
    and cs: "list_all2 (\<lambda>c b. noise c b x) cs (blocks (sl_slot_count S par) v)"
    and v: "v \<noteq> []" "length v < 2 ^ 64" and small: "\<forall>b \<in> set (blocks (sl_slot_count S par) v). fits bound x b"
  shows "\<exists>xs. decrypt_sum D agg = Inr xs \<and> list_all2 (near (x + decoding)) xs v"
proof -
  let ?n = "sl_slot_count S par"
  have "\<forall>b \<in> set (blocks ?n v). length b = ?n \<and> fits bound x b" using small length_block by blast
  from decrypt_chunks_ok [OF dec load cs this] obtain pts where pts:
      "list_all2 (\<lambda>ct pt. sl_load_ciphertext S par (sl_save_ciphertext S ct) = Inr ct \<and> sl_decrypt S par sk ct = Inr pt) cs pts"
      "list_all2 (list_all2 (near (x + decoding))) (map (sl_decode S par) pts) (blocks ?n v)"
    by blast
  let ?xs = "take (length v) (concat (map (sl_decode S par) pts))"
  obtain k where "concat (blocks ?n v) = v @ replicate k 0" using concat_blocks [OF set(2)] by blast
  then have near: "list_all2 (near (x + decoding)) ?xs v"
    using list_all2_takeI [OF list_all2_concat [OF pts(2)], of "length v"] by simp
  have "cs \<noteq> []" using cs v(1) set(2) by (auto simp: blocks_step)
  then have "ckks_decrypt S (map (sl_save_ciphertext S) cs) (sl_save_parameters S par) (sl_save_secret_key S sk) (length v) = Inr ?xs"
    using decrypt_loop_eq [OF pts(1), of "[]" "length v"] v(1) list_all2_lengthD [OF near] saves_okD(1,4) [OF load] set
    by (simp add: ckks_decrypt_def load_context_def)
  then have "decrypt_sum D agg = Inr ?xs"
    using D agg v by (simp add: decrypt_sum_def ckks_decrypt_binding_def c_size_def)
  with near show ?thesis by blast
qed


lemma fits_blocks:
  assumes "fits bound x v" "v \<noteq> []" "0 < n"
  shows "\<forall>b \<in> set (blocks n v). fits bound x b"
proof
  fix b assume b: "b \<in> set (blocks n v)"
  obtain k where k: "concat (blocks n v) = v @ replicate k 0" using concat_blocks [OF assms(3)] by blast
  have "set b \<subseteq> insert 0 (set v)" using arg_cong [OF k, of set] b by auto
  moreover have "x \<le> bound"
  proof -
    have "\<bar>hd v\<bar> + x \<le> bound" using assms(1,2) unfolding fits_def by simp
    then show ?thesis by linarith
  qed
  ultimately show "fits bound x b" using assms(1) unfolding fits_def by auto
qed

lemma sum_list_ge_member:
  assumes "\<And>z. 0 \<le> (f z :: real)"
  shows "z \<in> set zs \<Longrightarrow> f z \<le> (\<Sum>z \<leftarrow> zs. f z)"
proof (induction zs)
  case (Cons y zs)
  have "0 \<le> (\<Sum>z \<leftarrow> zs. f z)" using assms by (induction zs) (auto intro: add_nonneg_nonneg)
  moreover have "f z \<le> (\<Sum>z \<leftarrow> zs. f z)" if "z \<noteq> y" using Cons that by simp
  ultimately show ?case using assms [of y] by (cases "z = y") (simp_all add: add_increasing)
qed simp

lemma abs_sum_list: "\<bar>sum_list (map f zs)\<bar> \<le> (\<Sum>z \<leftarrow> zs. \<bar>f z :: real\<bar>)"
  using sum_list_abs [of "map f zs"] by (simp add: o_def)

text \<open>What a client adds to the sum: its values times its sample count, each product rounded to float64.\<close>

definition contribution :: "(update_values \<Rightarrow> fl list) \<Rightarrow> update_values \<times> nat \<times> (nat \<Rightarrow> nat) \<Rightarrow> real list" where
  "contribution plain z = (case z of (u, n, draw) \<Rightarrow> map (\<lambda>x. val (py_mul x (Fin (real n)))) (plain u))"

definition contributes :: "(update_values \<Rightarrow> fl list) \<Rightarrow> nat \<Rightarrow> update_values \<times> nat \<times> (nat \<Rightarrow> nat) \<Rightarrow> bool" where
  "contributes plain width z = (case z of (u, n, draw) \<Rightarrow>
     0 < n \<and> as_numpy_vector u = Inr (plain u) \<and> length (plain u) = width \<and>
     list_all (\<lambda>x. is_fin (py_mul x (Fin (real n)))) (plain u))"


lemma contributes_fits:
  assumes "contributes plain width z" "z \<in> set ins" "0 \<le> fresh"
    and small: "\<forall>i < width. (\<Sum>z \<leftarrow> ins. \<bar>contribution plain z ! i\<bar>) + fresh * real (length ins) \<le> bound"
  shows "length (contribution plain z) = width" "fits bound fresh (contribution plain z)"
proof -
  show len: "length (contribution plain z) = width"
    using assms(1) by (auto simp: contribution_def contributes_def split: prod.splits)
  have one: "fresh * 1 \<le> fresh * real (length ins)"
    using assms(2,3) by (intro mult_left_mono) (cases ins; simp)+
  show "fits bound fresh (contribution plain z)"
    unfolding fits_def
  proof
    fix y assume "y \<in> set (contribution plain z)"
    then obtain i where i: "i < width" "y = contribution plain z ! i" using len by (auto simp: in_set_conv_nth)
    have "\<bar>y\<bar> \<le> (\<Sum>z \<leftarrow> ins. \<bar>contribution plain z ! i\<bar>)"
      using sum_list_ge_member [of "\<lambda>z. \<bar>contribution plain z ! i\<bar>" z ins] assms(2) i(2) by simp
    then show "\<bar>y\<bar> + fresh \<le> bound" using small [rule_format, OF i(1)] one by linarith
  qed
qed

lemma sum_contributions:
  assumes "\<forall>v \<in> set (v # us). length v = width" "0 < width"
  shows "length (foldl (map2 (+)) v us) = width"
    "i < width \<Longrightarrow> foldl (map2 (+)) v us ! i = (\<Sum>v \<leftarrow> v # us. (v ! i :: real))"
  using foldl_map2_nth [of v width us 0 "(+)"] foldl_map2_nth [of v width us i "(+)"] assms by (simp_all add: foldl_plus)

lemma fits_sum:
  assumes "\<forall>v \<in> set (v # us). length v = width" "0 < width"
    and small: "\<forall>i < width. (\<Sum>v \<leftarrow> v # us. \<bar>v ! i\<bar>) + x \<le> bound"
  shows "fits bound x (foldl (map2 (+)) v us)"
  unfolding fits_def
proof
  note sums = sum_contributions [OF assms(1,2)]
  fix y assume "y \<in> set (foldl (map2 (+)) v us)"
  then obtain i where i: "i < width" "y = foldl (map2 (+)) v us ! i" using sums(1) by (metis in_set_conv_nth)
  have "\<bar>y\<bar> \<le> (\<Sum>v \<leftarrow> v # us. \<bar>v ! i\<bar>)" unfolding i(2) sums(2) [OF i(1)] by (rule abs_sum_list)
  then show "\<bar>y\<bar> + x \<le> bound" using small [rule_format, OF i(1)] by linarith
qed


lemma clients_encrypt_ok:
  assumes enc: "encryption_ok S noise par pk sb fresh bound" and load: "saves_ok S noise par sk pk"
    and set: "sl_parameters_set S par" "0 < sl_slot_count S par" "0 < sb" "sb < 60"
    and E: "ce_native E = S" "pb_parameters (ce_bundle E) = sl_save_parameters S par"
      "pb_public_key (ce_bundle E) = sl_save_public_key S pk" "pb_scale_bits (ce_bundle E) = sb"
    and ins: "\<forall>z \<in> set ins. contributes plain width z" "0 \<le> fresh"
    and small: "\<forall>i < width. (\<Sum>z \<leftarrow> ins. \<bar>contribution plain z ! i\<bar>) + fresh * real (length ins) \<le> bound"
  shows "\<exists>css. res_map (\<lambda>(u, n, draw). client_encrypt E draw u (Fin (real n))) ins =
      Inr (map2 (\<lambda>(u, n, draw) cts. \<lparr>eu_chunks = map (sl_save_ciphertext S) cts, eu_original_size = int width,
        eu_weight = Fin (real n)\<rparr>) ins css) \<and>
    list_all2 (\<lambda>cts v. list_all2 (\<lambda>ct b. noise ct b fresh) cts (blocks (sl_slot_count S par) v)) css
      (map (contribution plain) ins)"
proof -
  have "\<exists>cts. client_encrypt E draw u (Fin (real n)) =
      Inr \<lparr>eu_chunks = map (sl_save_ciphertext S) cts, eu_original_size = int width, eu_weight = Fin (real n)\<rparr> \<and>
    list_all2 (\<lambda>ct b. noise ct b fresh) cts (blocks (sl_slot_count S par) (contribution plain (u, n, draw)))"
    if z: "(u, n, draw) \<in> set ins" for u n draw
  proof -
    have u: "0 < real n" "as_numpy_vector u = Inr (plain u)" "length (plain u) = width"
      "all_finite (map (\<lambda>x. py_mul x (Fin (real n))) (plain u))"
      using ins(1) z by (auto simp: contributes_def all_finite_def list_all_iff)
    have "fits bound fresh (map (\<lambda>x. val (py_mul x (Fin (real n)))) (plain u))"
      using contributes_fits(2) [OF ins(1) [rule_format, OF z] z ins(2) small] by (simp add: contribution_def)
    from client_encrypt_ok [OF enc load set E u(2,1,4) this, of draw] show ?thesis
      by (simp add: contribution_def u(3))
  qed
  then have "\<forall>z \<in> set ins. \<exists>cts. (case z of (u, n, draw) \<Rightarrow> client_encrypt E draw u (Fin (real n))) =
      Inr (case z of (u, n, draw) \<Rightarrow>
        \<lparr>eu_chunks = map (sl_save_ciphertext S) cts, eu_original_size = int width, eu_weight = Fin (real n)\<rparr>) \<and>
    list_all2 (\<lambda>ct b. noise ct b fresh) cts (blocks (sl_slot_count S par) (contribution plain z))"
    by auto
  from bchoice [OF this] obtain f where f: "\<And>z. z \<in> set ins \<Longrightarrow> (case z of (u, n, draw) \<Rightarrow> client_encrypt E draw u (Fin (real n))) =
      Inr (case z of (u, n, draw) \<Rightarrow>
        \<lparr>eu_chunks = map (sl_save_ciphertext S) (f z), eu_original_size = int width, eu_weight = Fin (real n)\<rparr>)"
    "\<And>z. z \<in> set ins \<Longrightarrow> list_all2 (\<lambda>ct b. noise ct b fresh) (f z) (blocks (sl_slot_count S par) (contribution plain z))"
    by blast
  have "res_map (\<lambda>(u, n, draw). client_encrypt E draw u (Fin (real n))) ins =
      Inr (map (\<lambda>z. case z of (u, n, draw) \<Rightarrow>
        \<lparr>eu_chunks = map (sl_save_ciphertext S) (f z), eu_original_size = int width, eu_weight = Fin (real n)\<rparr>) ins)"
    using f(1) by (rule res_map_all_Inr)
  moreover have "list_all2 (\<lambda>cts v. list_all2 (\<lambda>ct b. noise ct b fresh) cts (blocks (sl_slot_count S par) v)) (map f ins)
      (map (contribution plain) ins)"
    using f(2) by (simp add: list_all2_conv_all_nth)
  ultimately show ?thesis
    by (intro exI [of _ "map f ins"]) (simp add: zip_map2 map_zip_map2 zip_same_conv_map split_beta)
qed


lemma server_aggregate_ok:
  assumes add: "ckks_add_ciphertext_sets (sa_native A) (map (map save) css) (sa_parameters A) = Inr (map save cs)"
    and ins: "ins \<noteq> []" "length css = length ins" "(\<Sum>(u, n, draw) \<leftarrow> ins. n) < 2 ^ 53"
  shows "server_aggregate A (map2 (\<lambda>(u, n, draw) cts. \<lparr>eu_chunks = map save cts, eu_original_size = int width,
      eu_weight = Fin (real n)\<rparr>) ins css) =
    Inr \<lparr>eu_chunks = map save cs, eu_original_size = int width, eu_weight = Fin (real (\<Sum>(u, n, draw) \<leftarrow> ins. n))\<rparr>"
proof -
  let ?us = "map2 (\<lambda>(u, n, draw) cts. \<lparr>eu_chunks = map save cts, eu_original_size = int width,
      eu_weight = Fin (real n)\<rparr>) ins css"
  have fields: "map eu_chunks ?us = map (map save) css" "map eu_weight ?us = map (\<lambda>n. Fin (real n)) (map (\<lambda>(u, n, draw). n) ins)"
    using ins(2) by (simp_all add: list_eq_iff_nth_eq split_beta)
  have "\<forall>u \<in> set ?us. eu_original_size u = int width" by (auto simp: split_beta)
  moreover obtain u us where us: "?us = u # us" using ins(1,2) by (cases ins; cases css) auto
  ultimately have "server_aggregate A ?us = res_bind (ckks_add_ciphertext_sets (sa_native A) (map eu_chunks ?us) (sa_parameters A))
      (\<lambda>chunks. Inr \<lparr>eu_chunks = chunks, eu_original_size = int width, eu_weight = py_sum (map eu_weight ?us)\<rparr>)"
    unfolding us by (simp add: server_aggregate_def list_ex_iff)
  then show ?thesis unfolding fields add using py_sum_counts [OF ins(3)] by simp
qed

lemma decrypt_weighted_mean_of:
  "0 < w \<Longrightarrow> eu_weight agg = Fin w \<Longrightarrow> decrypt_sum D agg = Inr xs \<Longrightarrow>
     decrypt_weighted_mean D agg = Inr (map (\<lambda>x. fl_div binary64 x (Fin w)) xs)"
  by (simp add: decrypt_weighted_mean_def)

lemma encrypted_round_ok:
  assumes laws: "saves_ok S noise par sk pk" "encryption_ok S noise par pk scale_bits fresh bound"
      "addition_ok S noise par bound" "decryption_ok S noise par sk decoding bound"
    and par: "sl_parameters_set S par" "0 < sl_slot_count S par" and sb: "0 < scale_bits" "scale_bits < 60"
    and nonneg: "0 \<le> fresh"
    and E: "ce_native E = S" "pb_parameters (ce_bundle E) = sl_save_parameters S par"
      "pb_public_key (ce_bundle E) = sl_save_public_key S pk" "pb_scale_bits (ce_bundle E) = scale_bits"
    and A: "sa_native A = S" "sa_parameters A = sl_save_parameters S par"
    and D: "cd_native D = S" "km_parameters (cd_key_material D) = sl_save_parameters S par"
      "km_secret_key (cd_key_material D) = sl_save_secret_key S sk"
    and ins: "ins \<noteq> []" "\<forall>z \<in> set ins. contributes plain width z" "0 < width" "width < 2 ^ 64"
      "(\<Sum>(u, n, draw) \<leftarrow> ins. n) < 2 ^ 53"
    and small: "\<forall>i < width. (\<Sum>z \<leftarrow> ins. \<bar>contribution plain z ! i\<bar>) + fresh * real (length ins) \<le> bound"
  shows "\<exists>updates agg xs. res_map (\<lambda>(u, n, draw). client_encrypt E draw u (Fin (real n))) ins = Inr updates \<and>
    server_aggregate A updates = Inr agg \<and> decrypt_sum D agg = Inr xs \<and> length xs = width \<and>
    (\<forall>i < width. near (fresh * real (length ins) + decoding) (xs ! i) (\<Sum>z \<leftarrow> ins. contribution plain z ! i)) \<and>
    decrypt_weighted_mean D agg = Inr (map (\<lambda>x. fl_div binary64 x (Fin (real (\<Sum>(u, n, draw) \<leftarrow> ins. n)))) xs)"
proof -
  from clients_encrypt_ok [OF laws(2,1) par sb E ins(2) nonneg small] obtain css where css:
    "res_map (\<lambda>(u, n, draw). client_encrypt E draw u (Fin (real n))) ins =
      Inr (map2 (\<lambda>(u, n, draw) cts. \<lparr>eu_chunks = map (sl_save_ciphertext S) cts, eu_original_size = int width,
        eu_weight = Fin (real n)\<rparr>) ins css)"
    "list_all2 (\<lambda>cts v. list_all2 (\<lambda>ct b. noise ct b fresh) cts (blocks (sl_slot_count S par) v)) css
      (map (contribution plain) ins)"
    by blast
  obtain z zs where z: "ins = z # zs" using ins(1) by (cases ins) auto
  let ?v = "contribution plain z" and ?us = "map (contribution plain) zs"
  have vs: "\<forall>v \<in> set (?v # ?us). length v = width"
    using contributes_fits(1) [OF _ _ nonneg small] ins(2) z by auto
  have small': "\<forall>i < width. (\<Sum>v \<leftarrow> ?v # ?us. \<bar>v ! i\<bar>) + fresh * real (length (?v # ?us)) \<le> bound"
    using small z by (simp add: o_def)
  from ckks_add_ok [OF laws(3,1) par ins(3) nonneg css(2) [unfolded z list.map] vs small'] obtain cs where cs:
    "ckks_add_ciphertext_sets S (map (map (sl_save_ciphertext S)) css) (sl_save_parameters S par) =
      Inr (map (sl_save_ciphertext S) cs)"
    "list_all2 (\<lambda>c b. noise c b (fresh * real (length (?v # ?us)))) cs (blocks (sl_slot_count S par) (foldl (map2 (+)) ?v ?us))"
    by blast
  let ?sum = "foldl (map2 (+)) ?v ?us"
  let ?agg = "\<lparr>eu_chunks = map (sl_save_ciphertext S) cs, eu_original_size = int width,
      eu_weight = Fin (real (\<Sum>(u, n, draw) \<leftarrow> ins. n))\<rparr>"
  note sums = sum_contributions [OF vs ins(3)]
  have agg: "server_aggregate A (map2 (\<lambda>(u, n, draw) cts. \<lparr>eu_chunks = map (sl_save_ciphertext S) cts, eu_original_size = int width,
        eu_weight = Fin (real n)\<rparr>) ins css) = Inr ?agg"
    using cs(1) A ins(1,5) list_all2_lengthD [OF css(2)] by (intro server_aggregate_ok) simp_all
  have "\<exists>xs. decrypt_sum D ?agg = Inr xs \<and> list_all2 (near (fresh * real (length (?v # ?us)) + decoding)) xs ?sum"
    using sums(1) ins(3,4) by (intro decrypt_sum_ok [OF laws(4,1) par D _ _ cs(2)] fits_blocks fits_sum [OF vs ins(3) small'] par) auto
  then obtain xs where xs: "decrypt_sum D ?agg = Inr xs" "list_all2 (near (fresh * real (length (?v # ?us)) + decoding)) xs ?sum"
    by blast
  have "near (fresh * real (length ins) + decoding) (xs ! i) (\<Sum>z \<leftarrow> ins. contribution plain z ! i)" if "i < width" for i
    using list_all2_nthD2 [OF xs(2), of i] sums that by (simp add: z o_def)
  moreover have "length xs = width" using list_all2_lengthD [OF xs(2)] sums(1) by simp
  moreover have "0 < (\<Sum>(u, n, draw) \<leftarrow> ins. n)" using ins(2) z by (auto simp: contributes_def)
  then have "decrypt_weighted_mean D ?agg = Inr (map (\<lambda>x. fl_div binary64 x (Fin (real (\<Sum>(u, n, draw) \<leftarrow> ins. n)))) xs)"
    by (intro decrypt_weighted_mean_of [OF _ _ xs(1)]) simp_all
  ultimately show ?thesis using css(1) agg xs(1) by blast
qed



section \<open>A library with fixed-point messages\<close>

text \<open>Each slot holds an integer number of units of \<open>2 powi -40\<close>; a ciphertext is saved in unary.\<close>

definition seal_example :: "(nat, bool, int list, int list) seal" where
  "seal_example = \<lparr>
     sl_create = (\<lambda>degree bits. if 2 \<le> degree then Inr degree else Inl (ValueError ''poly_modulus_degree'')),
     sl_parameters_set = (\<lambda>par. True),
     sl_slot_count = (\<lambda>par. par div 2),
     sl_keygen = (\<lambda>par draw. (True, False)),
     sl_save_parameters = (\<lambda>par. replicate par (CHR ''p'')),
     sl_load_parameters = (\<lambda>s. Inr (length s)),
     sl_save_public_key = (\<lambda>k. ''p''),
     sl_load_public_key = (\<lambda>par s. Inr False),
     sl_save_secret_key = (\<lambda>k. ''s''),
     sl_load_secret_key = (\<lambda>par s. Inr (s = ''s'')),
     sl_save_ciphertext = (\<lambda>ct. concat (map write_int ct)),
     sl_load_ciphertext = (\<lambda>par s. Inr (read_ints 0 False s)),
     sl_encode = (\<lambda>par xs scale. if scale = Fin (2 ^ 40) \<and> length xs \<le> par div 2
                    then Inr (map (\<lambda>x. \<lfloor>val x * 2 ^ 40\<rfloor>) xs @ replicate (par div 2 - length xs) 0)
                    else Inl (ValueError ''encode'')),
     sl_decode = (\<lambda>par pt. map (\<lambda>k. Fin (of_int k / 2 ^ 40)) pt),
     sl_encrypt = (\<lambda>par key draw pt. Inr pt),
     sl_decrypt = (\<lambda>par key ct. if key then Inr ct else Inl (ValueError ''decrypt'')),
     sl_add = (\<lambda>par a b. Inr (map2 (+) a b))\<rparr>"

definition noise_example :: "nat \<Rightarrow> bool \<Rightarrow> int list \<Rightarrow> real list \<Rightarrow> real \<Rightarrow> bool" where
  "noise_example par sk ct m x \<longleftrightarrow> list_all2 (\<lambda>k v. \<bar>of_int k / 2 ^ 40 - v\<bar> \<le> x) ct m"

lemma abs_add_near: "\<bar>a - m\<bar> \<le> x \<Longrightarrow> \<bar>b - u\<bar> \<le> y \<Longrightarrow> \<bar>a + b - (m + u)\<bar> \<le> (x + y :: real)"
  by linarith

lemma seal_ok_example: "seal_ok seal_example noise_example 40 (1 / 2 ^ 40) 0 bound"
  unfolding seal_ok_def
proof (intro conjI allI impI)
  fix degree bits par draw sk pk
  assume "sl_create seal_example degree bits = Inr par" "sl_keygen seal_example par draw = (sk, pk)"
  then have par: "2 \<le> par" and keys: "sk = True" "pk = False"
    by (auto simp: seal_example_def split: if_splits)
  show "0 < sl_slot_count seal_example par" using par by (simp add: seal_example_def div_greater_zero_iff)
  show "saves_ok seal_example (noise_example par sk) par sk pk"
    using par keys by (auto simp: saves_ok_def seal_example_def read_write_ints)
  show "encryption_ok seal_example (noise_example par sk) par pk 40 (1 / 2 ^ 40) bound"
    by (auto simp: encryption_ok_def seal_example_def noise_example_def list_all2_conv_all_nth nth_append) linarith
  show "addition_ok seal_example (noise_example par sk) par bound"
    unfolding addition_ok_def
  proof (intro allI impI)
    fix a b m u x y
    assume "noise_example par sk a m x" "noise_example par sk b u y"
    then have "noise_example par sk (map2 (+) a b) (map2 (+) m u) (x + y)"
      by (auto simp: noise_example_def list_all2_conv_all_nth add_divide_distrib intro!: abs_add_near)
    then show "\<exists>c. sl_add seal_example par a b = Inr c \<and> noise_example par sk c (map2 (+) m u) (x + y)"
      by (simp add: seal_example_def)
  qed
  show "decryption_ok seal_example (noise_example par sk) par sk 0 bound"
    using keys by (auto simp: decryption_ok_def seal_example_def noise_example_def list_all2_conv_all_nth near_def)
qed simp


definition plain_example :: "update_values \<Rightarrow> fl list" where
  "plain_example u = (case u of IterableValues xs \<Rightarrow> xs | _ \<Rightarrow> [])"

definition contributions_example :: "(update_values \<times> nat \<times> (nat \<Rightarrow> nat)) list" where
  "contributions_example = [(IterableValues [Fin 1, Fin 2], 1, \<lambda>k. k), (IterableValues [Fin 3, Fin (-2)], 3, \<lambda>k. k)]"

abbreviation module_example :: "(nat, bool, int list, int list) ckks_module option" where
  "module_example \<equiv> Some \<lparr>cm_ckks_enabled = True, cm_seal = seal_example\<rparr>"

lemma contributions_example:
  "\<forall>z \<in> set contributions_example. contributes plain_example 2 z"
  "map (contribution plain_example) contributions_example = [[1, 2], [9, -6]]"
  "(\<Sum>(u, n, draw) \<leftarrow> contributions_example. n) = 4"
  using rnd64_int [of 1] rnd64_int [of 2] rnd64_int [of 3] rnd64_int [of "-2"] rnd64_int [of 9] rnd64_int [of "-6"]
  by (auto simp: contributions_example_def plain_example_def contributes_def contribution_def as_numpy_vector_def all_finite_def)


end
