(* ===== verification/Partitioner.thy ===== *)
theory Partitioner
  imports Py_String IEEE_Float
begin

text \<open>
  \<open>fl/zerotrust_fl/data/partitioner.py\<close>: label extraction, the IID and Dirichlet partitioners, their
  dispatcher, the coverage check and the per-client statistics.

  NumPy's generators, \<open>array_split\<close>, \<open>sort\<close> and \<open>sum\<close> are fields of the parameter record \<open>numpy\<close>;
  \<open>numpy_ok\<close> states what their documentation promises. A generator is passed along as a state of
  type \<open>'g\<close>. A result dictionary \<open>{0: \<dots>, 1: \<dots>}\<close> is the list of its values in key order.
\<close>

section \<open>NumPy as a parameter\<close>

record 'g numpy =
  default_rng :: "int \<Rightarrow> 'g"
  rng_integers :: "'g \<Rightarrow> int \<Rightarrow> int \<Rightarrow> int \<times> 'g"
  rng_permutation :: "'g \<Rightarrow> nat \<Rightarrow> nat list \<times> 'g"
  rng_shuffle :: "'g \<Rightarrow> nat list \<Rightarrow> nat list \<times> 'g"
  rng_dirichlet :: "'g \<Rightarrow> fl list \<Rightarrow> fl list \<times> 'g"
  rng_multinomial :: "'g \<Rightarrow> nat \<Rightarrow> fl list \<Rightarrow> nat list \<times> 'g"
  np_array_split :: "nat list \<Rightarrow> nat \<Rightarrow> nat list list"
  np_sort :: "nat list \<Rightarrow> nat list"
  np_sum :: "fl list \<Rightarrow> fl"

definition split_sizes :: "nat \<Rightarrow> nat \<Rightarrow> nat list" where
  "split_sizes l n = replicate (l mod n) (l div n + 1) @ replicate (n - l mod n) (l div n)"

definition numpy_ok :: "'g numpy \<Rightarrow> bool" where
  "numpy_ok N \<longleftrightarrow>
     (\<forall>g n. mset (fst (rng_permutation N g n)) = mset [0..<n]) \<and>
     (\<forall>g xs. mset (fst (rng_shuffle N g xs)) = mset xs) \<and>
     (\<forall>g n ps. length (fst (rng_multinomial N g n ps)) = length ps \<and>
        (ps \<noteq> [] \<longrightarrow> sum_list (fst (rng_multinomial N g n ps)) = n)) \<and>
     (\<forall>g as. length (fst (rng_dirichlet N g as)) = length as) \<and>
     (\<forall>xs n. 0 < n \<longrightarrow> concat (np_array_split N xs n) = xs \<and>
        map length (np_array_split N xs n) = split_sizes (length xs) n) \<and>
     (\<forall>xs. sorted (np_sort N xs) \<and> mset (np_sort N xs) = mset xs)"

section \<open>Labels\<close>

text \<open>Numbers, arrays (shape and data in row order), the items of a dataset and the accepted sources.\<close>

datatype num = PyInt int | PyFloat fl

datatype np_array = IntArr "nat list" "int list" | FloatArr "nat list" "fl list"

datatype label = ScalarLabel num | TensorLabel "num list"

datatype item = Sample label | BadItem

datatype dataset = HasTargets np_array | HasLabels np_array | Items "item list"

datatype target_source = DatasetSrc dataset | ArraySrc np_array

text \<open>\<open>int(x)\<close>: a float is truncated towards zero.\<close>

fun int_of_num :: "num \<Rightarrow> int res" where
  "int_of_num (PyInt n) = Inr n"
| "int_of_num (PyFloat (Fin x)) = Inr (if 0 \<le> x then \<lfloor>x\<rfloor> else \<lceil>x\<rceil>)"
| "int_of_num (PyFloat NaN) = Inl (ValueError ''cannot convert float NaN to integer'')"
| "int_of_num (PyFloat _) = Inl OverflowError"

fun item_label :: "item \<Rightarrow> int res" where
  "item_label BadItem =
     Inl (TypeError ''dataset must expose targets/labels or return (features, label) samples'')"
| "item_label (Sample (ScalarLabel v)) = int_of_num v"
| "item_label (Sample (TensorLabel [v])) = int_of_num v"
| "item_label (Sample (TensorLabel vs)) = Inl (ValueError ''dataset labels must be scalar values'')"

definition is_integral :: "fl \<Rightarrow> bool" where
  "is_integral x \<longleftrightarrow> is_fin x \<and> val x = of_int \<lfloor>val x\<rfloor>"

fun as_targets :: "np_array \<Rightarrow> int list res" where
  "as_targets (IntArr sh xs) =
     (if xs = [] then Inl (ValueError ''cannot partition an empty label set'') else Inr xs)"
| "as_targets (FloatArr sh xs) =
     (if xs = [] then Inl (ValueError ''cannot partition an empty label set'')
      else if \<not> list_all is_integral xs then Inl (TypeError ''class labels must be integer-valued'')
      else Inr (map (\<lambda>x. \<lfloor>val x\<rfloor>) xs))"

fun extract_targets :: "target_source \<Rightarrow> int list res" where
  "extract_targets (DatasetSrc (HasTargets a)) = as_targets a"
| "extract_targets (DatasetSrc (HasLabels a)) = as_targets a"
| "extract_targets (DatasetSrc (Items its)) =
     res_bind (res_map item_label its) (\<lambda>labels. as_targets (IntArr [length labels] labels))"
| "extract_targets (ArraySrc a) = as_targets a"

section \<open>Checks\<close>

definition validate_client_count :: "nat \<Rightarrow> int \<Rightarrow> unit res" where
  "validate_client_count sample_count num_clients =
     (if num_clients \<le> 0 then Inl (ValueError ''num_clients must be positive'')
      else if num_clients > int sample_count
        then Inl (ValueError ''num_clients cannot exceed the number of samples'')
      else Inr ())"

definition validate_partition_coverage :: "int list list \<Rightarrow> nat \<Rightarrow> unit res" where
  "validate_partition_coverage partitions sample_count =
     (if partitions = [] then Inl (ValueError ''need at least one array to concatenate'')
      else
        let merged = concat partitions in
        if length merged \<noteq> sample_count
          then Inl (RuntimeError ''partitioning did not assign every sample exactly once'')
        else if length (remdups merged) \<noteq> sample_count
          then Inl (RuntimeError ''partitioning assigned at least one sample more than once'')
        else if foldr min merged 0 < 0 \<or> foldr max merged (-1) \<ge> int sample_count
          then Inl (RuntimeError ''partition contains an out-of-range sample index'')
        else Inr ())"

section \<open>IID partitioning\<close>

definition iid_partition :: "'g numpy \<Rightarrow> target_source \<Rightarrow> int \<Rightarrow> int \<Rightarrow> nat list list res" where
  "iid_partition N src num_clients seed =
     res_bind (extract_targets src) (\<lambda>targets.
     res_bind (validate_client_count (length targets) num_clients) (\<lambda>_.
       let rng = default_rng N seed;
           shuffled = fst (rng_permutation N rng (length targets));
           splits = np_array_split N shuffled (nat num_clients)
       in Inr (map (np_sort N) splits)))"

section \<open>Dirichlet partitioning\<close>

text \<open>\<open>xs[a:b]\<close>, \<open>np.flatnonzero(targets == c)\<close>, \<open>np.unique\<close> and \<open>np.cumsum\<close>.\<close>

definition slice :: "'a list \<Rightarrow> nat \<Rightarrow> nat \<Rightarrow> 'a list" where
  "slice xs a b = take (b - a) (drop a xs)"

definition class_positions :: "int list \<Rightarrow> int \<Rightarrow> nat list" where
  "class_positions targets c = filter (\<lambda>i. targets ! i = c) [0..<length targets]"

definition np_unique :: "int list \<Rightarrow> int list" where
  "np_unique xs = sort (remdups xs)"

fun cumsum_from :: "nat \<Rightarrow> nat list \<Rightarrow> nat list" where
  "cumsum_from a [] = []"
| "cumsum_from a (c # cs) = (a + c) # cumsum_from (a + c) cs"

definition balance_proportions :: "'g numpy \<Rightarrow> nat \<Rightarrow> nat \<Rightarrow> nat list \<Rightarrow> fl list \<Rightarrow> fl list" where
  "balance_proportions N sample_count num_clients client_sizes proportions =
     (let average_target = rnd binary64 (real sample_count / real num_clients);
          under_target = map (\<lambda>s. fl_less (py_float (int s)) average_target) client_sizes
      in if list_ex id under_target then
           (let masked = map2 (\<lambda>p u. py_mul p (Fin (if u then 1 else 0))) proportions under_target;
                total = np_sum N masked
            in if fl_less (Fin 0) total then map (\<lambda>p. fl_div binary64 p total) masked
               else replicate num_clients (rnd binary64 (1 / real num_clients)))
         else proportions)"

text \<open>One pass of the inner loop: the chunk of each client, appended where it is not empty.\<close>

definition deal_chunks :: "nat list \<Rightarrow> nat list \<Rightarrow> nat \<Rightarrow> nat list list list \<Rightarrow> nat list list list" where
  "deal_chunks class_indices offsets num_clients client_indices =
     map (\<lambda>c. let chunk = slice class_indices (offsets ! c) (offsets ! Suc c)
              in if chunk \<noteq> [] then client_indices ! c @ [chunk] else client_indices ! c)
       [0..<num_clients]"

definition deal_sizes :: "nat list \<Rightarrow> nat list \<Rightarrow> nat \<Rightarrow> nat list \<Rightarrow> nat list" where
  "deal_sizes class_indices offsets num_clients client_sizes =
     map (\<lambda>c. client_sizes ! c + length (slice class_indices (offsets ! c) (offsets ! Suc c)))
       [0..<num_clients]"

type_synonym 'g attempt = "'g \<times> nat list list list \<times> nat list"

definition assign_class ::
  "'g numpy \<Rightarrow> int list \<Rightarrow> nat \<Rightarrow> fl \<Rightarrow> bool \<Rightarrow> int \<Rightarrow> 'g attempt \<Rightarrow> 'g attempt" where
  "assign_class N targets num_clients alpha balanced class_id st =
     (case st of (rng, client_indices, client_sizes) \<Rightarrow>
      let (class_indices, rng) = rng_shuffle N rng (class_positions targets class_id);
          (proportions, rng) = rng_dirichlet N rng (replicate num_clients alpha);
          proportions =
            (if balanced
             then balance_proportions N (length targets) num_clients client_sizes proportions
             else proportions);
          (counts, rng) = rng_multinomial N rng (length class_indices) proportions;
          offsets = 0 # cumsum_from 0 counts
      in (rng, deal_chunks class_indices offsets num_clients client_indices,
          deal_sizes class_indices offsets num_clients client_sizes))"

fun assign_classes ::
  "'g numpy \<Rightarrow> int list \<Rightarrow> nat \<Rightarrow> fl \<Rightarrow> bool \<Rightarrow> int list \<Rightarrow> 'g attempt \<Rightarrow> 'g attempt" where
  "assign_classes N targets k alpha balanced [] st = st"
| "assign_classes N targets k alpha balanced (c # cs) st =
     assign_classes N targets k alpha balanced cs (assign_class N targets k alpha balanced c st)"

text \<open>The final loop: the chunks of each client are concatenated and shuffled.\<close>

fun merge_clients :: "'g numpy \<Rightarrow> 'g \<Rightarrow> nat list list list \<Rightarrow> nat list list" where
  "merge_clients N rng [] = []"
| "merge_clients N rng (chunks # rest) =
     (if chunks \<noteq> [] then
        (let (merged, rng) = rng_shuffle N rng (concat chunks) in merged # merge_clients N rng rest)
      else [] # merge_clients N rng rest)"

fun dirichlet_retry ::
  "'g numpy \<Rightarrow> int list \<Rightarrow> nat \<Rightarrow> fl \<Rightarrow> int \<Rightarrow> bool \<Rightarrow> nat \<Rightarrow> 'g \<Rightarrow> nat list list res" where
  "dirichlet_retry N targets k alpha min_samples balanced 0 master =
     Inl (RuntimeError ''could not satisfy Dirichlet minimum sample constraint'')"
| "dirichlet_retry N targets k alpha min_samples balanced (Suc retries) master =
     (let (attempt_seed, master) = rng_integers N master 0 (2 ^ 63 - 1);
          (rng, client_indices, client_sizes) =
            assign_classes N targets k alpha balanced (np_unique targets)
              (default_rng N attempt_seed, replicate k [], replicate k 0)
      in if \<not> list_all (\<lambda>s. min_samples \<le> int s) client_sizes
         then dirichlet_retry N targets k alpha min_samples balanced retries master
         else
           (let partitions = merge_clients N rng client_indices
            in res_bind (validate_partition_coverage (map (map int) partitions) (length targets))
                 (\<lambda>_. Inr partitions)))"

definition dirichlet_partition ::
  "'g numpy \<Rightarrow> target_source \<Rightarrow> int \<Rightarrow> fl \<Rightarrow> int \<Rightarrow> int \<Rightarrow> int \<Rightarrow> bool \<Rightarrow> nat list list res" where
  "dirichlet_partition N src num_clients alpha seed min_samples_per_client max_retries balanced =
     res_bind (extract_targets src) (\<lambda>targets.
     res_bind (validate_client_count (length targets) num_clients) (\<lambda>_.
       if \<not> is_fin alpha \<or> fl_le alpha (Fin 0)
         then Inl (ValueError ''alpha must be a finite value greater than zero'')
       else if min_samples_per_client < 0
         then Inl (ValueError ''min_samples_per_client cannot be negative'')
       else if min_samples_per_client * num_clients > int (length targets)
         then Inl (ValueError ''minimum sample requirement exceeds dataset size'')
       else if max_retries \<le> 0 then Inl (ValueError ''max_retries must be positive'')
       else dirichlet_retry N targets (nat num_clients) alpha min_samples_per_client balanced
              (nat max_retries) (default_rng N seed)))"

section \<open>Dispatch and statistics\<close>

definition partition_dataset ::
  "'g numpy \<Rightarrow> target_source \<Rightarrow> int \<Rightarrow> string \<Rightarrow> fl \<Rightarrow> int \<Rightarrow> int \<Rightarrow> nat list list res" where
  "partition_dataset N src num_clients strategy alpha seed min_samples_per_client =
     (let normalized = py_replace CHR ''-'' ''_'' (py_lower (py_strip strategy)) in
      if normalized = ''iid'' then iid_partition N src num_clients seed
      else if normalized \<in> {''dirichlet'', ''dirichlet_balanced'', ''non_iid'', ''noniid''}
        then dirichlet_partition N src num_clients alpha seed min_samples_per_client 1024 True
      else if normalized \<in> {''dirichlet_raw'', ''raw_dirichlet''}
        then dirichlet_partition N src num_clients alpha seed min_samples_per_client 1024 False
      else Inl (ValueError ''unsupported partition strategy''))"

record PartitionStats =
  client_id :: nat
  sample_count :: nat
  class_counts :: "(int \<times> nat) list"

text \<open>\<open>labels[i]\<close> of a NumPy array: negative indices count from the end.\<close>

definition np_index :: "'a list \<Rightarrow> int \<Rightarrow> 'a res" where
  "np_index xs i =
     (if i < - int (length xs) \<or> int (length xs) \<le> i then Inl IndexError
      else if 0 \<le> i then Inr (xs ! nat i)
      else Inr (xs ! (length xs - nat (- i))))"

definition client_stats :: "int list \<Rightarrow> nat \<times> int list \<Rightarrow> PartitionStats res" where
  "client_stats labels entry =
     (case entry of (cid, indices) \<Rightarrow>
      res_bind (res_map (np_index labels) indices) (\<lambda>selected.
        Inr \<lparr>client_id = cid, sample_count = length indices,
             class_counts = map (\<lambda>c. (c, count_list selected c)) (np_unique selected)\<rparr>))"

definition partition_stats :: "target_source \<Rightarrow> int list list \<Rightarrow> PartitionStats list res" where
  "partition_stats targets partitions =
     res_bind (extract_targets targets) (\<lambda>labels.
       res_map (client_stats labels) (enumerate 0 partitions))"

section \<open>The contract of a partitioner\<close>

text \<open>
  Clients of a partitioner rely on two laws only: the parts together hold every sample index
  exactly as often as the index range does, and there is one part per client.
\<close>

locale partition_scheme =
  fixes split :: "'p \<Rightarrow> nat list list res"
    and ok :: "'p \<Rightarrow> bool"
    and samples :: "'p \<Rightarrow> nat"
    and clients :: "'p \<Rightarrow> nat"
  assumes exact: "ok p \<Longrightarrow> split p = Inr parts \<Longrightarrow> mset (concat parts) = mset [0..<samples p]"
    and count: "ok p \<Longrightarrow> split p = Inr parts \<Longrightarrow> length parts = clients p"
begin

lemma distinct_concat_parts: "ok p \<Longrightarrow> split p = Inr parts \<Longrightarrow> distinct (concat parts)"
  by (metis distinct_upt exact mset_eq_imp_distinct_iff)

lemma set_concat_parts: "ok p \<Longrightarrow> split p = Inr parts \<Longrightarrow> set (concat parts) = {0..<samples p}"
  by (metis atLeastLessThan_upt exact mset_eq_setD)

lemma sizes_sum: "ok p \<Longrightarrow> split p = Inr parts \<Longrightarrow> sum_list (map length parts) = samples p"
  by (metis exact length_concat length_upt minus_nat.diff_0 size_mset)

lemma owner_unique:
  assumes "ok p" "split p = Inr parts" "i < samples p"
  shows "\<exists>!c. c < clients p \<and> i \<in> set (parts ! c)"
proof (rule ex_ex1I)
  have "i \<in> set (concat parts)" using set_concat_parts [OF assms(1,2)] assms(3) by simp
  then show "\<exists>c. c < clients p \<and> i \<in> set (parts ! c)"
    using count [OF assms(1,2)] by (metis UN_E in_set_conv_nth set_concat)
next
  fix c d
  assume "c < clients p \<and> i \<in> set (parts ! c)" "d < clients p \<and> i \<in> set (parts ! d)"
  moreover have "distinct (concat parts)" by (rule distinct_concat_parts [OF assms(1,2)])
  ultimately show "c = d"
    using count [OF assms(1,2)] by (auto intro: distinct_concat_nth_eq)
qed

end

section \<open>Checks and splitting\<close>

lemma validate_client_count_iff:
  "validate_client_count n k = Inr () \<longleftrightarrow> 0 < k \<and> k \<le> int n"
  by (auto simp: validate_client_count_def)

lemma coverage_Inr_iff:
  "validate_partition_coverage parts n = Inr () \<longleftrightarrow>
     parts \<noteq> [] \<and> mset (concat parts) = mset (map int [0..<n])"
proof -
  have cover: "mset m = mset (map int [0..<n]) \<longleftrightarrow>
      length m = n \<and> distinct m \<and> (\<forall>x \<in> set m. 0 \<le> x \<and> x < int n)" for m :: "int list"
  proof
    assume eq: "mset m = mset (map int [0..<n])"
    have "distinct m" using mset_eq_imp_distinct_iff [OF eq] by (simp add: distinct_map)
    then show "length m = n \<and> distinct m \<and> (\<forall>x \<in> set m. 0 \<le> x \<and> x < int n)"
      using mset_eq_length [OF eq] mset_eq_setD [OF eq] by auto
  next
    assume r: "length m = n \<and> distinct m \<and> (\<forall>x \<in> set m. 0 \<le> x \<and> x < int n)"
    have "set m \<subseteq> {0..<int n}" using r by auto
    moreover have "card (set m) = card {0..<int n}" using r by (simp add: distinct_card)
    ultimately have "set m = {0..<int n}" by (simp add: card_subset_eq)
    also have "\<dots> = set (map int [0..<n])" by (auto simp: image_int_atLeastLessThan)
    finally have "set m = set (map int [0..<n])" .
    then show "mset m = mset (map int [0..<n])"
      using r set_eq_iff_mset_eq_distinct [of m "map int [0..<n]"] by (simp add: distinct_map)
  qed
  have "validate_partition_coverage parts n = Inr () \<longleftrightarrow> parts \<noteq> [] \<and>
      length m = n \<and> distinct m \<and> (\<forall>x \<in> set m. 0 \<le> x \<and> x < int n)" if m: "m = concat parts" for m
  proof (cases "distinct m")
    case True
    then have "remdups m = m" by simp
    with True show ?thesis
      unfolding validate_partition_coverage_def Let_def m [symmetric] foldr_min_less foldr_max_ge
      by (auto simp: not_le not_less)
  next
    case False
    then have "length (remdups m) < length m"
      by (simp add: order_less_le length_remdups_leq length_remdups_eq remdups_id_iff_distinct)
    with False show ?thesis
      unfolding validate_partition_coverage_def Let_def m [symmetric] by auto
  qed
  from this [OF refl] show ?thesis by (simp only: cover)
qed

lemma sum_list_split_sizes: "0 < n \<Longrightarrow> sum_list (split_sizes l n) = l"
proof -
  assume n: "0 < n"
  have "l mod n * (l div n + 1) + (n - l mod n) * (l div n) = (l mod n + (n - l mod n)) * (l div n) + l mod n"
    by (simp add: algebra_simps)
  also have "\<dots> = n * (l div n) + l mod n" using n by (simp add: mod_less_divisor order_less_imp_le)
  also have "\<dots> = l" by (rule mult_div_mod_eq)
  finally show ?thesis by (simp add: split_sizes_def sum_list_replicate)
qed

lemma concat_slices:
  "concat (map (\<lambda>c. slice xs ((a # cumsum_from a cs) ! c) ((a # cumsum_from a cs) ! Suc c)) [0..<length cs])
     = slice xs a (a + sum_list cs)"
proof (induction cs arbitrary: a)
  case Nil
  then show ?case by (simp add: slice_def)
next
  case (Cons c cs)
  have u: "[0..<length (c # cs)] = 0 # map Suc [0..<length cs]"
    by (simp add: upt_conv_Cons map_Suc_upt del: upt_Suc)
  have "concat (map (\<lambda>i. slice xs ((a # cumsum_from a (c # cs)) ! i)
        ((a # cumsum_from a (c # cs)) ! Suc i)) [0..<length (c # cs)])
      = slice xs a (a + c) @ concat (map (\<lambda>i. slice xs (((a + c) # cumsum_from (a + c) cs) ! i)
        (((a + c) # cumsum_from (a + c) cs) ! Suc i)) [0..<length cs])"
    by (simp only: u) (simp add: comp_def)
  also have "\<dots> = slice xs a (a + c) @ slice xs (a + c) (a + c + sum_list cs)"
    by (simp only: Cons.IH)
  also have "\<dots> = slice xs a (a + sum_list (c # cs))"
    by (simp add: slice_def take_add add.commute)
  finally show ?case .
qed

lemma class_positions_cover:
  "(\<Sum>c\<leftarrow>np_unique targets. mset (class_positions targets c)) = mset [0..<length targets]"
proof -
  have "(\<Sum>c\<leftarrow>np_unique targets. mset (class_positions targets c))
      = (\<Sum>c\<leftarrow>np_unique targets. filter_mset (\<lambda>i. targets ! i = c) (mset [0..<length targets]))"
    by (simp add: class_positions_def del: mset_upt)
  also have "\<dots> = filter_mset (\<lambda>i. targets ! i \<in> set targets) (mset [0..<length targets])"
    by (subst sum_filter_keys) (simp_all add: np_unique_def)
  also have "\<dots> = mset [0..<length targets]"
    by (intro filter_mset_eq_conv [THEN iffD2]) auto
  finally show ?thesis .
qed

lemma numpy_okD:
  assumes "numpy_ok N"
  shows "mset (fst (rng_permutation N g n)) = mset [0..<n]"
    and "mset (fst (rng_shuffle N g xs)) = mset xs"
    and "length (fst (rng_multinomial N g n ps)) = length ps"
    and "ps \<noteq> [] \<Longrightarrow> sum_list (fst (rng_multinomial N g n ps)) = n"
    and "length (fst (rng_dirichlet N g as)) = length as"
    and "0 < n \<Longrightarrow> concat (np_array_split N xs n) = xs"
    and "0 < n \<Longrightarrow> map length (np_array_split N xs n) = split_sizes (length xs) n"
    and "sorted (np_sort N xs)" and "mset (np_sort N xs) = mset xs"
  using assms unfolding numpy_ok_def by (simp_all del: mset_upt)

section \<open>Invariant of the class loop\<close>

text \<open>Everything dealt so far, and what ties the size counters to the chunks.\<close>

definition dealt :: "nat list list list \<Rightarrow> nat multiset" where
  "dealt client_indices = mset (concat (map concat client_indices))"

definition attempt_inv :: "nat \<Rightarrow> nat multiset \<Rightarrow> 'g attempt \<Rightarrow> bool" where
  "attempt_inv k M st \<longleftrightarrow>
     (case st of (rng, client_indices, client_sizes) \<Rightarrow>
        length client_indices = k \<and> client_sizes = map (length \<circ> concat) client_indices \<and>
        dealt client_indices = M)"

lemma attempt_inv_init: "attempt_inv k {#} (rng, replicate k [], replicate k 0)"
  by (simp add: attempt_inv_def dealt_def concat_eq_Nil_conv map_replicate_const)

lemma deal_chunks_concat:
  "map concat (deal_chunks xs offs k ci) =
     map (\<lambda>c. concat (ci ! c) @ slice xs (offs ! c) (offs ! Suc c)) [0..<k]"
  by (simp add: deal_chunks_def Let_def)

lemma mset_concat_append_pieces:
  "mset (concat (map (\<lambda>c. f c @ g c) cs)) = mset (concat (map f cs)) + mset (concat (map g cs))"
  by (induction cs) auto

lemma dealt_deal_chunks:
  assumes "length ci = k" "length counts = k" "sum_list counts = length xs"
  shows "dealt (deal_chunks xs (0 # cumsum_from 0 counts) k ci) = dealt ci + mset xs"
proof -
  have "map (\<lambda>c. concat (ci ! c)) [0..<k] = map concat ci"
    using assms(1) by (auto intro: nth_equalityI)
  moreover have "concat (map (\<lambda>c. slice xs ((0 # cumsum_from 0 counts) ! c)
      ((0 # cumsum_from 0 counts) ! Suc c)) [0..<k]) = xs"
    using concat_slices [of xs 0 counts] assms(2,3) by (simp add: slice_def)
  ultimately show ?thesis
    by (simp only: dealt_def deal_chunks_concat mset_concat_append_pieces)
qed

lemma deal_sizes_lengths:
  assumes "length ci = k"
  shows "deal_sizes xs offs k (map (length \<circ> concat) ci) = map (length \<circ> concat) (deal_chunks xs offs k ci)"
  using assms by (auto simp: deal_sizes_def deal_chunks_def Let_def)

lemma length_balance_proportions:
  assumes "length sizes = k" "length ps = k"
  shows "length (balance_proportions N n k sizes ps) = k"
  using assms by (simp add: balance_proportions_def Let_def)

lemma assign_class_inv:
  assumes N: "numpy_ok N" and k: "0 < k" and inv: "attempt_inv k M st"
  shows "attempt_inv k (M + mset (class_positions targets c)) (assign_class N targets k alpha balanced c st)"
proof -
  obtain rng ci cs where st: "st = (rng, ci, cs)" by (cases st)
  have ci: "length ci = k" "cs = map (length \<circ> concat) ci" "dealt ci = M"
    using inv by (simp_all add: attempt_inv_def st)
  obtain xs rng1 where xs: "rng_shuffle N rng (class_positions targets c) = (xs, rng1)" by fastforce
  obtain ps rng2 where ps: "rng_dirichlet N rng1 (replicate k alpha) = (ps, rng2)" by fastforce
  define ps' where "ps' = (if balanced then balance_proportions N (length targets) k cs ps else ps)"
  obtain counts rng3 where counts: "rng_multinomial N rng2 (length xs) ps' = (counts, rng3)" by fastforce
  have mx: "mset xs = mset (class_positions targets c)"
    using numpy_okD(2) [OF N, of rng "class_positions targets c"] xs by simp
  have "length ps = k" using numpy_okD(5) [OF N, of rng1 "replicate k alpha"] ps by simp
  then have lp: "length ps' = k"
    using ci by (simp add: ps'_def length_balance_proportions)
  have lc: "length counts = k" using numpy_okD(3) [OF N, of rng2 "length xs" ps'] counts lp by simp
  have "ps' \<noteq> []" using lp k by auto
  then have sc: "sum_list counts = length xs"
    using numpy_okD(4) [OF N, of ps' rng2 "length xs"] counts by simp
  let ?offs = "0 # cumsum_from 0 counts"
  have "assign_class N targets k alpha balanced c st = (rng3, deal_chunks xs ?offs k ci, deal_sizes xs ?offs k cs)"
    using counts by (cases balanced) (simp_all add: assign_class_def st xs ps ps'_def Let_def)
  then show ?thesis
    using ci dealt_deal_chunks [OF ci(1) lc sc] mx
    by (simp add: attempt_inv_def deal_sizes_lengths) (simp add: deal_chunks_def)
qed

lemma assign_classes_inv:
  assumes "numpy_ok N" "0 < k" "attempt_inv k M st"
  shows "attempt_inv k (M + (\<Sum>c\<leftarrow>classes. mset (class_positions targets c)))
           (assign_classes N targets k alpha balanced classes st)"
  using assms(3)
proof (induction classes arbitrary: M st)
  case Nil
  then show ?case by simp
next
  case (Cons c classes)
  show ?case
    using Cons.IH [OF assign_class_inv [OF assms(1,2) Cons.prems]] by (simp add: add.assoc)
qed

lemma merge_clients_msets:
  assumes "numpy_ok N"
  shows "map mset (merge_clients N rng ci) = map (mset \<circ> concat) ci"
proof (induction ci arbitrary: rng)
  case Nil
  then show ?case by simp
next
  case (Cons chunks ci)
  obtain m rng' where m: "rng_shuffle N rng (concat chunks) = (m, rng')" by fastforce
  have "mset m = mset (concat chunks)" using numpy_okD(2) [OF assms, of rng "concat chunks"] m by simp
  with Cons m show ?case by simp
qed

section \<open>Correctness of the partitioners\<close>

lemma validate_client_count_Inr [res_simps]:
  "validate_client_count n k = Inr u \<longleftrightarrow> 0 < k \<and> k \<le> int n"
  using validate_client_count_iff by simp

lemma assign_all_classes:
  assumes "numpy_ok N" "0 < k"
    and "assign_classes N targets k alpha balanced (np_unique targets)
           (rng0, replicate k [], replicate k 0) = (rng, ci, cs)"
  shows "length ci = k" "cs = map (length \<circ> concat) ci" "dealt ci = mset [0..<length targets]"
  using assign_classes_inv [OF assms(1,2) attempt_inv_init, of targets "np_unique targets" alpha balanced rng0]
  unfolding class_positions_cover assms(3) by (simp_all add: attempt_inv_def)

lemma merge_clients_facts:
  assumes "numpy_ok N" "parts = merge_clients N rng ci"
  shows "length parts = length ci" "map length parts = map (length \<circ> concat) ci"
    "mset (concat parts) = dealt ci"
proof -
  have ms: "map mset parts = map (mset \<circ> concat) ci"
    using merge_clients_msets [OF assms(1)] assms(2) by simp
  then show "length parts = length ci" by (metis length_map)
  have "map size (map mset parts) = map size (map (mset \<circ> concat) ci)" by (simp only: ms)
  then show "map length parts = map (length \<circ> concat) ci" by (simp add: comp_def)
  show "mset (concat parts) = dealt ci"
    by (simp add: dealt_def mset_concat ms comp_def)
qed

text \<open>An attempt passes the coverage check whatever the draws were; only the size rule can fail.\<close>

lemma attempt_covers:
  assumes "numpy_ok N" "0 < k" "targets \<noteq> []"
    and "assign_classes N targets k alpha balanced (np_unique targets)
           (rng0, replicate k [], replicate k 0) = (rng, ci, cs)"
    and "parts = merge_clients N rng ci"
  shows "validate_partition_coverage (map (map int) parts) (length targets) = Inr ()"
    and "length parts = k" "mset (concat parts) = mset [0..<length targets]" "map length parts = cs"
proof -
  note aa = assign_all_classes [OF assms(1,2,4)]
  note mc = merge_clients_facts [OF assms(1,5)]
  show l: "length parts = k" using aa mc by simp
  show m: "mset (concat parts) = mset [0..<length targets]" using aa(3) mc(3) by simp
  show "map length parts = cs" using aa(2) mc(2) by simp
  have "mset (concat (map (map int) parts)) = image_mset int (mset (concat parts))"
    by (metis map_concat mset_map)
  also have "\<dots> = mset (map int [0..<length targets])" by (simp only: m mset_map)
  finally show "validate_partition_coverage (map (map int) parts) (length targets) = Inr ()"
    using l assms(2) by (auto simp only: coverage_Inr_iff)
qed

lemma dirichlet_retry_result:
  assumes "numpy_ok N" "0 < k" "targets \<noteq> []"
  shows "dirichlet_retry N targets k alpha m balanced retries master
           = Inl (RuntimeError ''could not satisfy Dirichlet minimum sample constraint'') \<or>
         (\<exists>parts. dirichlet_retry N targets k alpha m balanced retries master = Inr parts \<and>
            length parts = k \<and> mset (concat parts) = mset [0..<length targets] \<and>
            (\<forall>part \<in> set parts. m \<le> int (length part)))"
proof (induction retries arbitrary: master)
  case 0
  then show ?case by simp
next
  case (Suc retries)
  obtain seed master' where s: "rng_integers N master 0 (2 ^ 63 - 1) = (seed, master')" by fastforce
  obtain rng ci cs where a: "assign_classes N targets k alpha balanced (np_unique targets)
      (default_rng N seed, replicate k [], replicate k 0) = (rng, ci, cs)"
    by (metis prod_cases3)
  note cov = attempt_covers [OF assms a refl]
  show ?case
  proof (cases "list_all (\<lambda>s. m \<le> int s) cs")
    case True
    then have "\<forall>part \<in> set (merge_clients N rng ci). m \<le> int (length part)"
      using cov(4) by (auto simp: list_all_iff)
    with True show ?thesis using cov(1,2,3) s a by simp
  next
    case False
    with s a have "dirichlet_retry N targets k alpha m balanced (Suc retries) master
        = dirichlet_retry N targets k alpha m balanced retries master'" by simp
    then show ?thesis using Suc.IH [of master'] by (simp only:)
  qed
qed

lemma extract_targets_nonempty: "extract_targets src = Inr ts \<Longrightarrow> ts \<noteq> []"
proof -
  have "as_targets a = Inr ts \<Longrightarrow> ts \<noteq> []" for a
    by (cases a) (auto split: if_splits)
  then show "extract_targets src = Inr ts \<Longrightarrow> ts \<noteq> []"
    by (induction src rule: extract_targets.induct) (auto simp only: extract_targets.simps res_simps)
qed


lemma iid_partition_Inr:
  assumes N: "numpy_ok N" and ts: "extract_targets src = Inr targets"
    and r: "iid_partition N src k seed = Inr parts"
  shows "0 < k" "k \<le> int (length targets)" "map length parts = split_sizes (length targets) (nat k)"
    "mset (concat parts) = mset [0..<length targets]" "list_all sorted parts"
proof -
  let ?sh = "fst (rng_permutation N (default_rng N seed) (length targets))"
  have k: "0 < k" "k \<le> int (length targets)"
    and parts: "parts = map (np_sort N) (np_array_split N ?sh (nat k))"
    using r ts by (auto simp: iid_partition_def res_simps Let_def)
  show "0 < k" "k \<le> int (length targets)" by (fact k)+
  have sh: "mset ?sh = mset [0..<length targets]" by (rule numpy_okD(1) [OF N])
  have "0 < nat k" using k by simp
  note sp = numpy_okD(6,7) [OF N this, of ?sh]
  note srt = numpy_okD(8,9) [OF N]
  have lsh: "length ?sh = length targets" using mset_eq_length [OF sh] by simp
  have "length (np_sort N xs) = length xs" for xs using srt(2) by (rule mset_eq_length)
  then show "map length parts = split_sizes (length targets) (nat k)"
    using sp(2) lsh by (simp add: parts comp_def)
  have "mset (concat parts) = mset (concat (np_array_split N ?sh (nat k)))"
    by (simp add: parts mset_concat comp_def srt)
  then show "mset (concat parts) = mset [0..<length targets]" by (simp only: sp sh)
  show "list_all sorted parts" by (simp add: parts list_all_iff srt)
qed

lemma dirichlet_partition_Inr:
  assumes N: "numpy_ok N" and ts: "extract_targets src = Inr targets"
    and r: "dirichlet_partition N src k alpha seed m retries balanced = Inr parts"
  shows "length parts = nat k" "mset (concat parts) = mset [0..<length targets]"
    "\<forall>part \<in> set parts. m \<le> int (length part)"
proof -
  have k: "0 < k"
    and rr: "dirichlet_retry N targets (nat k) alpha m balanced (nat retries) (default_rng N seed) = Inr parts"
    using r ts by (auto simp: dirichlet_partition_def res_simps split: if_splits)
  have "0 < nat k" using k by simp
  from dirichlet_retry_result [OF N this extract_targets_nonempty [OF ts],
      of alpha m balanced "nat retries" "default_rng N seed"] rr
  show "length parts = nat k" "mset (concat parts) = mset [0..<length targets]"
    "\<forall>part \<in> set parts. m \<le> int (length part)" by auto
qed

definition target_count :: "target_source \<Rightarrow> nat" where
  "target_count src = (case extract_targets src of Inl _ \<Rightarrow> 0 | Inr ts \<Rightarrow> length ts)"

lemma partition_dataset_Inr:
  assumes N: "numpy_ok N" and r: "partition_dataset N src k strategy alpha seed m = Inr parts"
  shows "mset (concat parts) = mset [0..<target_count src]" "length parts = nat k"
proof -
  obtain ts where ts: "extract_targets src = Inr ts"
    using r by (auto simp: partition_dataset_def iid_partition_def dirichlet_partition_def res_simps
        Let_def split: if_splits)
  consider "iid_partition N src k seed = Inr parts"
    | "dirichlet_partition N src k alpha seed m 1024 True = Inr parts"
    | "dirichlet_partition N src k alpha seed m 1024 False = Inr parts"
    using r by (auto simp: partition_dataset_def Let_def split: if_splits)
  then have "mset (concat parts) = mset [0..<target_count src] \<and> length parts = nat k"
  proof cases
    case 1
    note i = iid_partition_Inr [OF N ts 1]
    have "length (map length parts) = nat k" using i(1,3)
      by (simp add: split_sizes_def less_imp_le)
    with i(4) ts show ?thesis by (simp only: target_count_def length_map sum.case)
  next
    case 2
    from dirichlet_partition_Inr [OF N ts 2] ts show ?thesis by (simp only: target_count_def sum.case)
  next
    case 3
    from dirichlet_partition_Inr [OF N ts 3] ts show ?thesis by (simp only: target_count_def sum.case)
  qed
  then show "mset (concat parts) = mset [0..<target_count src]" "length parts = nat k" by blast+
qed

interpretation pd: partition_scheme
  "\<lambda>(N, src, k, strategy, alpha, seed, m). partition_dataset N src k strategy alpha seed m"
  "\<lambda>(N, src, k, strategy, alpha, seed, m). numpy_ok N"
  "\<lambda>(N, src, k, strategy, alpha, seed, m). target_count src"
  "\<lambda>(N, src, k, strategy, alpha, seed, m). nat k"
proof (unfold_locales, goal_cases)
  case (1 p parts)
  then show ?case by (cases p) (auto dest: partition_dataset_Inr simp del: mset_upt)
next
  case (2 p parts)
  then show ?case by (cases p) (auto dest: partition_dataset_Inr)
qed

section \<open>A concrete NumPy\<close>

text \<open>
  An instance of the parameter for evaluation: the generator has no state, permutations and shuffles
  leave the order alone, and a multinomial draw deals its items round about equally.
\<close>

fun cut :: "nat list \<Rightarrow> 'a list \<Rightarrow> 'a list list" where
  "cut [] xs = []"
| "cut (s # ss) xs = take s xs # cut ss (drop s xs)"

definition numpy_seq :: "unit numpy" where
  "numpy_seq =
     \<lparr>default_rng = (\<lambda>seed. ()),
      rng_integers = (\<lambda>g lo hi. (lo, g)),
      rng_permutation = (\<lambda>g n. ([0..<n], g)),
      rng_shuffle = (\<lambda>g xs. (xs, g)),
      rng_dirichlet = (\<lambda>g as. (as, g)),
      rng_multinomial = (\<lambda>g n ps. (if ps = [] then [] else split_sizes n (length ps), g)),
      np_array_split = (\<lambda>xs n. cut (split_sizes (length xs) n) xs),
      np_sort = sort,
      np_sum = (\<lambda>xs. foldr (fl_add binary64) xs (Fin 0))\<rparr>"

lemma cut_facts:
  assumes "sum_list ss = length xs"
  shows "concat (cut ss xs) = xs" "map length (cut ss xs) = ss"
  using assms
proof (induction ss arbitrary: xs)
  case (Cons s ss)
  case 1
  then show ?case using Cons(1) [of "drop s xs"] by simp
  case 2
  then show ?case using Cons(2) [of "drop s xs"] by simp
qed simp_all

lemma length_split_sizes: "0 < n \<Longrightarrow> length (split_sizes l n) = n"
  by (simp add: split_sizes_def less_imp_le)

lemma numpy_seq_ok: "numpy_ok numpy_seq"
  unfolding numpy_ok_def numpy_seq_def
  by (simp add: cut_facts sum_list_split_sizes length_split_sizes)

section \<open>Properties\<close>

text \<open>For every labelled dataset and every client count between 1 and the number of samples,
  the IID partitioner returns: each sample index is assigned exactly once, every part is sorted, and
  part sizes are the quotient of samples by clients or one more.\<close>

theorem iid_partition_correct:
  assumes "numpy_ok N" "extract_targets src = Inr targets" "0 < k" "k \<le> int (length targets)"
  shows "\<exists>parts. iid_partition N src k seed = Inr parts \<and> length parts = nat k \<and>
      mset (concat parts) = mset [0..<length targets] \<and> list_all sorted parts \<and>
      list_all (\<lambda>part. length part \<in> {length targets div nat k, length targets div nat k + 1}) parts"
proof -
  obtain parts where r: "iid_partition N src k seed = Inr parts"
    using assms by (simp add: iid_partition_def validate_client_count_def Let_def)
  note i = iid_partition_Inr [OF assms(1,2) r]
  have "length (map length parts) = nat k" using i(3) assms(3) by (simp only: length_split_sizes zero_less_nat_eq)
  moreover have "\<forall>l \<in> set (map length parts). l \<in> {length targets div nat k, length targets div nat k + 1}"
    unfolding i(3) by (auto simp: split_sizes_def in_set_replicate)
  ultimately show ?thesis using r i(4,5) by (auto simp: list_all_iff simp del: mset_upt)
qed

theorem iid_partition_correct_witness:
  "numpy_ok numpy_seq \<and> extract_targets (ArraySrc (IntArr [5] [0, 1, 0, 1, 1])) = Inr [0, 1, 0, 1, 1] \<and>
   (\<exists>parts. iid_partition numpy_seq (ArraySrc (IntArr [5] [0, 1, 0, 1, 1])) 2 7 = Inr parts \<and>
      length parts = nat 2 \<and> mset (concat parts) = mset [0..<length [0, 1, 0, 1, 1 :: int]] \<and> list_all sorted parts \<and>
      list_all (\<lambda>part. length part \<in> {length [0, 1, 0, 1, 1 :: int] div nat 2,
        length [0, 1, 0, 1, 1 :: int] div nat 2 + 1}) parts)"
proof -
  have e: "extract_targets (ArraySrc (IntArr [5] [0, 1, 0, 1, 1])) = Inr [0, 1, 0, 1, 1]" by simp
  show ?thesis
    by (intro conjI numpy_seq_ok e iid_partition_correct [OF numpy_seq_ok e]) simp_all
qed



text \<open>Whatever strategy is dispatched to, every sample index belongs to exactly one client.\<close>

theorem partition_dataset_owner:
  assumes "numpy_ok N" "partition_dataset N src k strategy alpha seed m = Inr parts" "i < target_count src"
  shows "\<exists>!c. c < nat k \<and> i \<in> set (parts ! c)"
  using pd.owner_unique [of "(N, src, k, strategy, alpha, seed, m)" parts i] assms by simp

theorem partition_dataset_owner_witness:
  "partition_dataset numpy_seq (ArraySrc (IntArr [5] [0, 1, 0, 1, 1])) 2 '' Dirichlet-RAW '' (Fin 1) 7 1
     = Inr [[0, 1, 3], [2, 4]] \<and> (\<exists>!c. c < nat 2 \<and> 3 \<in> set ([[0, 1, 3], [2, 4 :: nat]] ! c))"
proof -
  have r: "partition_dataset numpy_seq (ArraySrc (IntArr [5] [0, 1, 0, 1, 1])) 2 '' Dirichlet-RAW '' (Fin 1) 7 1
      = Inr [[0, 1, 3], [2, 4]]"
    by code_simp
  have "3 < target_count (ArraySrc (IntArr [5] [0, 1, 0, 1, 1]))" by (simp add: target_count_def)
  from partition_dataset_owner [OF numpy_seq_ok r this] r show ?thesis by blast
qed

text \<open>The coverage check accepts exactly the non-empty families of parts that are a permutation
  of the sample range; it is a decision procedure for exact assignment, not only a sanity test.\<close>

theorem validate_partition_coverage_exact:
  "validate_partition_coverage parts n = Inr () \<longleftrightarrow>
     parts \<noteq> [] \<and> mset (concat parts) = mset (map int [0..<n])"
  by (rule coverage_Inr_iff)


lemma res_map_np_index:
  assumes "\<forall>i \<in> set part. i < length labels"
  shows "res_map (np_index labels) (map int part) = Inr (map (\<lambda>i. labels ! i) part)"
  using assms by (induction part) (auto simp: np_index_def)

lemma sum_class_counts: "sum_list (map (count_list sel) (np_unique sel)) = length sel"
  by (simp add: np_unique_def sum_list_distinct_conv_sum_set sum_count_set)

text \<open>The count a client's histogram gives a class; an absent class counts zero.\<close>

definition class_count :: "PartitionStats \<Rightarrow> int \<Rightarrow> nat" where
  "class_count st c = (case map_of (class_counts st) c of None \<Rightarrow> 0 | Some n \<Rightarrow> n)"

lemma class_count_hist:
  "class_count \<lparr>client_id = i, sample_count = n, class_counts = map (\<lambda>c. (c, count_list sel c)) (np_unique sel)\<rparr> c
     = count_list sel c"
proof -
  have "map_of (map (\<lambda>c. (c, count_list sel c)) (np_unique sel)) c =
      (if c \<in> set sel then Some (count_list sel c) else None)"
    by (simp add: np_unique_def map_of_map_restrict restrict_map_def)
  then show ?thesis by (simp add: class_count_def count_list_0_iff)
qed

lemma count_list_concat: "count_list (concat xss) c = (\<Sum>xs\<leftarrow>xss. count_list xs c)"
  by (induction xss) auto

text \<open>For an exact partition of a dataset the statistics are returned, one per client; the class
  histogram of each client adds up to its sample count, and the histograms of all clients add up to the
  class counts of the dataset.\<close>

theorem partition_stats_totals:
  assumes "extract_targets src = Inr labels" "mset (concat parts) = mset [0..<length labels]"
  shows "\<exists>stats. partition_stats src (map (map int) parts) = Inr stats \<and> length stats = length parts \<and>
      list_all (\<lambda>st. sum_list (map snd (class_counts st)) = sample_count st) stats \<and>
      (\<forall>c. (\<Sum>st\<leftarrow>stats. class_count st c) = count_list labels c)"
proof -
  let ?sel = "\<lambda>part. map (\<lambda>i. labels ! i) part"
  let ?st = "\<lambda>(i, part). \<lparr>client_id = i, sample_count = length part,
      class_counts = map (\<lambda>c. (c, count_list (?sel part) c)) (np_unique (?sel part))\<rparr>"
  have range: "\<forall>i \<in> set part. i < length labels" if "part \<in> set parts" for part
    using that mset_eq_setD [OF assms(2)] by auto
  have st: "client_stats labels (i, map int part) = Inr (?st (i, part))" if "part \<in> set parts" for i part
    by (simp add: client_stats_def res_map_np_index [OF range [OF that]])
  have "res_map (client_stats labels) (enumerate j (map (map int) ps)) = Inr (map ?st (enumerate j ps))"
    if "set ps \<subseteq> set parts" for ps j
    using that by (induction ps arbitrary: j) (simp_all add: st del: res_map.simps(2), simp add: st)
  then have r: "partition_stats src (map (map int) parts) = Inr (map ?st (enumerate 0 parts))"
    using assms(1) by (simp add: partition_stats_def)
  have "(\<Sum>st\<leftarrow>map ?st (enumerate 0 parts). class_count st c) = count_list labels c" for c
  proof -
    have "(\<Sum>st\<leftarrow>map ?st (enumerate j ps). class_count st c) = (\<Sum>part\<leftarrow>ps. count_list (?sel part) c)" for j ps
      by (induction ps arbitrary: j) (simp_all add: class_count_hist)
    then have "(\<Sum>st\<leftarrow>map ?st (enumerate 0 parts). class_count st c) = count_list (?sel (concat parts)) c"
      by (simp add: count_list_concat map_concat comp_def)
    also have "\<dots> = count_list (?sel [0..<length labels]) c"
      using assms(2) by (metis count_mset mset_map)
    finally show ?thesis by (simp only: map_nth)
  qed
  moreover have "list_all (\<lambda>st. sum_list (map snd (class_counts st)) = sample_count st) (map ?st (enumerate 0 parts))"
    using sum_class_counts by (auto simp: list_all_iff comp_def)
  ultimately show ?thesis using r by (intro exI [of _ "map ?st (enumerate 0 parts)"]) simp
qed

theorem partition_stats_totals_witness:
  "\<exists>stats. partition_stats (ArraySrc (IntArr [3] [4, 5, 4])) (map (map int) [[2], [0, 1]]) = Inr stats \<and>
     length stats = length [[2], [0, 1 :: nat]] \<and>
     list_all (\<lambda>st. sum_list (map snd (class_counts st)) = sample_count st) stats \<and>
     (\<forall>c. (\<Sum>st\<leftarrow>stats. class_count st c) = count_list [4, 5, 4] c)"
  by (rule partition_stats_totals) (simp_all add: upt_rec)

end
