(* ===== verification/Argparse.thy ===== *)
theory Argparse
  imports Py_String IEEE_Float
begin

text \<open>
  The part of Python's \<open>argparse\<close> the command line programs use: options with one argument (a string, an integer, a
  float, one of a list of choices), \<open>store_true\<close> flags, \<open>BooleanOptionalAction\<close> and the help option. The steps are
  those of \<open>parse_args\<close>: every argument string is classified first (exact option, \<open>--option=value\<close>, unambiguous
  prefix, negative number), then the options consume their arguments from left to right, and what is left over is
  a usage error. A usage error exits with status 2, help with status 0.

  \<open>float_of\<close> is \<open>float(s)\<close>.
\<close>

section \<open>Options\<close>

datatype opt_kind = OStr | OInt | OFloat | OChoice "string list" | OFlag | OBool | OHelp

datatype arg_value = VStr string | VInt int | VFloat fl | VBool bool

text \<open>An option string stands for a destination, a kind and, for the switches, the value it sets.\<close>

type_synonym action = "string \<times> opt_kind \<times> bool"

fun option_strings :: "(string \<times> opt_kind) list \<Rightarrow> (string \<times> action) list" where
  "option_strings [] = []"
| "option_strings ((name, k) # rest) =
     (if k = OBool then [(''--'' @ name, name, k, True), (''--no-'' @ name, name, k, False)]
      else if k = OHelp then [(''-h'', name, k, True), (''--help'', name, k, True)]
      else [(''--'' @ name, name, k, True)]) @ option_strings rest"

section \<open>Classification\<close>

datatype token = Arg string | Opt action "string option" | Unknown

definition is_digit_string :: "string \<Rightarrow> bool" where
  "is_digit_string s \<longleftrightarrow> list_all is_digit s"

text \<open>The pattern \<open>-\d+$|-\d*\.\d+$\<close>.\<close>

definition negative_number :: "string \<Rightarrow> bool" where
  "negative_number s \<longleftrightarrow>
     (case s of [] \<Rightarrow> False
      | c # body \<Rightarrow>
          c = CHR ''-'' \<and>
          (let whole = takeWhile is_digit body; rest = dropWhile is_digit body
           in rest = [] \<and> whole \<noteq> [] \<or>
              rest \<noteq> [] \<and> hd rest = CHR ''.'' \<and> tl rest \<noteq> [] \<and> is_digit_string (tl rest)))"

definition split_equals :: "string \<Rightarrow> string \<times> string option" where
  "split_equals s =
     (let name = takeWhile (\<lambda>c. c \<noteq> CHR ''='') s; rest = dropWhile (\<lambda>c. c \<noteq> CHR ''='') s
      in (name, if rest = [] then None else Some (tl rest)))"

definition is_prefix :: "string \<Rightarrow> string \<Rightarrow> bool" where
  "is_prefix p s \<longleftrightarrow> take (length p) s = p"

definition option_tuples :: "(string \<times> action) list \<Rightarrow> string \<Rightarrow> token list" where
  "option_tuples table s =
     (if take 2 s = ''--'' then
        (let (name, explicit) = split_equals s
         in map (\<lambda>(opt, a). Opt a explicit) (filter (\<lambda>(opt, a). is_prefix name opt) table))
      else
        concat (map (\<lambda>(opt, a). if opt = take 2 s then [Opt a (Some (drop 2 s))]
                                else if is_prefix s opt then [Opt a None] else []) table))"

definition usage_error :: exn where
  "usage_error = SystemExit ''2''"

definition classify :: "(string \<times> action) list \<Rightarrow> string \<Rightarrow> token res" where
  "classify table s =
     (if s = [] \<or> hd s \<noteq> CHR ''-'' then Inr (Arg s)
      else case map_of table s of
        Some a \<Rightarrow> Inr (Opt a None)
      | None \<Rightarrow>
          if length s = 1 then Inr (Arg s)
          else case (if CHR ''='' \<in> set s then map_of table (fst (split_equals s)) else None) of
            Some a \<Rightarrow> Inr (Opt a (snd (split_equals s)))
          | None \<Rightarrow>
              (case option_tuples table s of
                 [] \<Rightarrow> if negative_number s \<or> CHR '' '' \<in> set s then Inr (Arg s) else Inr Unknown
               | [t] \<Rightarrow> Inr t
               | _ \<Rightarrow> Inl usage_error))"

fun tokenize :: "(string \<times> action) list \<Rightarrow> string list \<Rightarrow> token list res" where
  "tokenize table [] = Inr []"
| "tokenize table (s # rest) =
     (if s = ''--'' then Inr (Unknown # map Arg rest)
      else res_bind (classify table s) (\<lambda>t. res_bind (tokenize table rest) (\<lambda>ts. Inr (t # ts))))"

section \<open>Consumption\<close>

definition convert :: "(string \<Rightarrow> fl res) \<Rightarrow> opt_kind \<Rightarrow> string \<Rightarrow> arg_value res" where
  "convert float_of k s =
     (case k of
        OInt \<Rightarrow> (case py_int s of Inl e \<Rightarrow> Inl usage_error | Inr n \<Rightarrow> Inr (VInt n))
      | OFloat \<Rightarrow> (case float_of s of Inl e \<Rightarrow> Inl usage_error | Inr x \<Rightarrow> Inr (VFloat x))
      | OChoice choices \<Rightarrow> if s \<in> set choices then Inr (VStr s) else Inl usage_error
      | _ \<Rightarrow> Inr (VStr s))"

text \<open>The flag: something was left over so far.\<close>

fun consume :: "(string \<Rightarrow> fl res) \<Rightarrow> bool \<Rightarrow> token list \<Rightarrow> (string \<rightharpoonup> arg_value) \<Rightarrow> (string \<rightharpoonup> arg_value) res" where
  "consume float_of extras [] acc = (if extras then Inl usage_error else Inr acc)"
| "consume float_of extras (Arg s # ts) acc = consume float_of True ts acc"
| "consume float_of extras (Unknown # ts) acc = consume float_of True ts acc"
| "consume float_of extras (Opt (dest, k, sets) explicit # ts) acc =
     (if k = OHelp then Inl (if explicit = None then SystemExit ''0'' else usage_error)
      else if k = OFlag \<or> k = OBool then
        (if explicit = None then consume float_of extras ts (acc(dest \<mapsto> VBool sets)) else Inl usage_error)
      else case explicit of
        Some v \<Rightarrow> res_bind (convert float_of k v) (\<lambda>x. consume float_of extras ts (acc(dest \<mapsto> x)))
      | None \<Rightarrow>
          (case ts of
             Arg v # ts' \<Rightarrow> res_bind (convert float_of k v) (\<lambda>x. consume float_of extras ts' (acc(dest \<mapsto> x)))
           | _ \<Rightarrow> Inl usage_error))"

definition parse_options :: "(string \<Rightarrow> fl res) \<Rightarrow> (string \<times> opt_kind) list \<Rightarrow> string list \<Rightarrow> (string \<rightharpoonup> arg_value) res" where
  "parse_options float_of opts argv =
     res_bind (tokenize (option_strings ((''help'', OHelp) # opts)) argv) (\<lambda>ts. consume float_of False ts Map.empty)"

text \<open>The attributes of the namespace, with their defaults.\<close>

definition arg_str :: "(string \<rightharpoonup> arg_value) \<Rightarrow> string \<Rightarrow> string \<Rightarrow> string" where
  "arg_str m name d = (case m name of Some (VStr s) \<Rightarrow> s | _ \<Rightarrow> d)"

definition arg_int :: "(string \<rightharpoonup> arg_value) \<Rightarrow> string \<Rightarrow> int \<Rightarrow> int" where
  "arg_int m name d = (case m name of Some (VInt n) \<Rightarrow> n | _ \<Rightarrow> d)"

definition arg_int_opt :: "(string \<rightharpoonup> arg_value) \<Rightarrow> string \<Rightarrow> int option" where
  "arg_int_opt m name = (case m name of Some (VInt n) \<Rightarrow> Some n | _ \<Rightarrow> None)"

definition arg_float :: "(string \<rightharpoonup> arg_value) \<Rightarrow> string \<Rightarrow> fl \<Rightarrow> fl" where
  "arg_float m name d = (case m name of Some (VFloat x) \<Rightarrow> x | _ \<Rightarrow> d)"

definition arg_bool :: "(string \<rightharpoonup> arg_value) \<Rightarrow> string \<Rightarrow> bool \<Rightarrow> bool" where
  "arg_bool m name d = (case m name of Some (VBool b) \<Rightarrow> b | _ \<Rightarrow> d)"

text \<open>Defaults from the environment.\<close>

definition getenv :: "(string \<Rightarrow> string option) \<Rightarrow> string \<Rightarrow> string \<Rightarrow> string" where
  "getenv env name fallback = (case env name of None \<Rightarrow> fallback | Some s \<Rightarrow> s)"

definition env_flag :: "string option \<Rightarrow> bool \<Rightarrow> bool" where
  "env_flag raw fallback =
     (case raw of None \<Rightarrow> fallback | Some s \<Rightarrow> py_lower (py_strip s) \<in> {''1'', ''true'', ''yes'', ''on''})"

section \<open>Typing\<close>

text \<open>A value of the kind its option declares.\<close>

fun value_ok :: "opt_kind \<Rightarrow> arg_value \<Rightarrow> bool" where
  "value_ok OStr (VStr s) = True"
| "value_ok OInt (VInt n) = True"
| "value_ok OFloat (VFloat x) = True"
| "value_ok (OChoice choices) (VStr s) = (s \<in> set choices)"
| "value_ok OFlag (VBool b) = b"
| "value_ok OBool (VBool b) = True"
| "value_ok k v = False"

definition well_kinded :: "(string \<times> opt_kind) list \<Rightarrow> (string \<rightharpoonup> arg_value) \<Rightarrow> bool" where
  "well_kinded opts m \<longleftrightarrow> (\<forall>name v. m name = Some v \<longrightarrow> (\<exists>k. (name, k) \<in> set opts \<and> value_ok k v))"

definition declared :: "(string \<times> opt_kind) list \<Rightarrow> action \<Rightarrow> bool" where
  "declared opts a \<longleftrightarrow> (case a of (name, k, sets) \<Rightarrow> (name, k) \<in> set opts \<and> (k = OFlag \<longrightarrow> sets))"

fun token_ok :: "(string \<times> opt_kind) list \<Rightarrow> token \<Rightarrow> bool" where
  "token_ok opts (Opt a explicit) = declared opts a"
| "token_ok opts t = True"

lemma option_strings_declared: "(s, a) \<in> set (option_strings opts) \<Longrightarrow> declared opts a"
  by (induction opts rule: option_strings.induct) (auto simp: declared_def split: if_splits prod.splits)

lemma option_tuples_ok:
  "\<forall>(s, a) \<in> set table. declared opts a \<Longrightarrow> t \<in> set (option_tuples table s) \<Longrightarrow> token_ok opts t"
  by (auto simp: option_tuples_def split: if_splits prod.splits)

lemma classify_ok:
  assumes "\<forall>(s, a) \<in> set table. declared opts a" "classify table s = Inr t"
  shows "token_ok opts t"
  using assms(2) option_tuples_ok [OF assms(1), of _ s] assms(1)
  unfolding classify_def
  by (auto split: if_splits option.splits list.splits dest!: map_of_SomeD)

lemma tokenize_ok:
  "\<forall>(s, a) \<in> set table. declared opts a \<Longrightarrow> tokenize table argv = Inr ts \<Longrightarrow> t \<in> set ts \<Longrightarrow> token_ok opts t"
  by (induction argv arbitrary: ts) (auto simp: res_simps classify_ok split: if_splits)

lemma convert_ok:
  "convert float_of k s = Inr v \<Longrightarrow> k \<notin> {OFlag, OBool, OHelp} \<Longrightarrow> value_ok k v"
  by (auto simp: convert_def split: opt_kind.splits sum.splits if_splits)

lemma well_kinded_update: "well_kinded opts m \<Longrightarrow> (name, k) \<in> set opts \<Longrightarrow> value_ok k v \<Longrightarrow> well_kinded opts (m(name \<mapsto> v))"
  by (auto simp: well_kinded_def)

lemma consume_well_kinded:
  "consume float_of extras ts acc = Inr m \<Longrightarrow> \<forall>t \<in> set ts. token_ok opts t \<Longrightarrow> well_kinded opts acc \<Longrightarrow> well_kinded opts m"
proof (induction float_of extras ts acc rule: consume.induct)
  case (4 float_of extras dest k sets explicit ts acc)
  have d: "(dest, k) \<in> set opts" "k = OFlag \<Longrightarrow> sets" using 4(5) by (auto simp: declared_def)
  consider "k \<in> {OFlag, OBool}" | v where "k \<notin> {OFlag, OBool, OHelp}" "explicit = Some v" | "k \<notin> {OFlag, OBool, OHelp}" "explicit = None"
    | "k = OHelp" by (cases explicit) auto
  then show ?case
  proof cases
    case 1
    then have "value_ok k (VBool sets)" using d(2) by (cases k) auto
    then have w: "well_kinded opts (acc(dest \<mapsto> VBool sets))" by (rule well_kinded_update [OF 4(6) d(1)])
    have "explicit = None" "consume float_of extras ts (acc(dest \<mapsto> VBool sets)) = Inr m"
      using 1 4(4) by (auto split: if_splits)
    then show ?thesis using 1 4(5) w by (intro 4(1)) (auto simp: fun_upd_def)
  next
    case (2 v)
    then obtain x where x: "convert float_of k v = Inr x" "consume float_of extras ts (acc(dest \<mapsto> x)) = Inr m"
      using 4(4) by (auto simp: res_simps)
    have "well_kinded opts (acc(dest \<mapsto> x))" using 2 by (intro well_kinded_update [OF 4(6) d(1)] convert_ok [OF x(1)]) simp
    then show ?thesis using 2 4(5) x by (intro 4(3) [OF _ _ 2(2), of x]) (auto simp: fun_upd_def)
  next
    case 3
    then obtain v ts' x where x: "ts = Arg v # ts'" "convert float_of k v = Inr x" "consume float_of extras ts' (acc(dest \<mapsto> x)) = Inr m"
      using 4(4) by (auto simp: res_simps split: list.splits token.splits)
    have "well_kinded opts (acc(dest \<mapsto> x))" using 3 by (intro well_kinded_update [OF 4(6) d(1)] convert_ok [OF x(2)]) simp
    then show ?thesis using 3 4(5) x by (intro 4(2) [of "Arg v" ts' v x]) (auto simp: fun_upd_def)
  qed (use 4(4) in simp)
qed (auto split: if_splits)

lemma parse_options_well_kinded:
  assumes "parse_options float_of opts argv = Inr m"
  shows "well_kinded ((''help'', OHelp) # opts) m"
proof -
  let ?opts = "(''help'', OHelp) # opts"
  obtain ts where ts: "tokenize (option_strings ?opts) argv = Inr ts" "consume float_of False ts Map.empty = Inr m"
    using assms by (auto simp: parse_options_def res_simps)
  have "\<forall>t \<in> set ts. token_ok ?opts t" using tokenize_ok [OF _ ts(1)] option_strings_declared by blast
  then show ?thesis by (rule consume_well_kinded [OF ts(2)]) (simp add: well_kinded_def)
qed

lemma parsed_choice:
  assumes "parse_options float_of opts argv = Inr m" "distinct (map fst opts)" "''help'' \<notin> fst ` set opts"
    "(name, OChoice choices) \<in> set opts" "d \<in> set choices"
  shows "arg_str m name d \<in> set choices"
proof (cases "m name")
  case (Some v)
  then obtain k where "(name, k) \<in> set ((''help'', OHelp) # opts)" "value_ok k v"
    using parse_options_well_kinded [OF assms(1)] unfolding well_kinded_def by blast
  moreover have "k = OChoice choices"
    using calculation(1) assms(2-4) eq_key_imp_eq_value [of opts name k "OChoice choices"] by (auto simp: image_iff)
  ultimately show ?thesis using Some assms(5) by (cases v) (auto simp: arg_str_def)
qed (simp add: arg_str_def assms)

section \<open>Printed arguments\<close>

text \<open>What a program that starts another one prints is what the other one reads.\<close>

definition plain_arg :: "string \<Rightarrow> bool" where
  "plain_arg s \<longleftrightarrow> s = [] \<or> hd s \<noteq> CHR ''-''"

lemma classify_plain: "plain_arg s \<Longrightarrow> classify table s = Inr (Arg s)"
  by (auto simp: classify_def plain_arg_def)

lemma plain_not_sep: "plain_arg s \<Longrightarrow> s \<noteq> ''--''"
  by (auto simp: plain_arg_def)

lemma option_string_forms: "(s, a) \<in> set (option_strings opts) \<Longrightarrow> s = ''-h'' \<or> (\<exists>t. s = CHR ''-'' # CHR ''-'' # t)"
  by (induction opts rule: option_strings.induct) (auto split: if_splits)

lemma plain_digits: "plain_arg (py_str_nat n)"
  using set_py_str_nat [OF hd_in_set [OF py_str_nat_ne]] digit_not_space(2) by (auto simp: plain_arg_def)

lemma list_all_digits: "takeWhile is_digit (py_str_nat n) = py_str_nat n" "dropWhile is_digit (py_str_nat n) = []"
  using set_py_str_nat by (auto simp: takeWhile_eq_all_conv dropWhile_eq_Nil_conv)

lemma classify_int: "classify (option_strings opts) (py_str_int n) = Inr (Arg (py_str_int n))"
proof (cases "n < 0")
  case False
  then show ?thesis using classify_plain plain_digits by (simp add: py_str_int_def)
next
  case True
  let ?d = "py_str_nat (nat (- n))" let ?s = "CHR ''-'' # ?d" let ?t = "option_strings opts"
  obtain c cs where d: "?d = c # cs" by (cases ?d) auto
  have c: "is_digit c" using set_py_str_nat [of c "nat (- n)"] d by simp
  then have c': "c \<noteq> CHR ''-''" "c \<noteq> CHR ''h''" "c \<noteq> CHR '' ''" "c \<noteq> CHR ''=''" by (auto simp: is_digit_def)
  have no: "s \<noteq> CHR ''-'' # c # u" if "(s, a) \<in> set ?t" for s a u
    using option_string_forms [OF that] c' by auto
  have "map_of ?t ?s = None" using no [of _ _ cs] d by (fastforce simp: map_of_eq_None_iff)
  moreover have "CHR ''='' \<notin> set ?s" "CHR '' '' \<notin> set ?s" using set_py_str_nat [of "CHR ''=''" "nat (- n)"] set_py_str_nat [of "CHR '' ''" "nat (- n)"]
    by (auto simp: is_digit_def)
  moreover have "option_tuples ?t ?s = []"
  proof -
    have "\<forall>(s, a) \<in> set ?t. s \<noteq> take 2 ?s \<and> \<not> is_prefix ?s s"
    proof (clarsimp simp: d is_prefix_def, intro conjI)
      fix s a b e assume m: "(s, a, b, e) \<in> set ?t"
      show "s \<noteq> [CHR ''-'', c]" using no [OF m, of "[]"] by simp
      show "take (Suc (Suc (length cs))) s \<noteq> CHR ''-'' # c # cs"
      proof
        assume "take (Suc (Suc (length cs))) s = CHR ''-'' # c # cs"
        then have "s = CHR ''-'' # c # cs @ drop (Suc (Suc (length cs))) s"
          using append_take_drop_id [of "Suc (Suc (length cs))" s] by simp
        then show False using no [OF m, of "cs @ drop (Suc (Suc (length cs))) s"] by simp
      qed
    qed
    then show ?thesis using c' d by (auto simp: option_tuples_def)
  qed
  moreover have "negative_number ?s" using set_py_str_nat by (auto simp: negative_number_def list_all_digits)
  ultimately show ?thesis using True by (simp add: classify_def py_str_int_def)
qed

lemma int_not_sep: "py_str_int n \<noteq> ''--''"
proof
  assume "py_str_int n = ''--''"
  then have "CHR ''-'' \<in> set (py_str_nat (nat (- n))) \<or> CHR ''-'' \<in> set (py_str_nat (nat n))"
    by (auto simp: py_str_int_def split: if_splits)
  then show False using set_py_str_nat digit_not_space(2) by blast
qed

text \<open>An option and its value.\<close>

lemma consume_valued:
  "k \<notin> {OFlag, OBool, OHelp} \<Longrightarrow> convert float_of k v = Inr x \<Longrightarrow>
     consume float_of extras (Opt (dest, k, sets) None # Arg v # ts) acc = consume float_of extras ts (acc(dest \<mapsto> x))"
  by (cases k) auto


text \<open>A printed command line is a list of items: an option with its value, or a switch.\<close>

datatype item = Valued string string opt_kind string arg_value | Switched string string opt_kind bool

fun item_strings :: "item \<Rightarrow> string list" where
  "item_strings (Valued s name k v x) = [s, v]"
| "item_strings (Switched s name k b) = [s]"

fun item_binding :: "item \<Rightarrow> string \<times> arg_value" where
  "item_binding (Valued s name k v x) = (name, x)"
| "item_binding (Switched s name k b) = (name, VBool b)"

fun item_ok :: "(string \<Rightarrow> fl res) \<Rightarrow> (string \<times> opt_kind) list \<Rightarrow> item \<Rightarrow> bool" where
  "item_ok float_of opts (Valued s name k v x) \<longleftrightarrow>
     map_of (option_strings ((''help'', OHelp) # opts)) s = Some (name, k, True) \<and> take 2 s = ''--'' \<and> s \<noteq> ''--'' \<and>
     k \<notin> {OFlag, OBool, OHelp} \<and> classify (option_strings ((''help'', OHelp) # opts)) v = Inr (Arg v) \<and> v \<noteq> ''--'' \<and>
     convert float_of k v = Inr x"
| "item_ok float_of opts (Switched s name k b) \<longleftrightarrow>
     map_of (option_strings ((''help'', OHelp) # opts)) s = Some (name, k, b) \<and> take 2 s = ''--'' \<and> s \<noteq> ''--'' \<and> k \<in> {OFlag, OBool}"

fun item_tokens :: "item \<Rightarrow> token list" where
  "item_tokens (Valued s name k v x) = [Opt (name, k, True) None, Arg v]"
| "item_tokens (Switched s name k b) = [Opt (name, k, b) None]"

lemma classify_option:
  "map_of table s = Some a \<Longrightarrow> take 2 s = ''--'' \<Longrightarrow> classify table s = Inr (Opt a None)"
  by (cases s) (auto simp: classify_def)

lemma tokenize_items:
  "\<forall>i \<in> set items. item_ok float_of opts i \<Longrightarrow>
     tokenize (option_strings ((''help'', OHelp) # opts)) (concat (map item_strings items)) = Inr (concat (map item_tokens items))"
proof (induction items)
  case (Cons i items)
  then show ?case by (cases i) (simp_all add: classify_option del: option_strings.simps)
qed simp

lemma consume_items:
  "\<forall>i \<in> set items. item_ok float_of opts i \<Longrightarrow>
     consume float_of False (concat (map item_tokens items)) acc = Inr (acc ++ map_of (rev (map item_binding items)))"
proof (induction items arbitrary: acc)
  case (Cons i items)
  then show ?case
  proof (cases i)
    case (Valued s name k v x)
    then have "consume float_of False (concat (map item_tokens (i # items))) acc =
        consume float_of False (concat (map item_tokens items)) (acc(name \<mapsto> x))"
      using Cons.prems consume_valued [of k float_of v x] by (simp del: consume.simps)
    then show ?thesis using Cons Valued by simp
  next
    case (Switched s name k b)
    then show ?thesis using Cons by (cases k) simp_all
  qed
qed simp

lemma parse_items:
  "\<forall>i \<in> set items. item_ok float_of opts i \<Longrightarrow>
     parse_options float_of opts (concat (map item_strings items)) = Inr (map_of (rev (map item_binding items)))"
  unfolding parse_options_def using tokenize_items consume_items by (simp del: option_strings.simps)

end
