(* ===== verification/Models.thy ===== *)
theory Models
  imports Worker
begin

text \<open>
  The network definitions of \<open>fl/zerotrust_fl/engine/models.py\<close>. A module is the list of its layers in the order in
  which \<open>forward\<close> applies them; what a layer does to the shape of a sample and how many parameters it holds is what
  PyTorch's documentation says of it.
\<close>

section \<open>Layers\<close>

datatype layer =
    Flatten
  | Linear int int
  | ReLU
  | Conv2d int int int int     \<comment> \<open>channels in and out, kernel size, padding\<close>
  | MaxPool2d int

text \<open>A negative size raises when the weights are allocated.\<close>

fun make_layer :: "layer \<Rightarrow> layer res" where
  "make_layer (Linear i o') = (if i < 0 \<or> o' < 0 then Inl (RuntimeError ''negative dimension'') else Inr (Linear i o'))"
| "make_layer (Conv2d i o' k p) = (if i < 0 \<or> o' < 0 then Inl (RuntimeError ''negative dimension'') else Inr (Conv2d i o' k p))"
| "make_layer l = Inr l"

fun layer_shape :: "layer \<Rightarrow> int list \<Rightarrow> int list res" where
  "layer_shape Flatten shape = Inr [prod_list shape]"
| "layer_shape ReLU shape = Inr shape"
| "layer_shape (Linear i o') shape =
     (if shape \<noteq> [] \<and> last shape = i then Inr (butlast shape @ [o']) else Inl (RuntimeError ''shapes cannot be multiplied''))"
| "layer_shape (Conv2d i o' k p) [c, h, w] =
     (if c = i \<and> k \<le> h + 2 * p \<and> k \<le> w + 2 * p then Inr [o', h + 2 * p - k + 1, w + 2 * p - k + 1]
      else Inl (RuntimeError ''unexpected input of a convolution''))"
| "layer_shape (MaxPool2d k) [c, h, w] =
     (if k \<le> h \<and> k \<le> w then Inr [c, h div k, w div k] else Inl (RuntimeError ''output size is too small''))"
| "layer_shape l shape = Inl (RuntimeError ''unexpected number of dimensions'')"

fun forward_shape :: "layer list \<Rightarrow> int list \<Rightarrow> int list res" where
  "forward_shape [] shape = Inr shape"
| "forward_shape (l # ls) shape = res_bind (layer_shape l shape) (forward_shape ls)"

fun layer_parameters :: "layer \<Rightarrow> int" where
  "layer_parameters (Linear i o') = i * o' + o'"
| "layer_parameters (Conv2d i o' k p) = i * o' * k * k + o'"
| "layer_parameters l = 0"

section \<open>The classifiers\<close>

fun feature_count_loop :: "int \<Rightarrow> int list \<Rightarrow> int" where
  "feature_count_loop feature_count [] = feature_count"
| "feature_count_loop feature_count (dimension # rest) = feature_count_loop (feature_count * dimension) rest"

definition MLPClassifier_init :: "int list \<Rightarrow> int \<Rightarrow> int \<Rightarrow> layer list res" where
  "MLPClassifier_init input_shape num_classes hidden_dim =
     res_map make_layer
       [Flatten, Linear (feature_count_loop 1 input_shape) hidden_dim, ReLU, Linear hidden_dim num_classes]"

definition SmallConvClassifier_init :: "int \<Rightarrow> int \<Rightarrow> int \<Rightarrow> layer list res" where
  "SmallConvClassifier_init input_channels num_classes image_size =
     (let spatial = image_size div 4
      in res_bind (res_map make_layer
           [Conv2d input_channels 32 3 1, ReLU, MaxPool2d 2, Conv2d 32 64 3 1, ReLU, MaxPool2d 2]) (\<lambda>features.
         res_bind (res_map make_layer [Flatten, Linear (64 * spatial * spatial) 128, ReLU, Linear 128 num_classes])
           (\<lambda>classifier. Inr (features @ classifier))))"

text \<open>
  The factories take keyword arguments only: a missing one without a default and an unexpected one are type errors.
\<close>

definition only_keywords :: "string list \<Rightarrow> (string \<times> kwarg) list \<Rightarrow> unit res" where
  "only_keywords names kwargs =
     (if set (map fst kwargs) \<subseteq> set names then Inr () else Inl (TypeError ''unexpected keyword argument''))"

definition int_keyword :: "(string \<times> kwarg) list \<Rightarrow> string \<Rightarrow> int option \<Rightarrow> int res" where
  "int_keyword kwargs name fallback =
     (case map_of kwargs name of
        Some (KInt n) \<Rightarrow> Inr n
      | Some _ \<Rightarrow> Inl (TypeError ''integer expected'')
      | None \<Rightarrow> (case fallback of Some n \<Rightarrow> Inr n | None \<Rightarrow> Inl (TypeError ''missing keyword-only argument'')))"

definition ints_keyword :: "(string \<times> kwarg) list \<Rightarrow> string \<Rightarrow> int list res" where
  "ints_keyword kwargs name =
     (case map_of kwargs name of
        Some (KInts ns) \<Rightarrow> Inr ns
      | Some _ \<Rightarrow> Inl (TypeError ''sequence expected'')
      | None \<Rightarrow> Inl (TypeError ''missing keyword-only argument''))"

definition mlp_classifier :: "(string \<times> kwarg) list \<Rightarrow> layer list res" where
  "mlp_classifier kwargs =
     res_bind (only_keywords [''input_shape'', ''num_classes'', ''hidden_dim''] kwargs) (\<lambda>_.
     res_bind (ints_keyword kwargs ''input_shape'') (\<lambda>input_shape.
     res_bind (int_keyword kwargs ''num_classes'' None) (\<lambda>num_classes.
     res_bind (int_keyword kwargs ''hidden_dim'' (Some 128)) (\<lambda>hidden_dim.
       MLPClassifier_init input_shape num_classes hidden_dim))))"

definition small_conv_classifier :: "(string \<times> kwarg) list \<Rightarrow> layer list res" where
  "small_conv_classifier kwargs =
     res_bind (only_keywords [''input_channels'', ''num_classes'', ''image_size''] kwargs) (\<lambda>_.
     res_bind (int_keyword kwargs ''input_channels'' None) (\<lambda>input_channels.
     res_bind (int_keyword kwargs ''num_classes'' None) (\<lambda>num_classes.
     res_bind (int_keyword kwargs ''image_size'' (Some 32)) (\<lambda>image_size.
       SmallConvClassifier_init input_channels num_classes image_size))))"

text \<open>\<open>getattr(importlib.import_module(module), attribute)(**kwargs)\<close> for this module.\<close>

definition models_factory :: "string \<Rightarrow> string \<Rightarrow> (string \<times> kwarg) list \<Rightarrow> layer list factory_result res" where
  "models_factory module_name attribute kwargs =
     (if module_name \<noteq> ''zerotrust_fl.engine.models'' then Inl (ImportError module_name)
      else if attribute = ''mlp_classifier'' then res_bind (mlp_classifier kwargs) (\<lambda>m. Inr (IsModule m))
      else if attribute = ''small_conv_classifier'' then res_bind (small_conv_classifier kwargs) (\<lambda>m. Inr (IsModule m))
      else Inl (AttributeError attribute))"

section \<open>Shapes\<close>

lemma feature_count_prod: "feature_count_loop n shape = n * prod_list shape"
  by (induction shape arbitrary: n) auto

lemma mlp_forward:
  assumes "MLPClassifier_init input_shape num_classes hidden_dim = Inr net"
  shows "forward_shape net input_shape = Inr [num_classes]"
  using assms by (auto simp: MLPClassifier_init_def feature_count_prod res_simps split: if_splits)

lemma small_conv_forward:
  assumes "SmallConvClassifier_init input_channels num_classes image_size = Inr net" "4 \<le> image_size"
  shows "forward_shape net [input_channels, image_size, image_size] = Inr [num_classes]"
proof -
  have "image_size div 2 div 2 = image_size div 4" by (simp add: div_mult2_eq [symmetric])
  moreover have "2 \<le> image_size div 2" using assms(2) by presburger
  ultimately show ?thesis
    using assms by (auto simp: SmallConvClassifier_init_def res_simps Let_def split: if_splits)
qed

end
