(* ===== verification/Simulation.thy ===== *)
theory Simulation
  imports Partitioner Coordinator Argparse Models
begin

text \<open>
  The simulation runner \<open>scripts/run_fl_sim.py\<close>: from a command line to a partitioned dataset, the workers with their
  attacks and privacy settings, the derived counts, a coordinator and a run of it. It composes the partitioner, the
  attacks, the privacy accounting, the network definitions and the coordinator.

  What the runner takes from libraries is the record \<open>sim_lib\<close>: NumPy, \<open>rng.choice\<close> without replacement, the labels
  of the synthetic datasets (\<open>torch.randn\<close> and \<open>argmax\<close>) and torchvision. A dataset is what the runner uses of it, its
  labels. Console output is left out, except for the statistics and the privacy budget it reports. With telemetry the
  runner uses a subclass that only observes; the model is the runner without it.
\<close>

section \<open>The command line\<close>

record sim_args =
  sa_dataset :: string
  sa_data_dir :: string
  sa_clients :: int
  sa_clients_per_round :: "int option"
  sa_rounds :: int
  sa_alpha :: fl
  sa_partition :: string
  sa_malicious_fraction :: fl
  sa_attack :: string
  sa_collusion_scale :: fl
  sa_collusion_seed :: int
  sa_aggregator :: string
  sa_backend :: string
  sa_byzantine_f :: "int option"
  sa_multi_krum_k :: int
  sa_trim_beta :: fl
  sa_local_epochs_min :: int
  sa_local_epochs_max :: int
  sa_batch_size :: int
  sa_learning_rate :: fl
  sa_optimizer :: string
  sa_round_timeout :: fl
  sa_min_results :: "int option"
  sa_max_compute_delay :: fl
  sa_max_network_delay :: fl
  sa_seed :: int
  sa_synthetic_samples :: int
  sa_synthetic_features :: int
  sa_synthetic_classes :: int
  sa_device :: string
  sa_dp :: bool
  sa_dp_clip_norm :: fl
  sa_dp_noise_multiplier :: fl
  sa_dp_delta :: fl
  sa_dp_adjacency :: string
  sa_telemetry :: bool
  sa_metrics_host :: string
  sa_metrics_port :: int
  sa_otel_endpoint :: string
  sa_otel_insecure :: bool

definition sim_options :: "(string \<times> opt_kind) list" where
  "sim_options =
     [(''dataset'', OChoice [''synthetic'', ''fashion-mnist'', ''cifar10'']), (''data-dir'', OStr), (''clients'', OInt),
      (''clients-per-round'', OInt), (''rounds'', OInt), (''alpha'', OFloat),
      (''partition'', OChoice [''iid'', ''dirichlet'']), (''malicious-fraction'', OFloat),
      (''attack'', OChoice [''none'', ''label_flip'', ''gaussian'', ''sign_flip'', ''adaptive'', ''collusion'']),
      (''collusion-scale'', OFloat), (''collusion-seed'', OInt),
      (''aggregator'', OChoice [''mean'', ''krum'', ''multi_krum'', ''trimmed_mean'', ''median'']),
      (''backend'', OChoice [''auto'', ''native'', ''torch'']), (''byzantine-f'', OInt), (''multi-krum-k'', OInt),
      (''trim-beta'', OFloat), (''local-epochs-min'', OInt), (''local-epochs-max'', OInt), (''batch-size'', OInt),
      (''learning-rate'', OFloat), (''optimizer'', OChoice [''sgd'', ''adam'']), (''round-timeout'', OFloat),
      (''min-results'', OInt), (''max-compute-delay'', OFloat), (''max-network-delay'', OFloat), (''seed'', OInt),
      (''synthetic-samples'', OInt), (''synthetic-features'', OInt), (''synthetic-classes'', OInt), (''device'', OStr),
      (''dp'', OFlag), (''dp-clip-norm'', OFloat), (''dp-noise-multiplier'', OFloat), (''dp-delta'', OFloat),
      (''dp-adjacency'', OChoice [''replace'', ''add_remove'']), (''telemetry'', OBool), (''metrics-host'', OStr),
      (''metrics-port'', OInt), (''otel-endpoint'', OStr), (''otel-insecure'', OBool)]"

text \<open>A decimal literal of the source is the nearest binary64 number.\<close>

abbreviation decimal :: "real \<Rightarrow> fl" where
  "decimal \<equiv> rnd binary64"

definition sim_namespace :: "(string \<Rightarrow> string option) \<Rightarrow> int \<Rightarrow> (string \<rightharpoonup> arg_value) \<Rightarrow> sim_args" where
  "sim_namespace env metrics_port m =
     \<lparr>sa_dataset = arg_str m ''dataset'' ''synthetic'', sa_data_dir = arg_str m ''data-dir'' ''data'',
      sa_clients = arg_int m ''clients'' 10, sa_clients_per_round = arg_int_opt m ''clients-per-round'',
      sa_rounds = arg_int m ''rounds'' 5, sa_alpha = arg_float m ''alpha'' (decimal (3 / 10)),
      sa_partition = arg_str m ''partition'' ''dirichlet'',
      sa_malicious_fraction = arg_float m ''malicious-fraction'' (decimal (2 / 10)),
      sa_attack = arg_str m ''attack'' ''sign_flip'', sa_collusion_scale = arg_float m ''collusion-scale'' (Fin 8),
      sa_collusion_seed = arg_int m ''collusion-seed'' 20271, sa_aggregator = arg_str m ''aggregator'' ''multi_krum'',
      sa_backend = arg_str m ''backend'' ''auto'', sa_byzantine_f = arg_int_opt m ''byzantine-f'',
      sa_multi_krum_k = arg_int m ''multi-krum-k'' 3, sa_trim_beta = arg_float m ''trim-beta'' (decimal (2 / 10)),
      sa_local_epochs_min = arg_int m ''local-epochs-min'' 1, sa_local_epochs_max = arg_int m ''local-epochs-max'' 2,
      sa_batch_size = arg_int m ''batch-size'' 64, sa_learning_rate = arg_float m ''learning-rate'' (decimal (3 / 100)),
      sa_optimizer = arg_str m ''optimizer'' ''sgd'', sa_round_timeout = arg_float m ''round-timeout'' (Fin 120),
      sa_min_results = arg_int_opt m ''min-results'',
      sa_max_compute_delay = arg_float m ''max-compute-delay'' (decimal (15 / 100)),
      sa_max_network_delay = arg_float m ''max-network-delay'' (decimal (5 / 100)), sa_seed = arg_int m ''seed'' 42,
      sa_synthetic_samples = arg_int m ''synthetic-samples'' 4000,
      sa_synthetic_features = arg_int m ''synthetic-features'' 20,
      sa_synthetic_classes = arg_int m ''synthetic-classes'' 4, sa_device = arg_str m ''device'' ''cpu'',
      sa_dp = arg_bool m ''dp'' False, sa_dp_clip_norm = arg_float m ''dp-clip-norm'' (Fin 1),
      sa_dp_noise_multiplier = arg_float m ''dp-noise-multiplier'' (Fin 1),
      sa_dp_delta = arg_float m ''dp-delta'' (decimal (1 / 100000)),
      sa_dp_adjacency = arg_str m ''dp-adjacency'' ''replace'',
      sa_telemetry = arg_bool m ''telemetry'' (env_flag (env ''ZTFL_TELEMETRY_ENABLED'') False),
      sa_metrics_host = arg_str m ''metrics-host'' (getenv env ''ZTFL_METRICS_HOST'' ''0.0.0.0''),
      sa_metrics_port = arg_int m ''metrics-port'' metrics_port,
      sa_otel_endpoint = arg_str m ''otel-endpoint'' (getenv env ''ZTFL_OTEL_ENDPOINT'' []),
      sa_otel_insecure = arg_bool m ''otel-insecure'' (env_flag (env ''ZTFL_OTEL_INSECURE'') True)\<rparr>"

definition sim_parse_args :: "(string \<Rightarrow> string option) \<Rightarrow> (string \<Rightarrow> fl res) \<Rightarrow> string list \<Rightarrow> sim_args res" where
  "sim_parse_args env float_of argv =
     res_bind (py_int (getenv env ''ZTFL_METRICS_PORT'' ''9466'')) (\<lambda>metrics_port.
     res_bind (parse_options float_of sim_options argv) (\<lambda>m. Inr (sim_namespace env metrics_port m)))"

section \<open>Datasets\<close>

datatype sim_dataset = TorchvisionSet "int list" | TensorSet "int list"

text \<open>Torchvision datasets have \<open>targets\<close>; a \<open>TensorDataset\<close> yields pairs whose label is a scalar tensor.\<close>

fun as_dataset :: "sim_dataset \<Rightarrow> dataset" where
  "as_dataset (TorchvisionSet targets) = HasTargets (IntArr [length targets] targets)"
| "as_dataset (TensorSet labels) = Items (map (\<lambda>l. Sample (TensorLabel [PyInt l])) labels)"

fun dataset_targets :: "sim_dataset \<Rightarrow> int list" where
  "dataset_targets (TorchvisionSet targets) = targets"
| "dataset_targets (TensorSet labels) = labels"

record 'g sim_lib =
  sx_numpy :: "'g numpy"
  sx_choice :: "int \<Rightarrow> int \<Rightarrow> int \<Rightarrow> int list"              \<comment> \<open>seed, population, size\<close>
  sx_synthetic :: "int \<Rightarrow> int \<Rightarrow> int \<Rightarrow> int \<Rightarrow> int \<Rightarrow> (int list \<times> int list) res"
    \<comment> \<open>seed, features, classes and the two sample counts, drawn from one generator\<close>
  sx_torchvision :: "(string \<Rightarrow> string \<Rightarrow> (int list \<times> int list) res) option"
    \<comment> \<open>directory and dataset; \<open>None\<close> after an \<open>ImportError\<close>\<close>

definition synthetic_dataset :: "'g sim_lib \<Rightarrow> int \<Rightarrow> int \<Rightarrow> int \<Rightarrow> int \<Rightarrow> (sim_dataset \<times> sim_dataset) res" where
  "synthetic_dataset L samples features classes seed =
     (if samples < classes * 10 then Inl (ValueError ''synthetic sample count is too small'')
      else res_bind (sx_synthetic L seed features classes samples (max (classes * 20) (samples div 4)))
             (\<lambda>(train, test). Inr (TensorSet train, TensorSet test)))"

definition load_dataset_and_model :: "'g sim_lib \<Rightarrow> sim_args \<Rightarrow> (sim_dataset \<times> sim_dataset \<times> ModelSpec) res" where
  "load_dataset_and_model L a =
     (if sa_dataset a = ''synthetic'' then
        res_bind (synthetic_dataset L (sa_synthetic_samples a) (sa_synthetic_features a) (sa_synthetic_classes a) (sa_seed a))
          (\<lambda>(train, test).
            Inr (train, test,
                 \<lparr>factory_path = ''zerotrust_fl.engine.models:mlp_classifier'',
                  spec_kwargs = [(''input_shape'', KInts [sa_synthetic_features a]),
                    (''num_classes'', KInt (sa_synthetic_classes a)), (''hidden_dim'', KInt 64)]\<rparr>))
      else case sx_torchvision L of
        None \<Rightarrow> Inl (SystemExit ''torchvision is required for Fashion-MNIST/CIFAR-10; install requirements.txt first'')
      | Some datasets \<Rightarrow>
          if sa_dataset a = ''fashion-mnist'' then
            res_bind (datasets (sa_data_dir a) ''FashionMNIST'') (\<lambda>(train, test).
              Inr (TorchvisionSet train, TorchvisionSet test,
                   \<lparr>factory_path = ''zerotrust_fl.engine.models:mlp_classifier'',
                    spec_kwargs = [(''input_shape'', KInts [1, 28, 28]), (''num_classes'', KInt 10),
                      (''hidden_dim'', KInt 128)]\<rparr>))
          else
            res_bind (datasets (sa_data_dir a) ''CIFAR10'') (\<lambda>(train, test).
              Inr (TorchvisionSet train, TorchvisionSet test,
                   \<lparr>factory_path = ''zerotrust_fl.engine.models:small_conv_classifier'',
                    spec_kwargs = [(''input_channels'', KInt 3), (''num_classes'', KInt 10),
                      (''image_size'', KInt 32)]\<rparr>)))"

section \<open>Workers\<close>

definition make_attack_config :: "sim_args \<Rightarrow> nat \<Rightarrow> AttackConfig" where
  "make_attack_config a cid =
     (let common = default_AttackConfig\<lparr>attack_seed := sa_seed a + int cid * 7919\<rparr>
      in if sa_attack a = ''label_flip'' then
           common\<lparr>kind := ''label_flip'', source_class := Some 0, target_class := Some 1, probability := Fin 1\<rparr>
         else if sa_attack a = ''gaussian'' then
           common\<lparr>kind := ''gaussian'', noise_mean := Fin 0, attack_noise_std := Fin 3\<rparr>
         else if sa_attack a = ''sign_flip'' then common\<lparr>kind := ''sign_flip'', sign_scale := Fin 5\<rparr>
         else if sa_attack a = ''adaptive'' then
           common\<lparr>kind := ''adaptive'', adaptive_scale := Fin 8, adaptive_max_norm_ratio := Fin 1\<rparr>
         else if sa_attack a = ''collusion'' then
           common\<lparr>kind := ''collusion'', collusion_scale := sa_collusion_scale a, collusion_seed := sa_collusion_seed a\<rparr>
         else common\<lparr>kind := ''none''\<rparr>)"

definition sim_local_dp :: "sim_args \<Rightarrow> LocalDPConfig" where
  "sim_local_dp a =
     \<lparr>dp_enabled = sa_dp a, clip_norm = sa_dp_clip_norm a, noise_multiplier = sa_dp_noise_multiplier a,
      dp_delta = sa_dp_delta a, adjacency = sa_dp_adjacency a, orders = default_orders\<rparr>"

definition sim_worker_config :: "sim_args \<Rightarrow> int list \<Rightarrow> nat \<Rightarrow> WorkerConfig" where
  "sim_worker_config a malicious_ids cid =
     (let malicious = int cid \<in> set malicious_ids
      in \<lparr>node_id = ''edge-worker-'' @ py_pad2 cid, batch_size = sa_batch_size a,
          local_epochs_min = sa_local_epochs_min a, local_epochs_max = sa_local_epochs_max a,
          learning_rate = sa_learning_rate a, learning_rate_jitter = decimal (1 / 10), optimizer = sa_optimizer a,
          optimizer_kwargs = (if sa_optimizer a = ''sgd'' then [(''momentum'', decimal (9 / 10))] else []),
          w_device = sa_device a, compute_delay_seconds = [Fin 0, sa_max_compute_delay a],
          network_delay_seconds = [Fin 0, sa_max_network_delay a], max_grad_norm = None, torch_num_threads = 1,
          w_seed = sa_seed a + int cid * 1009, w_malicious = malicious,
          attack = (if malicious then make_attack_config a cid else default_AttackConfig),
          local_dp = sim_local_dp a\<rparr>)"

text \<open>Both configurations are validated when they are built, the attack first.\<close>

definition make_worker :: "sim_args \<Rightarrow> int list \<Rightarrow> nat list list \<Rightarrow> nat \<Rightarrow> WorkerSpec res" where
  "make_worker a malicious_ids partitions cid =
     (let c = sim_worker_config a malicious_ids cid
      in res_bind (AttackConfig_post_init (attack c)) (\<lambda>_.
         res_bind (WorkerConfig_post_init c) (\<lambda>_.
           Inr \<lparr>spec_config = c, sample_indices = partitions ! cid\<rparr>)))"

section \<open>Counts\<close>

definition malicious_count_of :: "sim_args \<Rightarrow> int res" where
  "malicious_count_of a = res_bind (py_int_float (sa_clients a)) (\<lambda>c. py_floor (py_mul c (sa_malicious_fraction a)))"

text \<open>\<open>x or y\<close> for an optional integer.\<close>

definition or_int :: "int option \<Rightarrow> int \<Rightarrow> int" where
  "or_int x y = (case x of None \<Rightarrow> y | Some n \<Rightarrow> if n = 0 then y else n)"

definition derived_clients_per_round :: "sim_args \<Rightarrow> int" where
  "derived_clients_per_round a = or_int (sa_clients_per_round a) (sa_clients a)"

definition derived_min_results :: "sim_args \<Rightarrow> int" where
  "derived_min_results a = or_int (sa_min_results a) (derived_clients_per_round a)"

definition derived_f :: "sim_args \<Rightarrow> int \<Rightarrow> int" where
  "derived_f a malicious_count =
     (case sa_byzantine_f a of
        Some f \<Rightarrow> f
      | None \<Rightarrow> min malicious_count (max 0 ((derived_min_results a - 3) div 2)))"

definition derived_k :: "sim_args \<Rightarrow> int \<Rightarrow> int" where
  "derived_k a malicious_count =
     min (sa_multi_krum_k a) (max 1 (derived_min_results a - derived_f a malicious_count - 2))"

definition sim_simulation :: "sim_args \<Rightarrow> SimulationConfig" where
  "sim_simulation a = default_SimulationConfig
     \<lparr>rounds := sa_rounds a, clients_per_round_opt := Some (derived_clients_per_round a),
      min_results_opt := Some (derived_min_results a), round_timeout_seconds := sa_round_timeout a,
      start_method := ''spawn'', sim_seed := sa_seed a, evaluation_device := sa_device a\<rparr>"

definition sim_aggregation :: "sim_args \<Rightarrow> int \<Rightarrow> AggregationConfig" where
  "sim_aggregation a malicious_count =
     \<lparr>agg_method = sa_aggregator a, agg_backend = sa_backend a, agg_f = derived_f a malicious_count,
      agg_k = derived_k a malicious_count, agg_beta = sa_trim_beta a\<rparr>"

section \<open>The program\<close>

text \<open>\<open>torch.manual_seed\<close> and \<open>np.random.seed\<close>.\<close>

definition seed_libraries :: "int \<Rightarrow> unit res" where
  "seed_libraries seed =
     (if seed < - (2 ^ 63) \<or> 2 ^ 64 \<le> seed then Inl (RuntimeError ''Overflow when unpacking long'')
      else if seed < 0 \<or> 2 ^ 32 \<le> seed then Inl (ValueError ''Seed must be between 0 and 2**32 - 1'')
      else Inr ())"

record sim_setup =
  ss_plan :: plan
  ss_model :: ModelSpec
  ss_malicious_ids :: "int list"
  ss_stats :: "PartitionStats list"
  ss_budget :: "(fl \<times> fl) option"

text \<open>The dataset, the network and the parts of the clients.\<close>

definition prepare_data :: "'g sim_lib \<Rightarrow> sim_args \<Rightarrow> (sim_dataset \<times> ModelSpec \<times> nat list list) res" where
  "prepare_data L a =
     res_bind (load_dataset_and_model L a) (\<lambda>(train_dataset, test_dataset, model_spec).
     res_bind (partition_dataset (sx_numpy L) (DatasetSrc (as_dataset train_dataset)) (sa_clients a) (sa_partition a)
         (sa_alpha a) (sa_seed a) (max 1 (min 8 (int (length (dataset_targets train_dataset)) div sa_clients a)))) (\<lambda>partitions.
       Inr (train_dataset, model_spec, partitions)))"

text \<open>The malicious clients, the workers and the two configurations.\<close>

definition prepare_plan :: "'g sim_lib \<Rightarrow> sim_args \<Rightarrow> nat list list \<Rightarrow> (plan \<times> int list) res" where
  "prepare_plan L a partitions =
     res_bind (malicious_count_of a) (\<lambda>malicious_count.
     let malicious_ids = (if malicious_count \<noteq> 0 then sx_choice L (sa_seed a) (sa_clients a) malicious_count else [])
     in res_bind (res_map (make_worker a malicious_ids partitions) [0..<nat (sa_clients a)]) (\<lambda>workers.
        res_bind (SimulationConfig_post_init (sim_simulation a)) (\<lambda>_.
        res_bind (AggregationConfig_post_init (sim_aggregation a malicious_count)) (\<lambda>_.
          Inr (\<lparr>simulation = sim_simulation a, aggregation = sim_aggregation a malicious_count, worker_specs = workers\<rparr>,
               malicious_ids)))))"

text \<open>What is printed before the run: the statistics of the parts and the privacy budget of all rounds.\<close>

definition prepare_report ::
  "(fl \<Rightarrow> fl) \<Rightarrow> sim_args \<Rightarrow> sim_dataset \<Rightarrow> nat list list \<Rightarrow> (PartitionStats list \<times> (fl \<times> fl) option) res"
where
  "prepare_report mlog a train_dataset partitions =
     (let targets = dataset_targets train_dataset
      in res_bind (partition_stats (ArraySrc (IntArr [length targets] targets)) (map (map int) partitions)) (\<lambda>stats.
         res_bind (if dp_enabled (sim_local_dp a)
                   then res_bind (RDPAccountant_init (sim_local_dp a) (sa_rounds a)) (\<lambda>accountant.
                        res_bind (epsilon mlog accountant None) (\<lambda>eps. Inr (Some eps)))
                   else Inr None) (\<lambda>budget. Inr (stats, budget))))"

definition build_simulation :: "'g sim_lib \<Rightarrow> (fl \<Rightarrow> fl) \<Rightarrow> sim_args \<Rightarrow> sim_setup res" where
  "build_simulation L mlog a =
     (if sa_clients a \<le> 0 then Inl (SystemExit ''--clients must be positive'')
      else if \<not> (fl_le (Fin 0) (sa_malicious_fraction a) \<and> fl_less (sa_malicious_fraction a) (Fin 1))
        then Inl (SystemExit ''--malicious-fraction must be in [0, 1)'')
      else res_bind (LocalDPConfig_post_init (sim_local_dp a)) (\<lambda>_.
        res_bind (seed_libraries (sa_seed a)) (\<lambda>_.
        res_bind (prepare_data L a) (\<lambda>(train_dataset, model_spec, partitions).
        res_bind (prepare_plan L a partitions) (\<lambda>(P, malicious_ids).
        res_bind (prepare_report mlog a train_dataset partitions) (\<lambda>(stats, budget).
          Inr \<lparr>ss_plan = P, ss_model = model_spec, ss_malicious_ids = malicious_ids, ss_stats = stats,
               ss_budget = budget\<rparr>))))))"

text \<open>\<open>None\<close> for the coordinator: none was built. The summary is what is printed at the end.\<close>

definition sim_main ::
  "('m, 'x) world \<Rightarrow> 'g sim_lib \<Rightarrow> (fl \<Rightarrow> fl) \<Rightarrow> (string \<Rightarrow> string \<Rightarrow> (string \<times> kwarg) list \<Rightarrow> 'm factory_result res) \<Rightarrow>
     (int \<Rightarrow> round_env) \<Rightarrow> close_env \<Rightarrow> (string \<Rightarrow> string option) \<Rightarrow> (string \<Rightarrow> fl res) \<Rightarrow> string list \<Rightarrow>
     'm coordinator option \<times> SimulationSummary res"
where
  "sim_main W L mlog call_factory envs CE env float_of argv =
     (case res_bind (sim_parse_args env float_of argv) (build_simulation L mlog) of
        Inl e \<Rightarrow> (None, Inl e)
      | Inr b \<Rightarrow>
          (case coordinator_init W call_factory (ss_model b) (ss_plan b) of
             Inl e \<Rightarrow> (None, Inl e)
           | Inr s \<Rightarrow> (let (s, summary) = run W (ss_plan b) envs CE s in (Some s, summary))))"


section \<open>The plan\<close>

definition sim_choice_ok :: "'g sim_lib \<Rightarrow> bool" where
  "sim_choice_ok L \<longleftrightarrow>
     (\<forall>seed n k. 0 \<le> k \<longrightarrow> k \<le> n \<longrightarrow>
        length (sx_choice L seed n k) = nat k \<and> distinct (sx_choice L seed n k) \<and> set (sx_choice L seed n k) \<subseteq> {0..<n})"

lemma build_simulation_Inr:
  assumes "build_simulation L mlog a = Inr b"
  obtains train partitions where
    "0 < sa_clients a" "fl_le (Fin 0) (sa_malicious_fraction a)" "fl_less (sa_malicious_fraction a) (Fin 1)"
    "prepare_data L a = Inr (train, ss_model b, partitions)"
    "prepare_plan L a partitions = Inr (ss_plan b, ss_malicious_ids b)"
    "prepare_report mlog a train partitions = Inr (ss_stats b, ss_budget b)"
  using assms unfolding build_simulation_def
  by (auto simp: res_simps not_le split: if_split_asm prod.splits)

lemma prepare_data_Inr:
  assumes "prepare_data L a = Inr (train, spec, partitions)"
  obtains test where "load_dataset_and_model L a = Inr (train, test, spec)"
    "partition_dataset (sx_numpy L) (DatasetSrc (as_dataset train)) (sa_clients a) (sa_partition a)
       (sa_alpha a) (sa_seed a) (max 1 (min 8 (int (length (dataset_targets train)) div sa_clients a))) = Inr partitions"
  using assms unfolding prepare_data_def by (auto simp: res_simps split: prod.splits)

lemma prepare_plan_Inr:
  assumes "prepare_plan L a partitions = Inr (P, ids)"
  obtains n workers where
    "malicious_count_of a = Inr n" "ids = (if n \<noteq> 0 then sx_choice L (sa_seed a) (sa_clients a) n else [])"
    "res_map (make_worker a ids partitions) [0..<nat (sa_clients a)] = Inr workers"
    "SimulationConfig_post_init (sim_simulation a) = Inr ()" "AggregationConfig_post_init (sim_aggregation a n) = Inr ()"
    "P = \<lparr>simulation = sim_simulation a, aggregation = sim_aggregation a n, worker_specs = workers\<rparr>"
  using assms unfolding prepare_plan_def Let_def by (auto simp: res_simps split del: if_split)

lemma malicious_count_bounds:
  assumes "0 < sa_clients a" "sa_clients a < 2 ^ 53" "fl_le (Fin 0) (sa_malicious_fraction a)"
    "fl_less (sa_malicious_fraction a) (Fin 1)"
  shows "\<exists>n. malicious_count_of a = Inr n \<and> 0 \<le> n \<and> n \<le> sa_clients a"
proof -
  let ?n = "sa_clients a"
  have t: "py_int_float ?n = Inr (Fin (of_int ?n))" using assms(1,2) by (simp add: py_int_float_def py_float_small)
  obtain q where q: "sa_malicious_fraction a = Fin q" "0 \<le> q" "q < 1"
    using assms(3,4) by (cases "sa_malicious_fraction a") auto
  have rep: "representable binary64 0" "representable binary64 (of_int ?n)"
    using assms(1,2) representable_int [of ?n binary64] by (simp_all add: representable_zero, simp add: binary64_def)
  have "0 \<le> of_int ?n * q" "of_int ?n * q \<le> of_int ?n" using q assms(1) by (auto intro: mult_left_le)
  then obtain y where y: "rnd binary64 (of_int ?n * q) = Fin y" "0 \<le> y" "y \<le> of_int ?n"
    using rnd_between [OF fmt_ok_binary(1) rep] by blast
  then have "\<lfloor>y\<rfloor> \<le> ?n" by (simp add: floor_le_iff)
  then show ?thesis using t q(1) y by (simp add: malicious_count_of_def)
qed

lemma as_dataset_count: "target_count (DatasetSrc (as_dataset d)) = length (dataset_targets d)"
proof (cases d)
  case (TensorSet labels)
  have "res_map item_label (map (\<lambda>l. Sample (TensorLabel [PyInt l])) labels) = Inr labels"
    by (induction labels) simp_all
  then show ?thesis using TensorSet by (simp add: target_count_def)
qed (simp add: target_count_def)

lemma make_worker_Inr:
  assumes "make_worker a ids partitions i = Inr w"
  shows "w = \<lparr>spec_config = sim_worker_config a ids i, sample_indices = partitions ! i\<rparr>"
    "wf_AttackConfig (attack (spec_config w))" "wf_WorkerConfig (spec_config w)"
  using assms attack_config.validate_iff worker_config.validate_iff by (auto simp: make_worker_def Let_def res_simps)

lemma sim_workers:
  assumes "res_map (make_worker a ids partitions) [0..<n] = Inr workers"
  shows "workers = map (\<lambda>i. \<lparr>spec_config = sim_worker_config a ids i, sample_indices = partitions ! i\<rparr>) [0..<n]"
    "w \<in> set workers \<Longrightarrow> wf_WorkerConfig (spec_config w) \<and> wf_AttackConfig (attack (spec_config w))"
proof -
  have len: "length workers = n" using res_map_Inr_length [OF assms] by simp
  have nth: "make_worker a ids partitions i = Inr (workers ! i)" if "i < n" for i
    using res_map_Inr_nth [OF assms, of i] that by simp
  show "workers = map (\<lambda>i. \<lparr>spec_config = sim_worker_config a ids i, sample_indices = partitions ! i\<rparr>) [0..<n]"
    using len make_worker_Inr(1) [OF nth] by (auto intro: nth_equalityI)
  assume "w \<in> set workers"
  then obtain i where "i < n" "w = workers ! i" using len by (auto simp: in_set_conv_nth)
  then show "wf_WorkerConfig (spec_config w) \<and> wf_AttackConfig (attack (spec_config w))"
    using make_worker_Inr(2,3) [OF nth] by simp
qed

lemma sim_node_id: "node_id (sim_worker_config a ids i) = ''edge-worker-'' @ py_pad2 i"
  by (simp add: sim_worker_config_def Let_def)

lemma sim_malicious: "w_malicious (sim_worker_config a ids i) \<longleftrightarrow> int i \<in> set ids"
  by (simp add: sim_worker_config_def Let_def)

lemma count_members:
  assumes "distinct ids" "set ids \<subseteq> {0..<int n}"
  shows "length (filter (\<lambda>i. int i \<in> set ids) [0..<n]) = length ids"
proof -
  have "length (filter (\<lambda>i. int i \<in> set ids) [0..<n]) = card {i. i < n \<and> int i \<in> set ids}"
    by (simp add: length_filter_conv_card cong: conj_cong)
  also have "{i. i < n \<and> int i \<in> set ids} = nat ` set ids"
    using assms(2) by (force simp: image_iff)
  finally have e: "length (filter (\<lambda>i. int i \<in> set ids) [0..<n]) = card (nat ` set ids)" .
  have inj: "inj_on nat (set ids)"
    by (rule inj_on_inverseI [of _ int]) (use assms(2) in auto)
  have "card (nat ` set ids) = length ids" using assms(1) inj by (simp add: card_image distinct_card)
  then show ?thesis using e by simp
qed

text \<open>The facts about the plan that the properties of the simulation rest on.\<close>

lemma simulation_plan:
  assumes L: "sim_choice_ok L" and n: "sa_clients a < 2 ^ 53" and b: "build_simulation L mlog a = Inr b"
  obtains train test partitions k where
    "load_dataset_and_model L a = Inr (train, test, ss_model b)"
    "partition_dataset (sx_numpy L) (DatasetSrc (as_dataset train)) (sa_clients a) (sa_partition a)
       (sa_alpha a) (sa_seed a) (max 1 (min 8 (int (length (dataset_targets train)) div sa_clients a))) = Inr partitions"
    "malicious_count_of a = Inr (int k)" "length (ss_malicious_ids b) = k" "distinct (ss_malicious_ids b)"
    "set (ss_malicious_ids b) \<subseteq> {0..<sa_clients a}" "0 < sa_clients a"
    "worker_specs (ss_plan b) =
       map (\<lambda>i. \<lparr>spec_config = sim_worker_config a (ss_malicious_ids b) i, sample_indices = partitions ! i\<rparr>) [0..<nat (sa_clients a)]"
    "\<forall>w \<in> set (worker_specs (ss_plan b)). wf_WorkerConfig (spec_config w) \<and> wf_AttackConfig (attack (spec_config w))"
    "simulation (ss_plan b) = sim_simulation a" "aggregation (ss_plan b) = sim_aggregation a (int k)"
    "wf_SimulationConfig (sim_simulation a)" "wf_AggregationConfig (sim_aggregation a (int k))"
proof -
  obtain train partitions where r: "0 < sa_clients a" "fl_le (Fin 0) (sa_malicious_fraction a)"
      "fl_less (sa_malicious_fraction a) (Fin 1)" "prepare_data L a = Inr (train, ss_model b, partitions)"
      "prepare_plan L a partitions = Inr (ss_plan b, ss_malicious_ids b)"
    by (rule build_simulation_Inr [OF b]) blast
  obtain test where d: "load_dataset_and_model L a = Inr (train, test, ss_model b)"
    "partition_dataset (sx_numpy L) (DatasetSrc (as_dataset train)) (sa_clients a) (sa_partition a)
       (sa_alpha a) (sa_seed a) (max 1 (min 8 (int (length (dataset_targets train)) div sa_clients a))) = Inr partitions"
    by (rule prepare_data_Inr [OF r(4)])
  obtain m workers where p: "malicious_count_of a = Inr m"
    "ss_malicious_ids b = (if m \<noteq> 0 then sx_choice L (sa_seed a) (sa_clients a) m else [])"
    "res_map (make_worker a (ss_malicious_ids b) partitions) [0..<nat (sa_clients a)] = Inr workers"
    "SimulationConfig_post_init (sim_simulation a) = Inr ()" "AggregationConfig_post_init (sim_aggregation a m) = Inr ()"
    "ss_plan b = \<lparr>simulation = sim_simulation a, aggregation = sim_aggregation a m, worker_specs = workers\<rparr>"
    by (rule prepare_plan_Inr [OF r(5)])
  have m: "0 \<le> m" "m \<le> sa_clients a" using malicious_count_bounds [OF r(1) n r(2,3)] p(1) by auto
  have ids: "length (ss_malicious_ids b) = nat m" "distinct (ss_malicious_ids b)" "set (ss_malicious_ids b) \<subseteq> {0..<sa_clients a}"
    using L m r(1) unfolding p(2) sim_choice_ok_def by (auto split: if_splits)
  show ?thesis
    using m p(1,6) sim_workers [OF p(3)] p(4,5) simulation_config.validate_iff aggregation_config.validate_iff
    by (intro that [OF d _ _ ids(2,3) r(1), of "nat m"]) (auto simp: ids)
qed

lemma count_malicious:
  assumes "specs = map (\<lambda>i. \<lparr>spec_config = sim_worker_config a ids i, sample_indices = partitions ! i\<rparr>) [0..<nat n]"
    "distinct ids" "set ids \<subseteq> {0..<n}" "0 < n"
  shows "length (filter (\<lambda>w. w_malicious (spec_config w)) specs) = length ids"
  using count_members [of ids "nat n"] assms by (simp add: filter_map o_def sim_malicious)

text \<open>
  C12: The plan the runner builds. One worker per client, with distinct node identifiers and a valid configuration;
  the samples of the training set are dealt out, each to exactly one worker; exactly the computed number of workers
  is malicious, all of them with the requested attack, and no other worker has an attack configured; every worker has
  the requested privacy settings; the configurations of coordinator and aggregation are valid.
\<close>

theorem simulation_plan_sound:
  assumes "numpy_ok (sx_numpy L)" "sim_choice_ok L" "sa_clients a < 2 ^ 53" "build_simulation L mlog a = Inr b"
    "sa_attack a \<in> attack_kinds"
  shows "length (worker_specs (ss_plan b)) = nat (sa_clients a) \<and> distinct (node_ids (ss_plan b)) \<and>
    (\<exists>train test. load_dataset_and_model L a = Inr (train, test, ss_model b) \<and>
       mset (concat (map sample_indices (worker_specs (ss_plan b)))) = mset [0..<length (dataset_targets train)]) \<and>
    malicious_count_of a = Inr (int (length (filter (\<lambda>w. w_malicious (spec_config w)) (worker_specs (ss_plan b))))) \<and>
    (\<forall>w \<in> set (worker_specs (ss_plan b)).
       wf_WorkerConfig (spec_config w) \<and> wf_AttackConfig (attack (spec_config w)) \<and> local_dp (spec_config w) = sim_local_dp a \<and>
       kind (attack (spec_config w)) = (if w_malicious (spec_config w) then sa_attack a else ''none'')) \<and>
    wf_SimulationConfig (simulation (ss_plan b)) \<and> wf_AggregationConfig (aggregation (ss_plan b))"
proof -
  obtain train test partitions k where p:
    "load_dataset_and_model L a = Inr (train, test, ss_model b)"
    "partition_dataset (sx_numpy L) (DatasetSrc (as_dataset train)) (sa_clients a) (sa_partition a)
       (sa_alpha a) (sa_seed a) (max 1 (min 8 (int (length (dataset_targets train)) div sa_clients a))) = Inr partitions"
    "malicious_count_of a = Inr (int k)" "length (ss_malicious_ids b) = k" "distinct (ss_malicious_ids b)"
    "set (ss_malicious_ids b) \<subseteq> {0..<sa_clients a}" "0 < sa_clients a"
    "worker_specs (ss_plan b) =
       map (\<lambda>i. \<lparr>spec_config = sim_worker_config a (ss_malicious_ids b) i, sample_indices = partitions ! i\<rparr>) [0..<nat (sa_clients a)]"
    "\<forall>w \<in> set (worker_specs (ss_plan b)). wf_WorkerConfig (spec_config w) \<and> wf_AttackConfig (attack (spec_config w))"
    "simulation (ss_plan b) = sim_simulation a" "aggregation (ss_plan b) = sim_aggregation a (int k)"
    "wf_SimulationConfig (sim_simulation a)" "wf_AggregationConfig (sim_aggregation a (int k))"
    by (rule simulation_plan [OF assms(2-4)])
  let ?specs = "worker_specs (ss_plan b)"
  note parts = partition_dataset_Inr [OF assms(1) p(2), unfolded as_dataset_count]
  have "map sample_indices ?specs = partitions"
    using parts(2) by (simp add: p(8) o_def) (metis map_nth)
  then have "mset (concat (map sample_indices ?specs)) = mset [0..<length (dataset_targets train)]" using parts(1) by simp
  moreover have "distinct (node_ids (ss_plan b))"
    by (simp add: node_ids_def p(8) o_def sim_node_id distinct_map inj_on_def)
  moreover have "local_dp (spec_config w) = sim_local_dp a \<and>
      kind (attack (spec_config w)) = (if w_malicious (spec_config w) then sa_attack a else ''none'')" if "w \<in> set ?specs" for w
    using that assms(5)
    by (auto simp: p(8) sim_worker_config_def Let_def make_attack_config_def default_AttackConfig_def attack_kinds_def)
  ultimately show ?thesis
    using p count_malicious [OF p(8,5,6,7)] by (auto simp del: mset_upt)
qed


section \<open>The derived counts\<close>

lemma derived_f_covers:
  assumes "sa_byzantine_f a = None" "3 \<le> derived_min_results a" "0 \<le> n"
  shows "0 \<le> derived_f a n" "2 * derived_f a n + 3 \<le> derived_min_results a"
    "n \<le> (derived_min_results a - 3) div 2 \<Longrightarrow> derived_f a n = n"
    "derived_k a n \<le> derived_min_results a - derived_f a n - 2"
proof -
  have f: "derived_f a n = min n ((derived_min_results a - 3) div 2)"
    using assms(1,2) by (simp add: derived_f_def max_def)
  show "0 \<le> derived_f a n" using assms(2,3) unfolding f by (simp add: pos_imp_zdiv_nonneg_iff)
  show g: "2 * derived_f a n + 3 \<le> derived_min_results a" unfolding f by linarith
  show "derived_k a n \<le> derived_min_results a - derived_f a n - 2"
    using g assms(2) by (simp add: derived_k_def)
qed (use assms in \<open>simp add: derived_f_def\<close>)


section \<open>The network and the data\<close>

text \<open>The shape of a sample and the number of classes of each dataset.\<close>

definition sample_shape :: "sim_args \<Rightarrow> int list" where
  "sample_shape a =
     (if sa_dataset a = ''synthetic'' then [sa_synthetic_features a]
      else if sa_dataset a = ''fashion-mnist'' then [1, 28, 28] else [3, 32, 32])"

definition class_count :: "sim_args \<Rightarrow> int" where
  "class_count a = (if sa_dataset a = ''synthetic'' then sa_synthetic_classes a else 10)"

lemma factory_paths:
  "py_partition_colon ''zerotrust_fl.engine.models:mlp_classifier'' = (''zerotrust_fl.engine.models'', '':'', ''mlp_classifier'')"
  "py_partition_colon ''zerotrust_fl.engine.models:small_conv_classifier'' =
     (''zerotrust_fl.engine.models'', '':'', ''small_conv_classifier'')"
  by code_simp+

lemmas keyword_simps = only_keywords_def ints_keyword_def int_keyword_def

lemma build_mlp:
  "build_model models_factory \<lparr>factory_path = ''zerotrust_fl.engine.models:mlp_classifier'',
     spec_kwargs = [(''input_shape'', KInts shape), (''num_classes'', KInt n), (''hidden_dim'', KInt h)]\<rparr> =
   MLPClassifier_init shape n h"
  by (cases "MLPClassifier_init shape n h")
    (simp_all add: build_model_def factory_paths models_factory_def mlp_classifier_def keyword_simps)

lemma build_small_conv:
  "build_model models_factory \<lparr>factory_path = ''zerotrust_fl.engine.models:small_conv_classifier'',
     spec_kwargs = [(''input_channels'', KInt c), (''num_classes'', KInt n), (''image_size'', KInt h)]\<rparr> =
   SmallConvClassifier_init c n h"
  by (cases "SmallConvClassifier_init c n h")
    (simp_all add: build_model_def factory_paths models_factory_def small_conv_classifier_def keyword_simps)

lemma load_model_spec:
  assumes "load_dataset_and_model L a = Inr (train, test, spec)"
  shows "build_model models_factory spec =
    (if sa_dataset a = ''synthetic'' then MLPClassifier_init [sa_synthetic_features a] (sa_synthetic_classes a) 64
     else if sa_dataset a = ''fashion-mnist'' then MLPClassifier_init [1, 28, 28] 10 128
     else SmallConvClassifier_init 3 10 32)"
  using assms unfolding load_dataset_and_model_def
  by (auto simp: res_simps build_mlp build_small_conv split: prod.splits option.splits if_split_asm)

text \<open>
  C36: The network fits the data. For every dataset the runner offers, the model specification it chooses builds a
  network of the package's own factories, and that network maps the shape of a sample to one score per class; it
  can only fail to be built for negative sizes of a synthetic dataset.
\<close>

theorem simulation_model_fits:
  assumes "load_dataset_and_model L a = Inr (train, test, spec)" "0 \<le> sa_synthetic_features a" "0 \<le> sa_synthetic_classes a"
  shows "\<exists>net. build_model models_factory spec = Inr net \<and> forward_shape net (sample_shape a) = Inr [class_count a]"
proof -
  let ?syn = "sa_dataset a = ''synthetic''" let ?fashion = "sa_dataset a = ''fashion-mnist''"
  obtain n1 n2 n3 where net: "MLPClassifier_init [sa_synthetic_features a] (sa_synthetic_classes a) 64 = Inr n1"
      "MLPClassifier_init [1, 28, 28] 10 128 = Inr n2" "SmallConvClassifier_init 3 10 32 = Inr n3"
    using assms(2,3) by (simp add: MLPClassifier_init_def SmallConvClassifier_init_def)
  note fits = mlp_forward [OF net(1)] mlp_forward [OF net(2)] small_conv_forward [OF net(3)]
  show ?thesis
    unfolding load_model_spec [OF assms(1)] net sample_shape_def class_count_def using fits by (cases ?syn; cases ?fashion) simp_all
qed

section \<open>A round under attack\<close>

definition malicious_nodes :: "sim_setup \<Rightarrow> string set" where
  "malicious_nodes b = (\<lambda>i. ''edge-worker-'' @ py_pad2 (nat i)) ` set (ss_malicious_ids b)"

lemma apply_delta_numel:
  "apply_parameter_delta M model (PyTensor d) = Inr model' \<Longrightarrow> numel d = numel (nn_vector M model)"
  by (auto simp: apply_parameter_delta_def parameter_vector_def res_simps Let_def numel_def split: if_split_asm)

text \<open>At most as many of the collected updates are Byzantine as there are malicious workers.\<close>

lemma byzantine_le:
  assumes "distinct (map r_node_id results)" "finite M" "honest = {i. i < length results \<and> r_node_id (results ! i) \<notin> M}"
    "length updates = length results"
  shows "byzantine honest updates \<le> card M"
proof -
  let ?B = "{i. i < length results \<and> r_node_id (results ! i) \<in> M}"
  have inj: "inj_on (\<lambda>i. r_node_id (results ! i)) ?B"
    using assms(1) by (auto simp: inj_on_def distinct_conv_nth)
  have "{..<length updates} - honest = ?B" using assms(3,4) by auto
  then have "byzantine honest updates = card ?B" by (simp add: byzantine_def)
  also have "\<dots> \<le> card M" using inj assms(2) by (intro card_inj_on_le) auto
  finally show ?thesis .
qed

lemma collected_updates:
  assumes "\<forall>r \<in> set results. succeeded r"
  shows "concat (map (\<lambda>r. case r_update r of None \<Rightarrow> [] | Some u \<Rightarrow> [u]) results) = map (\<lambda>r. the (r_update r)) results"
  using assms by (induction results) (auto simp: succeeded_def split: option.splits)

text \<open>A completed round aggregates as many answers of different workers as the plan requires and applies the outcome.\<close>

lemma torch_round:
  assumes "choice_ok W" "distinct (node_ids P)" "run_round W P E round_id s = (s', Inr m)" "agg_method (aggregation P) \<noteq> ''mean''"
    "agg_backend (aggregation P) = ''torch''"
  obtains required results delta where "clients_per_round P = Inr required" "min_results_for P required = Inr (int (length results))"
    "\<forall>r \<in> set results. succeeded r \<and> r_round_id r = round_id \<and> Got r \<in> set (e_events E)" "distinct (map r_node_id results)"
    "torch_aggregate (wd_torch W) (aggregation P) (map (\<lambda>r. the (r_update r)) results) = Inr delta"
    "apply_parameter_delta (wd_nn W) (co_model s) (PyTensor delta) = Inr (co_model s')"
proof -
  obtain minimum required vector selected c s3 where r: "clients_per_round P = Inr required" "min_results_for P required = Inr minimum"
    "co_model s3 = co_model s" "collect_inv round_id (set selected) c" "int (length (cs_results c)) = minimum"
    "finish_coordinator_round W P round_id (e_duration_ms E) selected (cs_results c) (cs_failures c) s3 = (s', Inr m)"
    "\<forall>r \<in> set (cs_results c). Got r \<in> set (e_events E)"
    by (rule run_round_Inr [OF assms(1-3)]) blast
  have ok: "\<forall>r \<in> set (cs_results c). succeeded r \<and> r_round_id r = round_id" "distinct (map r_node_id (cs_results c))"
    using r(4) by (simp_all add: collect_inv_def)
  obtain delta backend where f: "(if agg_method (aggregation P) = ''mean''
      then res_bind (weighted_fedavg (wd_torch W) (cs_results c)) (\<lambda>a. Inr (a, ''torch''))
      else coordinator_aggregate W P (concat (map (\<lambda>r. case r_update r of None \<Rightarrow> [] | Some u \<Rightarrow> [u]) (cs_results c)))) = Inr (delta, backend)"
      "apply_parameter_delta (wd_nn W) (co_model s3) (PyTensor delta) = Inr (co_model s')"
    by (rule finish_coordinator_round_Inr [OF r(6)]) blast
  have "concat (map (\<lambda>r. case r_update r of None \<Rightarrow> [] | Some u \<Rightarrow> [u]) (cs_results c)) = map (\<lambda>r. the (r_update r)) (cs_results c)"
    by (rule collected_updates) (use ok(1) in blast)
  then have "coordinator_aggregate W P (map (\<lambda>r. the (r_update r)) (cs_results c)) = Inr (delta, backend)" using f assms(4) by simp
  then have "torch_aggregate (wd_torch W) (aggregation P) (map (\<lambda>r. the (r_update r)) (cs_results c)) = Inr delta"
    by (simp add: coordinator_aggregate_def Let_def assms(4,5) res_simps split: if_split_asm)
  then show ?thesis using that [of required "cs_results c" delta] r ok f(2) by simp
qed

lemma answers_in_range:
  assumes "\<forall>r \<in> set results. succeeded r" "representable binary32 lo" "representable binary32 hi"
    and "\<forall>r u. r \<in> set results \<longrightarrow> r_node_id r \<notin> M \<longrightarrow> r_update r = Some u \<longrightarrow>
           lo \<le> val (tdata (cpu_float u) ! j) \<and> val (tdata (cpu_float u) ! j) \<le> hi"
  shows "honest_range {i. i < length results \<and> r_node_id (results ! i) \<notin> M} (map (\<lambda>r. the (r_update r)) results) j lo hi"
  unfolding honest_range_def
proof (intro conjI assms(2,3) ballI impI)
  fix i assume i: "i \<in> {i. i < length results \<and> r_node_id (results ! i) \<notin> M}" "i < length (map (\<lambda>r. the (r_update r)) results)"
  then have mem: "results ! i \<in> set results" by simp
  then obtain u where u: "r_update (results ! i) = Some u" using assms(1) by (auto simp: succeeded_def)
  have "lo \<le> val (tdata (cpu_float u) ! j) \<and> val (tdata (cpu_float u) ! j) \<le> hi"
    using assms(4) mem u i(1) by blast
  then show "lo \<le> val (stack_of (map (\<lambda>r. the (r_update r)) results) ! i ! j)"
      "val (stack_of (map (\<lambda>r. the (r_update r)) results) ! i ! j) \<le> hi"
    using i u by (simp_all add: stack_of_def)
qed



section \<open>A concrete simulation\<close>

text \<open>Three clients share ten samples; half of them, rounded down, are malicious.\<close>

definition sim_lib_example :: "unit sim_lib" where
  "sim_lib_example = \<lparr>sx_numpy = numpy_seq, sx_choice = (\<lambda>seed n k. map int [0..<nat k]),
     sx_synthetic = (\<lambda>seed features classes n m. Inr (replicate (nat n) 0, replicate (nat m) 0)), sx_torchvision = None\<rparr>"

definition sim_args_example :: sim_args where
  "sim_args_example = (sim_namespace (\<lambda>name. None) 9466 Map.empty)
     \<lparr>sa_clients := 3, sa_partition := ''iid'', sa_malicious_fraction := Fin (1 / 2), sa_aggregator := ''median'',
      sa_backend := ''torch'', sa_synthetic_samples := 10, sa_synthetic_classes := 1, sa_trim_beta := Fin 0,
      sa_learning_rate := Fin 1, sa_max_compute_delay := Fin 0, sa_max_network_delay := Fin 0, sa_dp_delta := Fin (1 / 2)\<rparr>"

lemma sim_args_example_fields:
  "sa_clients sim_args_example = 3" "sa_partition sim_args_example = ''iid''" "sa_malicious_fraction sim_args_example = Fin (1 / 2)"
  "sa_aggregator sim_args_example = ''median''" "sa_backend sim_args_example = ''torch''" "sa_dataset sim_args_example = ''synthetic''"
  "sa_synthetic_samples sim_args_example = 10" "sa_synthetic_classes sim_args_example = 1" "sa_synthetic_features sim_args_example = 20"
  "sa_seed sim_args_example = 42"
  "sa_trim_beta sim_args_example = Fin 0" "sa_clients_per_round sim_args_example = None" "sa_min_results sim_args_example = None"
  "sa_byzantine_f sim_args_example = None" "sa_multi_krum_k sim_args_example = 3" "sa_attack sim_args_example = ''sign_flip''"
  "sa_batch_size sim_args_example = 64" "sa_local_epochs_min sim_args_example = 1" "sa_local_epochs_max sim_args_example = 2"
  "sa_learning_rate sim_args_example = Fin 1" "sa_optimizer sim_args_example = ''sgd''" "sa_max_compute_delay sim_args_example = Fin 0"
  "sa_max_network_delay sim_args_example = Fin 0" "sa_rounds sim_args_example = 5" "sa_round_timeout sim_args_example = Fin 120"
  "sa_dp sim_args_example = False" "sa_dp_clip_norm sim_args_example = Fin 1" "sa_dp_noise_multiplier sim_args_example = Fin 1"
  "sa_dp_delta sim_args_example = Fin (1 / 2)" "sa_dp_adjacency sim_args_example = ''replace''"
  by (simp_all add: sim_args_example_def sim_namespace_def arg_str_def arg_int_def arg_float_def arg_bool_def arg_int_opt_def)

lemma sim_choice_ok_example: "sim_choice_ok sim_lib_example"
  by (auto simp: sim_choice_ok_def sim_lib_example_def distinct_map)

lemma sim_counts_example:
  "malicious_count_of sim_args_example = Inr 1" "derived_min_results sim_args_example = 3" "derived_clients_per_round sim_args_example = 3"
proof -
  have "py_int_float 3 = Inr (Fin 3)" using py_float_small [of 3] by (simp add: py_int_float_def)
  then show "malicious_count_of sim_args_example = Inr 1"
    by (simp add: malicious_count_of_def sim_args_example_fields rnd64_halves)
qed (simp_all add: derived_min_results_def derived_clients_per_round_def or_int_def sim_args_example_fields)

lemma sim_worker_example: "make_worker sim_args_example ids partitions i =
  Inr \<lparr>spec_config = sim_worker_config sim_args_example ids i, sample_indices = partitions ! i\<rparr>"
proof -
  let ?c = "sim_worker_config sim_args_example ids i"
  have "wf_AttackConfig (attack ?c)"
    by (simp add: sim_worker_config_def Let_def make_attack_config_def sim_args_example_fields wf_AttackConfig_def
        default_AttackConfig_def attack_kinds_def)
  moreover have "py_strip (node_id ?c) \<noteq> []"
    by (simp add: sim_node_id py_strip_Nil py_isspace_def)
  moreover have "\<not> fl_less (decimal (1 / 10)) (Fin 0)"
    using rnd_nonneg [OF fmt_ok_binary(1), of "1 / 10"] by (cases "decimal (1 / 10)") auto
  moreover have "py_lower ''sgd'' = ''sgd''" by code_simp
  ultimately have "wf_WorkerConfig ?c" "wf_AttackConfig (attack ?c)"
    by (simp_all add: wf_WorkerConfig_def wf_delay_range_def) (simp add: sim_worker_config_def Let_def sim_args_example_fields)
  then show ?thesis
    using attack_config.validate_iff [of "attack ?c"] worker_config.validate_iff [of ?c] by (simp add: make_worker_def Let_def)
qed

definition sim_parts_example :: "nat list list" where
  "sim_parts_example = [[0, 1, 2, 3], [4, 5, 6], [7, 8, 9]]"

definition sim_plan_example :: plan where
  "sim_plan_example = \<lparr>simulation = sim_simulation sim_args_example, aggregation = sim_aggregation sim_args_example 1,
     worker_specs = map (\<lambda>i. \<lparr>spec_config = sim_worker_config sim_args_example [0] i, sample_indices = sim_parts_example ! i\<rparr>) [0..<3]\<rparr>"

lemma build_simulation_example:
  "\<exists>b. build_simulation sim_lib_example mlog sim_args_example = Inr b \<and> ss_plan b = sim_plan_example \<and> ss_malicious_ids b = [0]"
proof -
  let ?labels = "replicate 10 0 :: int list"
  have part: "partition_dataset numpy_seq (DatasetSrc (as_dataset (TensorSet ?labels))) 3 ''iid'' alpha 42 3 = Inr sim_parts_example" for alpha
    by code_simp
  obtain spec where "load_dataset_and_model sim_lib_example sim_args_example = Inr (TensorSet ?labels, TensorSet (replicate 20 0), spec)"
    by (simp add: load_dataset_and_model_def synthetic_dataset_def sim_args_example_fields sim_lib_example_def)
  then have data: "prepare_data sim_lib_example sim_args_example = Inr (TensorSet ?labels, spec, sim_parts_example)"
    using part by (simp add: prepare_data_def sim_args_example_fields) (simp add: sim_lib_example_def)
  have "SimulationConfig_post_init (sim_simulation sim_args_example) = Inr ()"
    by (simp add: SimulationConfig_post_init_def sim_simulation_def sim_counts_example default_SimulationConfig_def sim_args_example_fields)
  moreover have "AggregationConfig_post_init (sim_aggregation sim_args_example 1) = Inr ()"
    by (simp add: AggregationConfig_post_init_def sim_aggregation_def derived_f_def derived_k_def sim_counts_example sim_args_example_fields)
  moreover have "res_map (make_worker sim_args_example [0] sim_parts_example) [0..<3] = Inr (worker_specs sim_plan_example)"
    by (simp add: sim_plan_example_def) (rule res_map_all_Inr, rule sim_worker_example)
  ultimately have plan: "prepare_plan sim_lib_example sim_args_example sim_parts_example = Inr (sim_plan_example, [0])"
    by (simp add: prepare_plan_def sim_counts_example sim_lib_example_def sim_args_example_fields Let_def) (simp add: sim_plan_example_def)
  obtain stats where "partition_stats (ArraySrc (IntArr [10] ?labels)) (map (map int) sim_parts_example) = Inr stats"
    by (cases "partition_stats (ArraySrc (IntArr [10] ?labels)) (map (map int) sim_parts_example)") (code_simp, blast)
  then have "prepare_report mlog sim_args_example (TensorSet ?labels) sim_parts_example = Inr (stats, None)"
    by (simp add: prepare_report_def sim_local_dp_def sim_args_example_fields)
  moreover have "LocalDPConfig_post_init (sim_local_dp sim_args_example) = Inr ()"
    by (simp add: LocalDPConfig_post_init_def sim_local_dp_def sim_args_example_fields default_orders_def)
  ultimately show ?thesis
    using data plan by (simp add: build_simulation_def seed_libraries_def sim_args_example_fields)
qed

theorem simulation_plan_sound_witness:
  "\<exists>b. build_simulation sim_lib_example (\<lambda>x. Fin 0) sim_args_example = Inr b \<and> length (worker_specs (ss_plan b)) = 3 \<and>
     distinct (node_ids (ss_plan b)) \<and>
     malicious_count_of sim_args_example = Inr (int (length (filter (\<lambda>w. w_malicious (spec_config w)) (worker_specs (ss_plan b)))))"
proof -
  obtain b where b: "build_simulation sim_lib_example (\<lambda>x. Fin 0) sim_args_example = Inr b" using build_simulation_example by blast
  have "numpy_ok (sx_numpy sim_lib_example)" using numpy_seq_ok by (simp add: sim_lib_example_def)
  from simulation_plan_sound [OF this sim_choice_ok_example _ b] b show ?thesis
    by (simp add: sim_args_example_fields attack_kinds_def)
qed


theorem simulation_model_fits_witness:
  "\<exists>train test spec net. load_dataset_and_model sim_lib_example sim_args_example = Inr (train, test, spec) \<and>
     build_model models_factory spec = Inr net \<and> forward_shape net [20] = Inr [1]"
proof -
  obtain train test spec where l: "load_dataset_and_model sim_lib_example sim_args_example = Inr (train, test, spec)"
    by (simp add: load_dataset_and_model_def synthetic_dataset_def sim_args_example_fields sim_lib_example_def)
  from simulation_model_fits [OF l] l show ?thesis
    by (auto simp: sim_args_example_fields sample_shape_def class_count_def)
qed


text \<open>Worker 0 is malicious and sends 1000; workers 1 and 2 send 1 and 2.\<close>

definition sim_names :: "string list" where
  "sim_names = [''edge-worker-00'', ''edge-worker-01'', ''edge-worker-02'']"

definition sim_world_example :: "(fl list, unit) world" where
  "sim_world_example = world_example\<lparr>wd_eval_batches := None\<rparr>"

definition sim_env_example :: round_env where
  "sim_env_example =
     \<lparr>e_drained = [], e_polls = [], e_late = poll_example,
      e_events = [Got (ok_result ''edge-worker-00'' 1 (flat_vector [Fin 1000]) 10 False),
                  Got (ok_result ''edge-worker-01'' 1 (flat_vector [Fin 1]) 10 False),
                  Got (ok_result ''edge-worker-02'' 1 (flat_vector [Fin 2]) 10 False)],
      e_duration_ms = 5\<rparr>"

definition sim_start_example :: "fl list coordinator" where
  "sim_start_example =
     \<lparr>co_model = [Fin 1], busy_round = Map.empty, processes = sim_names, co_started = True, co_closed = False, co_log = []\<rparr>"

lemma sim_names_example: "node_ids sim_plan_example = sim_names"
proof -
  have "map py_pad2 [0, 1, 2] = [''00'', ''01'', ''02'']" by code_simp
  then show ?thesis by (simp add: node_ids_def sim_plan_example_def sim_node_id sim_names_def upt_rec numeral_2_eq_2 numeral_3_eq_3)
qed

lemma sim_select_example:
  "clients_per_round sim_plan_example = Inr 3" "min_results_for sim_plan_example 3 = Inr 3"
  "select_clients sim_world_example sim_plan_example 1 [] poll_example Map.empty = (Map.empty, Inr sim_names)"
proof -
  show c: "clients_per_round sim_plan_example = Inr 3"
    by (simp add: clients_per_round_def sim_plan_example_def sim_simulation_def sim_counts_example sim_args_example_fields)
  show m: "min_results_for sim_plan_example 3 = Inr 3"
    by (simp add: min_results_for_def sim_plan_example_def sim_simulation_def sim_counts_example)
  have "wait_loop sim_plan_example 3 3 [] poll_example Map.empty = (Map.empty, Inr sim_names)"
    by (subst wait_loop.simps) (simp add: poll_example_def drain_completed_results_def available_at_def sim_names_example sim_names_def)
  then show "select_clients sim_world_example sim_plan_example 1 [] poll_example Map.empty = (Map.empty, Inr sim_names)"
    using m by (simp add: select_clients_def c wait_for_available_def)
      (simp add: sim_world_example_def world_example_def sim_names_def)
qed

lemma sim_round_example:
  "\<exists>s' m. run_round sim_world_example sim_plan_example sim_env_example 1 sim_start_example = (s', Inr m) \<and> co_model s' = [Fin 3]"
proof -
  let ?r0 = "ok_result ''edge-worker-00'' 1 (flat_vector [Fin 1000]) 10 False" and ?r1 = "ok_result ''edge-worker-01'' 1 (flat_vector [Fin 1]) 10 False"
    and ?r2 = "ok_result ''edge-worker-02'' 1 (flat_vector [Fin 2]) 10 False"
  let ?W = sim_world_example and ?P = sim_plan_example
  let ?s = "dispatch 1 (cpu_float (flat_vector [Fin 1])) sim_names (sim_start_example\<lparr>busy_round := Map.empty\<rparr>)"
  have v: "parameter_vector (wd_nn ?W) (co_model sim_start_example) = Inr (flat_vector [Fin 1])"
    by (simp add: parameter_vector_def sim_world_example_def world_example_def sim_start_example_def nn_counter_def numel_def all_finite_def)
  note ok = ok_result_fields
  obtain busy obs where col: "collect_round_results 1 (set sim_names) 3 (e_events sim_env_example) (busy_round ?s) =
      \<lparr>cs_busy = busy, cs_results = [?r0, ?r1, ?r2], cs_failures = {}, cs_observed = obs\<rparr>"
    by (simp add: collect_round_results_def sim_env_example_def on_result_def hopeless_def ok Let_def sim_names_def)
  have agg: "coordinator_aggregate ?W ?P [flat_vector [Fin 1000], flat_vector [Fin 1], flat_vector [Fin 2]] = Inr (flat_vector [Fin 2], ''torch'')"
    by (simp add: coordinator_aggregate_def sim_plan_example_def sim_aggregation_def sim_args_example_fields sim_world_example_def world_example_def
        torch_aggregate_def Let_def rnd32_ints all_finite_def numel_def along_dim0_def column_def median_col_def torch_exact_def fin_sort_def vals_def
        flat_vector_def f32_tensor_def cpu_float_def native_extension_available_def)
  have app: "apply_parameter_delta nn_counter [Fin 1] (PyTensor (flat_vector [Fin 2])) = Inr [Fin 3]"
    by (simp add: apply_parameter_delta_def parameter_vector_def nn_counter_def numel_def ndim_def all_finite_def
        flat_vector_def f32_tensor_def fmt_of_def rnd32_ints)
  obtain ev where ev: "evaluate ?W ?P [Fin 3] = Inr ev"
    by (simp add: evaluate_def sim_world_example_def)
  have mit: "attack_mitigation_metrics torch_exact [?r0, ?r1, ?r2] a = Inr (None, None)" for a
    by (simp add: attack_mitigation_metrics_def ok Let_def)
  have w: "wd_torch ?W = torch_exact" "wd_nn ?W = nn_counter" by (simp_all add: sim_world_example_def world_example_def)
  have me: "agg_method (aggregation ?P) = ''median''" by (simp add: sim_plan_example_def sim_aggregation_def sim_args_example_fields)
  have "run_round ?W ?P sim_env_example 1 sim_start_example = await_round ?W ?P sim_env_example 1 sim_names ?s"
    using sim_select_example v unfolding run_round_def by (simp add: sim_env_example_def sim_start_example_def drain_completed_results_def)
  also have "\<dots> = finish_coordinator_round ?W ?P 1 5 sim_names [?r0, ?r1, ?r2] {} (?s\<lparr>busy_round := busy\<rparr>)"
    using col sim_select_example(2) by (simp add: await_round_def Let_def sim_names_def) (simp add: sim_env_example_def)
  also have "\<dots> = (?s\<lparr>busy_round := busy, co_model := [Fin 3]\<rparr>,
      Inr (round_metrics ?W ?P 1 5 sim_names [?r0, ?r1, ?r2] {} ''torch'' ev (None, None)))"
    using agg app ev mit by (simp add: finish_coordinator_round_def me ok w sim_start_example_def Let_def)
  finally show ?thesis by simp
qed


end
