(* ===== verification/Wire_Format.thy ===== *)
theory Wire_Format
  imports Attacks
begin

text \<open>
  The model envelope of \<open>client/grpc_worker.py\<close>: serialisation of an update, its tensor manifest, the canonical
  schema bytes and the checks on a global model. A Python \<open>bytes\<close> is a string of its bytes.

  \<open>np.save\<close> and \<open>np.load\<close> (without pickle) and SHA-256 are the record \<open>wire\<close>; the schema encoding is shown to be
  unambiguous through the contract of a prefix code (\<open>prefix_code\<close>), interpreted for every field of an entry.
\<close>

section \<open>Bytes\<close>

text \<open>\<open>struct.pack(">I", n)\<close> and \<open>struct.pack(">Q", n)\<close>: \<open>k\<close> bytes, the most significant first.\<close>

fun be_bytes :: "nat \<Rightarrow> nat \<Rightarrow> string" where
  "be_bytes 0 n = []"
| "be_bytes (Suc k) n = be_bytes k (n div 256) @ [char_of (n mod 256)]"

definition struct_pack :: "nat \<Rightarrow> int \<Rightarrow> string res" where
  "struct_pack k n = (if 0 \<le> n \<and> n < 256 ^ k then Inr (be_bytes k (nat n)) else Inl StructError)"

text \<open>\<open>s.encode("utf-8")\<close> for code points below 256.\<close>

definition utf8_char :: "char \<Rightarrow> string" where
  "utf8_char c =
     (let n = of_char c :: nat
      in if n < 128 then [c] else [char_of (192 + n div 64), char_of (128 + n mod 64)])"

definition py_encode :: "string \<Rightarrow> string" where
  "py_encode s = concat (map utf8_char s)"

section \<open>Manifest and schema\<close>

definition MODEL_PROTOCOL_VERSION :: int where
  "MODEL_PROTOCOL_VERSION = 1"

definition NETWORK_WEIGHTS_FORMAT :: string where
  "NETWORK_WEIGHTS_FORMAT = ''application/x-npy-f32''"

definition SCHEMA_DOMAIN_V1 :: string where
  "SCHEMA_DOMAIN_V1 = ''ztfl-model-schema-v1'' @ [char_of (0 :: nat)]"

record TensorManifestSpec =
  tm_name :: string
  tm_dtype :: string
  tm_dimensions :: "int list"
  tm_element_count :: int

definition append_schema_string :: "string \<Rightarrow> string res" where
  "append_schema_string v =
     (let encoded = py_encode v
      in res_bind (struct_pack 4 (int (length encoded))) (\<lambda>n. Inr (n @ encoded)))"

definition schema_dimension :: "int \<Rightarrow> string res" where
  "schema_dimension dimension =
     (if dimension \<le> 0 then Inl (ValueError ''tensor dimensions must be positive'') else struct_pack 8 dimension)"

text \<open>A count followed by that many items, as the source writes the dimensions and the entries.\<close>

definition counted :: "('a \<Rightarrow> string res) \<Rightarrow> 'a list \<Rightarrow> string res" where
  "counted item xs =
     res_bind (struct_pack 4 (int (length xs))) (\<lambda>n. res_bind (res_map item xs) (\<lambda>es. Inr (n @ concat es)))"

definition schema_entry :: "TensorManifestSpec \<Rightarrow> string res" where
  "schema_entry e =
     res_bind (append_schema_string (tm_name e)) (\<lambda>name.
     res_bind (append_schema_string (tm_dtype e)) (\<lambda>dtype.
     res_bind (counted schema_dimension (tm_dimensions e)) (\<lambda>dimensions.
       if tm_element_count e \<le> 0 then Inl (ValueError ''tensor element_count must be positive'')
       else res_bind (struct_pack 8 (tm_element_count e)) (\<lambda>n. Inr (name @ dtype @ dimensions @ n)))))"

definition schema_bytes :: "TensorManifestSpec list \<Rightarrow> string res" where
  "schema_bytes manifest = res_bind (counted schema_entry manifest) (\<lambda>b. Inr (SCHEMA_DOMAIN_V1 @ b))"

section \<open>Payload\<close>

record wire =
  w_save :: "fl list \<Rightarrow> string"       \<comment> \<open>\<open>np.save\<close> of a one-dimensional float32 array\<close>
  w_load :: "string \<Rightarrow> tensor res"    \<comment> \<open>\<open>np.load(allow_pickle=False)\<close>\<close>
  w_sha256 :: "string \<Rightarrow> string"

definition model_schema_sha256 :: "wire \<Rightarrow> TensorManifestSpec list \<Rightarrow> string res" where
  "model_schema_sha256 W manifest = res_bind (schema_bytes manifest) (\<lambda>encoded. Inr (w_sha256 W encoded))"

text \<open>Both branches, for a tensor and for a numpy array, convert to float32; the array is flattened.\<close>

definition serialize_update :: "wire \<Rightarrow> tensor \<Rightarrow> string res" where
  "serialize_update W update =
     (let array = map (to_fmt binary32) (tdata update)
      in if array = [] then Inl (ValueError ''model update must not be empty'')
         else if \<not> all_finite array then Inl (ValueError ''model update contains non-finite values'')
         else Inr (w_save W array))"

definition deserialize_update :: "wire \<Rightarrow> string \<Rightarrow> fl list res" where
  "deserialize_update W payload =
     res_bind (w_load W payload) (\<lambda>array.
       if ndim array \<noteq> 1 then Inl (ValueError ''model update payload must contain a one-dimensional vector'')
       else let data = (if tdtype array \<noteq> Float32 then map (to_fmt binary32) (tdata array) else tdata array)
         in if data = [] \<or> \<not> all_finite data
              then Inl (ValueError ''model update payload is empty or contains non-finite values'')
            else Inr data)"

definition flat_manifest :: "nat \<Rightarrow> TensorManifestSpec list" where
  "flat_manifest elements =
     [\<lparr>tm_name = ''flat_weights'', tm_dtype = ''float32'', tm_dimensions = [int elements],
       tm_element_count = int elements\<rparr>]"

definition manifest_for_payload :: "wire \<Rightarrow> string \<Rightarrow> TensorManifestSpec list res" where
  "manifest_for_payload W payload =
     res_bind (deserialize_update W payload) (\<lambda>array. Inr (flat_manifest (length array)))"

section \<open>Global model envelope\<close>

record GlobalModel =
  gm_model_version :: string
  gm_round_id :: int
  gm_weights_payload :: string
  gm_weights_format :: string
  gm_sha256 :: string
  gm_protocol_version :: int
  gm_model_id :: string
  gm_schema_sha256 :: string
  gm_tensor_manifest :: "TensorManifestSpec list"

definition validate_global_model_envelope :: "wire \<Rightarrow> GlobalModel \<Rightarrow> string \<Rightarrow> unit res" where
  "validate_global_model_envelope W model expected_model_id =
     (if gm_protocol_version model \<noteq> MODEL_PROTOCOL_VERSION then Inl (ValueError ''unsupported model protocol version'')
      else if gm_model_id model \<noteq> expected_model_id then Inl (ValueError ''global model_id does not match'')
      else let payload = gm_weights_payload model
      in if payload = []
           then if gm_schema_sha256 model \<noteq> [] \<or> gm_tensor_manifest model \<noteq> []
                  then Inl (ValueError ''bootstrap model without payload must not declare a schema'')
                else Inr ()
         else if gm_weights_format model \<noteq> NETWORK_WEIGHTS_FORMAT
           then Inl (ValueError ''unsupported global model format'')
         else if w_sha256 W payload \<noteq> gm_sha256 model
           then Inl (ValueError ''global model payload SHA-256 digest mismatch'')
         else res_bind (manifest_for_payload W payload) (\<lambda>expected_manifest.
           if gm_tensor_manifest model \<noteq> expected_manifest
             then Inl (ValueError ''global model tensor_manifest does not match payload'')
           else res_bind (model_schema_sha256 W expected_manifest) (\<lambda>expected_schema.
             if expected_schema \<noteq> gm_schema_sha256 model
               then Inl (ValueError ''global model schema_sha256 does not match tensor_manifest'')
             else Inr ())))"

section \<open>Unambiguous encodings\<close>

text \<open>
  Two encodings that start the same byte string are encodings of the same value. A sequence of items is then
  determined by its concatenation as soon as the number of items is.
\<close>

locale prefix_code =
  fixes encode :: "'a \<Rightarrow> string res"
  assumes prefix_free: "encode x = Inr a \<Longrightarrow> encode y = Inr b \<Longrightarrow> a @ s = b @ t \<Longrightarrow> x = y \<and> s = t"
begin

lemma same_code: "encode x = Inr a \<Longrightarrow> encode y = Inr a \<Longrightarrow> x = y"
  using prefix_free [of x a y a "[]" "[]"] by simp

lemma items_prefix_free:
  "res_map encode xs = Inr es \<Longrightarrow> res_map encode ys = Inr fs \<Longrightarrow> length xs = length ys \<Longrightarrow>
     concat es @ s = concat fs @ t \<Longrightarrow> xs = ys \<and> s = t"
proof (induction xs arbitrary: es ys fs)
  case (Cons x xs)
  then obtain y ys' where ys: "ys = y # ys'" by (cases ys) auto
  obtain a as where es: "encode x = Inr a" "res_map encode xs = Inr as" "es = a # as"
    using Cons.prems(1) by (auto simp: res_simps)
  obtain b bs where fs: "encode y = Inr b" "res_map encode ys' = Inr bs" "fs = b # bs"
    using Cons.prems(2) ys by (auto simp: res_simps)
  have "a @ concat as @ s = b @ concat bs @ t" using Cons.prems(4) es fs by simp
  from prefix_free [OF es(1) fs(1) this] have "x = y" "concat as @ s = concat bs @ t" by simp_all
  then show ?case using Cons.IH [OF es(2) fs(2)] Cons.prems(3) ys by simp
qed auto

end

lemma length_be_bytes [simp]: "length (be_bytes k n) = k"
  by (induction k arbitrary: n) auto

lemma be_bytes_inject: "m < 256 ^ k \<Longrightarrow> n < 256 ^ k \<Longrightarrow> be_bytes k m = be_bytes k n \<Longrightarrow> m = n"
proof (induction k arbitrary: m n)
  case (Suc k)
  have div: "m div 256 < 256 ^ k" "n div 256 < 256 ^ k"
    using Suc.prems by (auto intro!: less_mult_imp_div_less)
  have "char_of (m mod 256) = (char_of (n mod 256) :: char)" and front: "be_bytes k (m div 256) = be_bytes k (n div 256)"
    using Suc.prems(3) by auto
  then have "m mod 256 = n mod 256" by (metis mod_mod_trivial of_char_of)
  moreover have "m div 256 = n div 256" using Suc.IH [OF div front] .
  ultimately show ?case by (metis div_mult_mod_eq)
qed simp

lemma struct_pack_prefix_free: "prefix_code (struct_pack k)"
proof
  fix x y a b s t
  assume "struct_pack k x = Inr a" "struct_pack k y = Inr b" "a @ s = b @ t"
  then have "0 \<le> x" "0 \<le> y" "x < 256 ^ k" "y < 256 ^ k" "a = be_bytes k (nat x)" "b = be_bytes k (nat y)" "a = b" "s = t"
    by (auto simp: struct_pack_def split: if_splits)
  then have "nat x = nat y"
    by (intro be_bytes_inject [of "nat x" k]) (auto simp: nat_less_iff)
  then show "x = y \<and> s = t" using \<open>0 \<le> x\<close> \<open>0 \<le> y\<close> \<open>s = t\<close> by simp
qed

interpretation u32: prefix_code "struct_pack 4" by (rule struct_pack_prefix_free)

interpretation u64: prefix_code "struct_pack 8" by (rule struct_pack_prefix_free)

context prefix_code
begin

lemma counted_prefix_free:
  assumes "counted encode xs = Inr a" "counted encode ys = Inr b" "a @ s = b @ t"
  shows "xs = ys \<and> s = t"
proof -
  obtain n es where a: "struct_pack 4 (int (length xs)) = Inr n" "res_map encode xs = Inr es" "a = n @ concat es"
    using assms(1) by (auto simp: counted_def res_simps)
  obtain m fs where b: "struct_pack 4 (int (length ys)) = Inr m" "res_map encode ys = Inr fs" "b = m @ concat fs"
    using assms(2) by (auto simp: counted_def res_simps)
  have "n @ concat es @ s = m @ concat fs @ t" using assms(3) a(3) b(3) by simp
  from u32.prefix_free [OF a(1) b(1) this] have "length xs = length ys" "concat es @ s = concat fs @ t" by simp_all
  then show ?thesis using items_prefix_free [OF a(2) b(2)] by simp
qed

end

lemma prefix_code_counted: "prefix_code item \<Longrightarrow> prefix_code (counted item)"
  by (rule prefix_code.intro) (rule prefix_code.counted_prefix_free)

text \<open>If no item is encoded by the empty string, not even the number of items has to be known.\<close>

locale nonempty_prefix_code = prefix_code +
  assumes nonempty: "encode x = Inr a \<Longrightarrow> a \<noteq> []"
begin

lemma items_inject:
  "res_map encode xs = Inr es \<Longrightarrow> res_map encode ys = Inr fs \<Longrightarrow> concat es = concat fs \<Longrightarrow> xs = ys"
proof (induction xs arbitrary: es ys fs)
  case Nil
  then show ?case using nonempty by (cases ys) (auto simp: res_simps)
next
  case (Cons x xs)
  obtain a as where es: "encode x = Inr a" "res_map encode xs = Inr as" "es = a # as"
    using Cons.prems(1) by (auto simp: res_simps)
  then obtain y ys' where ys: "ys = y # ys'"
    using Cons.prems(2,3) nonempty [OF es(1)] by (cases ys) auto
  obtain b bs where fs: "encode y = Inr b" "res_map encode ys' = Inr bs" "fs = b # bs"
    using Cons.prems(2) ys by (auto simp: res_simps)
  from prefix_free [OF es(1) fs(1), of "concat as" "concat bs"] Cons.prems(3) es(3) fs(3)
  show ?case using Cons.IH [OF es(2) fs(2)] ys by simp
qed

end

interpretation utf8: nonempty_prefix_code "\<lambda>c. Inr (utf8_char c)"
proof
  fix c d a b s t
  assume "Inr (utf8_char c) = (Inr a :: string res)" "Inr (utf8_char d) = (Inr b :: string res)" "a @ s = b @ t"
  then have eq: "utf8_char c @ s = utf8_char d @ t" by simp
  let ?m = "of_char c :: nat" and ?n = "of_char d :: nat"
  have small: "?m < 256" "?n < 256" using of_char_of [of "of_char c :: nat"] by simp_all
  have lead: "of_char (char_of (192 + k div 64) :: char) = 192 + k div 64" if "k < 256" for k :: nat
    using that by (simp add: of_char_of)
  have last: "of_char (char_of (128 + k mod 64) :: char) = 128 + k mod 64" for k :: nat
    by (simp add: of_char_of)
  show "c = d \<and> s = t"
  proof (cases "?m < 128 \<longleftrightarrow> ?n < 128")
    case True
    show ?thesis
    proof (cases "?m < 128")
      case False
      then have "char_of (192 + ?m div 64) = (char_of (192 + ?n div 64) :: char)"
          "char_of (128 + ?m mod 64) = (char_of (128 + ?n mod 64) :: char)" "s = t"
        using True eq by (auto simp: utf8_char_def Let_def)
      then have "?m div 64 = ?n div 64" "?m mod 64 = ?n mod 64"
        using lead [OF small(1)] lead [OF small(2)] last [of ?m] last [of ?n] by (metis add_left_cancel)+
      then have "?m = ?n" by (metis div_mult_mod_eq)
      then show ?thesis using \<open>s = t\<close> by simp
    qed (use True eq in \<open>auto simp: utf8_char_def Let_def\<close>)
  next
    case False
    then show ?thesis
      using eq lead [OF small(1)] lead [OF small(2)] by (auto simp: utf8_char_def Let_def split: if_splits)
  qed
next
  fix c a
  assume "Inr (utf8_char c) = (Inr a :: string res)"
  then show "a \<noteq> []" by (auto simp: utf8_char_def Let_def split: if_splits)
qed

lemma py_encode_inject: "py_encode v = py_encode w \<Longrightarrow> v = w"
  unfolding py_encode_def by (rule utf8.items_inject) (rule res_map_all_Inr, simp)+

interpretation schema_string: prefix_code append_schema_string
proof
  fix v w a b s t
  assume "append_schema_string v = Inr a" "append_schema_string w = Inr b" and eq: "a @ s = b @ t"
  then obtain m n where a: "struct_pack 4 (int (length (py_encode v))) = Inr m" "a = m @ py_encode v"
    and b: "struct_pack 4 (int (length (py_encode w))) = Inr n" "b = n @ py_encode w"
    by (auto simp: append_schema_string_def Let_def res_simps)
  from u32.prefix_free [OF a(1) b(1), of "py_encode v @ s" "py_encode w @ t"] eq a b
  have "length (py_encode v) = length (py_encode w)" "py_encode v @ s = py_encode w @ t" by simp_all
  then show "v = w \<and> s = t" using py_encode_inject by simp
qed

interpretation dimension: prefix_code schema_dimension
  by (rule prefix_code.intro) (auto simp: schema_dimension_def dest: u64.prefix_free split: if_splits)

interpretation dimensions: prefix_code "counted schema_dimension"
  by (rule prefix_code_counted) (rule dimension.prefix_code_axioms)

interpretation entry: prefix_code schema_entry
proof
  fix e f a b s t
  assume "schema_entry e = Inr a" "schema_entry f = Inr b" and eq: "a @ s = b @ t"
  then obtain n1 d1 ds1 c1 n2 d2 ds2 c2 where
    a: "append_schema_string (tm_name e) = Inr n1" "append_schema_string (tm_dtype e) = Inr d1"
      "counted schema_dimension (tm_dimensions e) = Inr ds1" "struct_pack 8 (tm_element_count e) = Inr c1"
      "a = n1 @ d1 @ ds1 @ c1" and
    b: "append_schema_string (tm_name f) = Inr n2" "append_schema_string (tm_dtype f) = Inr d2"
      "counted schema_dimension (tm_dimensions f) = Inr ds2" "struct_pack 8 (tm_element_count f) = Inr c2"
      "b = n2 @ d2 @ ds2 @ c2"
    by (auto simp: schema_entry_def res_simps split: if_splits)
  have "n1 @ d1 @ ds1 @ c1 @ s = n2 @ d2 @ ds2 @ c2 @ t" using eq a(5) b(5) by simp
  from schema_string.prefix_free [OF a(1) b(1) this] have name: "tm_name e = tm_name f" and 1: "d1 @ ds1 @ c1 @ s = d2 @ ds2 @ c2 @ t" by simp_all
  from schema_string.prefix_free [OF a(2) b(2) 1] have dtype: "tm_dtype e = tm_dtype f" and 2: "ds1 @ c1 @ s = ds2 @ c2 @ t" by simp_all
  from dimensions.prefix_free [OF a(3) b(3) 2] have dims: "tm_dimensions e = tm_dimensions f" and 3: "c1 @ s = c2 @ t" by simp_all
  from u64.prefix_free [OF a(4) b(4) 3] show "e = f \<and> s = t" using name dtype dims by simp
qed

interpretation manifest: prefix_code schema_bytes
proof
  fix m n a b s t
  assume "schema_bytes m = Inr a" "schema_bytes n = Inr b" "a @ s = b @ t"
  then obtain c d where "counted schema_entry m = Inr c" "counted schema_entry n = Inr d" "c @ s = d @ t"
    by (auto simp: schema_bytes_def res_simps)
  then show "m = n \<and> s = t" by (rule entry.counted_prefix_free)
qed

text \<open>
  C30: The schema digest identifies the manifest. If two manifests have the same schema digest, they are equal, or
  their two encodings are different byte strings with the same SHA-256: names, types, dimensions and counts cannot
  be moved from one field or entry to another without changing the encoding.
\<close>

theorem schema_digest_identifies_manifest:
  assumes "model_schema_sha256 W m = Inr h" "model_schema_sha256 W n = Inr h"
  shows "m = n \<or> (\<exists>a b. schema_bytes m = Inr a \<and> schema_bytes n = Inr b \<and> a \<noteq> b \<and> w_sha256 W a = w_sha256 W b)"
proof -
  from assms obtain a b where codes: "schema_bytes m = Inr a" "schema_bytes n = Inr b" "w_sha256 W a = h" "w_sha256 W b = h"
    by (auto simp: model_schema_sha256_def res_simps)
  show ?thesis
  proof (cases "a = b")
    case True
    then show ?thesis using manifest.same_code codes(1,2) by blast
  qed (use codes in auto)
qed

text \<open>
  C31: The checks on a global model fail closed, and accept exactly what they say. A model is accepted if and only if
  it has the protocol version and the expected identifier and is either a bootstrap model (no payload, and then no
  schema and no manifest) or carries a payload in the network format with its SHA-256 digest, which decodes to a
  non-empty vector of finite numbers, with the manifest of that vector and the digest of that manifest's schema.
\<close>

theorem envelope_accepted_iff:
  "validate_global_model_envelope W model expected = Inr () \<longleftrightarrow>
     gm_protocol_version model = 1 \<and> gm_model_id model = expected \<and>
     (gm_weights_payload model = [] \<and> gm_schema_sha256 model = [] \<and> gm_tensor_manifest model = [] \<or>
      gm_weights_payload model \<noteq> [] \<and> gm_weights_format model = ''application/x-npy-f32'' \<and>
      gm_sha256 model = w_sha256 W (gm_weights_payload model) \<and>
      (\<exists>xs b. deserialize_update W (gm_weights_payload model) = Inr xs \<and> xs \<noteq> [] \<and> list_all is_fin xs \<and>
         gm_tensor_manifest model = flat_manifest (length xs) \<and> schema_bytes (flat_manifest (length xs)) = Inr b \<and>
         gm_schema_sha256 model = w_sha256 W b))"
proof -
  have vector: "xs \<noteq> [] \<and> list_all is_fin xs" if "deserialize_update W p = Inr xs" for p xs
    using that by (auto simp: deserialize_update_def all_finite_def Let_def res_simps split: if_splits)
  show ?thesis
    by (cases "gm_weights_payload model = []")
      (auto simp: validate_global_model_envelope_def MODEL_PROTOCOL_VERSION_def NETWORK_WEIGHTS_FORMAT_def Let_def
        manifest_for_payload_def model_schema_sha256_def res_simps dest: vector split: if_splits)
qed

section \<open>Round trip of an update\<close>

text \<open>NumPy reads back the array it saved, and a saved array is not empty (it starts with the format's header).\<close>

definition npy_ok :: "wire \<Rightarrow> bool" where
  "npy_ok W \<longleftrightarrow>
     (\<forall>xs. all_finite xs \<longrightarrow> map (to_fmt binary32) xs = xs \<longrightarrow>
        w_save W xs \<noteq> [] \<and> w_load W (w_save W xs) = Inr (flat_vector xs))"

lemma to_fmt_twice: "fmt_ok F \<Longrightarrow> to_fmt F (to_fmt F x) = to_fmt F x"
  by (cases x) (simp_all add: rnd_idem)

lemma deserialize_serialize:
  assumes "npy_ok W" "serialize_update W update = Inr payload"
  shows "deserialize_update W payload = Inr (map (to_fmt binary32) (tdata update))" "payload \<noteq> []"
proof -
  let ?xs = "map (to_fmt binary32) (tdata update)"
  have xs: "?xs \<noteq> []" "all_finite ?xs" "payload = w_save W ?xs"
    using assms(2) by (auto simp: serialize_update_def Let_def split: if_splits)
  moreover have "map (to_fmt binary32) ?xs = ?xs" by (simp add: to_fmt_twice)
  ultimately have "w_load W payload = Inr (flat_vector ?xs)" and ne: "payload \<noteq> []"
    using assms(1) [unfolded npy_ok_def, rule_format, of ?xs] by auto
  then show "deserialize_update W payload = Inr ?xs"
    using xs(1,2) unfolding deserialize_update_def
    by (simp add: flat_vector_def f32_tensor_def ndim_def)
  show "payload \<noteq> []" by (fact ne)
qed

lemma schema_bytes_flat:
  assumes "0 < n" "n < 2 ^ 64"
  shows "\<exists>b. schema_bytes (flat_manifest n) = Inr b"
proof -
  have "length (py_encode ''flat_weights'') = 12" "length (py_encode ''float32'') = 7" by code_simp+
  then obtain a b where "append_schema_string ''flat_weights'' = Inr a" "append_schema_string ''float32'' = Inr b"
    by (simp add: append_schema_string_def struct_pack_def)
  moreover have "struct_pack 8 (int n) = Inr (be_bytes 8 n)" using assms by (simp add: struct_pack_def)
  ultimately show ?thesis
    using assms(1)
    by (simp add: schema_bytes_def counted_def flat_manifest_def schema_entry_def schema_dimension_def struct_pack_def)
qed

text \<open>
  C32: Round trip. What a worker puts on the wire for an update decodes to its coordinates rounded to float32, in
  order, and the manifest, digest and schema digest computed with it form an envelope that passes the checks on a
  global model of the same identifier.
\<close>

theorem update_round_trip:
  assumes "npy_ok W" "serialize_update W update = Inr payload" "numel update < 2 ^ 64"
  shows "deserialize_update W payload = Inr (map (to_fmt binary32) (tdata update)) \<and>
    manifest_for_payload W payload = Inr (flat_manifest (numel update)) \<and>
    (\<exists>h. model_schema_sha256 W (flat_manifest (numel update)) = Inr h \<and>
       validate_global_model_envelope W \<lparr>gm_model_version = version, gm_round_id = round_id, gm_weights_payload = payload,
         gm_weights_format = NETWORK_WEIGHTS_FORMAT, gm_sha256 = w_sha256 W payload,
         gm_protocol_version = MODEL_PROTOCOL_VERSION, gm_model_id = model_id, gm_schema_sha256 = h,
         gm_tensor_manifest = flat_manifest (numel update)\<rparr> model_id = Inr ())"
proof -
  note dec = deserialize_serialize [OF assms(1,2)]
  have "0 < numel update" using assms(2) by (auto simp: serialize_update_def numel_def Let_def split: if_splits)
  then obtain b where "schema_bytes (flat_manifest (numel update)) = Inr b" using schema_bytes_flat assms(3) by blast
  then show ?thesis
    using dec by (simp add: manifest_for_payload_def numel_def model_schema_sha256_def validate_global_model_envelope_def)
qed

definition wire_example :: wire where
  "wire_example = \<lparr>
     w_save = (\<lambda>xs. CHR ''N'' # concat (map write_int (map (\<lambda>x. \<lfloor>val x * 2 ^ 149\<rfloor>) xs))),
     w_load = (\<lambda>s. Inr (flat_vector (map (\<lambda>k. Fin (of_int k / 2 ^ 149)) (read_ints 0 False (tl s))))),
     w_sha256 = (\<lambda>s. s)\<rparr>"

lemma map_eq_self: "map f xs = xs \<Longrightarrow> x \<in> set xs \<Longrightarrow> f x = x"
  by (induction xs) auto

lemma npy_ok_example: "npy_ok wire_example"
  unfolding npy_ok_def
proof (intro allI impI)
  fix xs assume xs: "all_finite xs" "map (to_fmt binary32) xs = xs"
  have "Fin (of_int \<lfloor>val x * 2 ^ 149\<rfloor> / 2 ^ 149) = x" if "x \<in> set xs" for x
  proof -
    have "is_fin x" "to_fmt binary32 x = x" using xs that by (auto simp: all_finite_def list_all_iff map_eq_conv dest: map_eq_self)
    then obtain v where v: "x = Fin v" "rnd binary32 v = Fin v" by (cases x) auto
    then have "representable binary32 v" by (intro rnd_Fin_representable [of binary32]) simp_all
    then obtain m e where me: "v = of_int m * 2 powi e" "- 149 \<le> e"
      by (auto simp: representable_def binary32_def)
    have "(2::real) powi e * 2 ^ 149 = 2 powi (e + int 149)" by (simp only: powi_split)
    also have "\<dots> = 2 ^ nat (e + 149)" using me(2) by (simp add: power_int_def)
    finally have "v * 2 ^ 149 = of_int (m * 2 ^ nat (e + 149))" using me(1) by simp
    then have "of_int \<lfloor>v * 2 ^ 149\<rfloor> = v * 2 ^ 149" by (simp only: floor_of_int)
    then show ?thesis using v by simp
  qed
  then have "map (\<lambda>k. Fin (of_int k / 2 ^ 149)) (map (\<lambda>x. \<lfloor>val x * 2 ^ 149\<rfloor>) xs) = xs" by (simp add: map_idI)
  then show "w_save wire_example xs \<noteq> [] \<and> w_load wire_example (w_save wire_example xs) = Inr (flat_vector xs)"
    unfolding wire_example_def by (simp only: wire.simps list.sel read_write_ints list.distinct simp_thms)
qed

theorem update_round_trip_witness:
  "\<exists>payload h. serialize_update wire_example (flat_vector [Fin 1, Fin (-2)]) = Inr payload \<and>
     deserialize_update wire_example payload = Inr [Fin 1, Fin (-2)] \<and>
     model_schema_sha256 wire_example (flat_manifest 2) = Inr h \<and>
     validate_global_model_envelope wire_example \<lparr>gm_model_version = ''v1'', gm_round_id = 3, gm_weights_payload = payload,
       gm_weights_format = NETWORK_WEIGHTS_FORMAT, gm_sha256 = w_sha256 wire_example payload,
       gm_protocol_version = MODEL_PROTOCOL_VERSION, gm_model_id = ''m'', gm_schema_sha256 = h,
       gm_tensor_manifest = flat_manifest 2\<rparr> ''m'' = Inr ()"
proof -
  have rnd: "rnd binary32 1 = Fin 1" "rnd binary32 (-2) = Fin (-2)"
    using rnd32_int [of 1] rnd32_int [of "-2"] by simp_all
  then obtain payload where p: "serialize_update wire_example (flat_vector [Fin 1, Fin (-2)]) = Inr payload"
    by (simp add: serialize_update_def all_finite_def)
  have "numel (flat_vector [Fin 1, Fin (-2)]) = 2" by (simp add: numel_def)
  with update_round_trip [OF npy_ok_example p, of "''v1''" 3 "''m''"] rnd show ?thesis using p by auto
qed

theorem schema_digest_identifies_manifest_witness:
  "\<exists>h. model_schema_sha256 wire_example (flat_manifest 3) = Inr h \<and>
     (flat_manifest 3 = flat_manifest 3 \<or> (\<exists>a b. schema_bytes (flat_manifest 3) = Inr a \<and>
        schema_bytes (flat_manifest 3) = Inr b \<and> a \<noteq> b \<and> w_sha256 wire_example a = w_sha256 wire_example b))"
proof -
  obtain b where "schema_bytes (flat_manifest 3) = Inr b" using schema_bytes_flat [of 3] by auto
  then have h: "model_schema_sha256 wire_example (flat_manifest 3) = Inr (w_sha256 wire_example b)"
    by (simp add: model_schema_sha256_def)
  from schema_digest_identifies_manifest [OF h h] h show ?thesis by blast
qed

end
