(* ===== verification/Grpc_Client.thy ===== *)
theory Grpc_Client
  imports Wire_Format Py_String
begin

text \<open>
  The networked worker's client, \<open>client/grpc_worker.py\<close>: configuration, address syntax, verification of the
  coordinator's identity, and the session (registration, heartbeat, model download, update submission).

  What the outside answers to one call - the TLS handshake, the token file, the RPC results, clock and nonce - is
  the record \<open>grpc_env\<close>, given per call. The client keeps a log, newest first, of what it verified, sent and was
  accepted for; the session invariant is stated on that log.
\<close>

section \<open>Configuration\<close>

record GrpcWorkerConfig =
  gw_address :: string
  gw_node_id :: string
  gw_certificate_common_name :: string
  gw_ca_certificate :: string
  gw_client_certificate :: string
  gw_client_private_key :: string
  gw_model_id :: string
  gw_jwt_token :: "string option"
  gw_jwt_token_file :: "string option"
  gw_server_name_override :: "string option"
  gw_expected_trust_domain :: string
  gw_expected_server_role :: string
  gw_server_certificate_sha256 :: "string option"
  gw_timeout_seconds :: fl
  gw_max_message_bytes :: int

text \<open>\<open>bool(s)\<close> of an optional string, and the normal form of a pinned digest.\<close>

definition given :: "string option \<Rightarrow> bool" where
  "given s = (case s of None \<Rightarrow> False | Some t \<Rightarrow> t \<noteq> [])"

definition normal_digest :: "string \<Rightarrow> string" where
  "normal_digest s = py_strip (py_replace (CHR '':'') [] (py_lower s))"

definition GrpcWorkerConfig_post_init :: "GrpcWorkerConfig \<Rightarrow> unit res" where
  "GrpcWorkerConfig_post_init c =
     (if py_strip (gw_address c) = [] then Inl (ValueError ''address is required'')
      else if py_strip (gw_node_id c) = [] then Inl (ValueError ''node_id is required'')
      else if py_strip (gw_certificate_common_name c) = [] then Inl (ValueError ''certificate_common_name is required'')
      else if py_strip (gw_model_id c) = [] \<or> 256 < length (gw_model_id c) \<or>
          list_ex (\<lambda>ch. ch \<in> {char_of (0::nat), char_of (13::nat), char_of (10::nat)}) (gw_model_id c)
        then Inl (ValueError ''model_id must be a non-empty stable identifier'')
      else if given (gw_jwt_token c) = given (gw_jwt_token_file c)
        then Inl (ValueError ''configure exactly one of jwt_token or jwt_token_file'')
      else if py_strip (gw_expected_trust_domain c) = [] then Inl (ValueError ''expected_trust_domain is required'')
      else if py_strip (gw_expected_server_role c) = [] then Inl (ValueError ''expected_server_role is required'')
      else if (case gw_server_certificate_sha256 c of None \<Rightarrow> False | Some s \<Rightarrow>
          length (normal_digest s) \<noteq> 64 \<or> list_ex (\<lambda>ch. ch \<notin> set ''0123456789abcdef'') (normal_digest s))
        then Inl (ValueError ''server_certificate_sha256 must be a SHA-256 hex digest'')
      else if fl_le (gw_timeout_seconds c) (Fin 0) then Inl (ValueError ''timeout_seconds must be positive'')
      else if gw_max_message_bytes c \<le> 0 then Inl (ValueError ''max_message_bytes must be positive'')
      else Inr ())"

section \<open>Addresses\<close>

definition py_find :: "char \<Rightarrow> string \<Rightarrow> int" where
  "py_find ch s = (if ch \<in> set s then int (length (takeWhile (\<lambda>c. c \<noteq> ch) s)) else - 1)"

definition py_rpartition :: "char \<Rightarrow> string \<Rightarrow> string \<times> string \<times> string" where
  "py_rpartition ch s =
     (let tail = rev (takeWhile (\<lambda>c. c \<noteq> ch) (rev s))
      in if ch \<in> set s then (take (length s - length tail - 1) s, [ch], tail) else ([], [], s))"

definition port_of :: "string \<Rightarrow> int res" where
  "port_of port_text =
     (case py_int port_text of
        Inl e \<Rightarrow> Inl (ValueError ''address port must be an integer'')
      | Inr port \<Rightarrow> if 1 \<le> port \<and> port \<le> 65535 then Inr port
                    else Inl (ValueError ''address port must be between 1 and 65535''))"

definition split_host_port :: "string \<Rightarrow> (string \<times> int) res" where
  "split_host_port address =
     (let v = py_strip address
      in if v \<noteq> [] \<and> hd v = CHR ''['' then
           let closing = py_find (CHR '']'') v
           in if closing \<le> 0 \<or> closing + 2 > int (length v) \<or> v ! nat (closing + 1) \<noteq> CHR '':''
                then Inl (ValueError ''address must use host:port syntax'')
              else res_bind (port_of (drop (nat (closing + 2)) v)) (\<lambda>port. Inr (tl (take (nat closing) v), port))
         else
           let (host, separator, port_text) = py_rpartition (CHR '':'') v
           in if separator = [] \<or> host = [] then Inl (ValueError ''address must use host:port syntax'')
              else res_bind (port_of port_text) (\<lambda>port. Inr (host, port)))"

section \<open>The outside of one call\<close>

text \<open>\<open>getpeercert()\<close>: the alternative names and the subject's relative names, and the certificate's bytes.\<close>

record certificate =
  crt_subject_alt_name :: "(string \<times> string) list"
  crt_subject :: "(string \<times> string) list list"
  crt_der :: string

record HardwareProfile =
  hp_architecture :: string
  hp_operating_system :: string
  hp_logical_cpus :: int
  hp_memory_bytes :: int
  hp_accelerator :: string
  hp_accelerator_memory_bytes :: int
  hp_capabilities :: "string list"

record SecurityMetadata =
  sm_issued_at_unix :: int
  sm_nonce :: string

record UpdateMetrics =
  um_dynamic_epochs :: int
  um_loss :: fl
  um_gradient_norms :: "fl list"
  um_sample_count :: int
  um_training_duration_ms :: int

record RegisterNodeRequest =
  rr_node_id :: string
  rr_certificate_common_name :: string
  rr_hardware :: HardwareProfile
  rr_security :: SecurityMetadata
  rr_requested_capabilities :: "string list"

record RegisterNodeResponse =
  rn_accepted :: bool
  rn_registration_id :: string

record HeartbeatRequest =
  hb_node_id :: string
  hb_registration_id :: string
  hb_observed_model_version :: string
  hb_security :: SecurityMetadata

record GetGlobalModelRequest =
  gq_node_id :: string
  gq_registration_id :: string
  gq_known_model_version :: string
  gq_security :: SecurityMetadata

record SubmitLocalUpdateRequest =
  su_node_id :: string
  su_registration_id :: string
  su_round_id :: int
  su_base_model_version :: string
  su_weights_payload :: string
  su_weights_format :: string
  su_update_sha256 :: string
  su_metrics :: UpdateMetrics
  su_security :: SecurityMetadata
  su_protocol_version :: int
  su_model_id :: string
  su_schema_sha256 :: string
  su_tensor_manifest :: "TensorManifestSpec list"

record SubmitLocalUpdateResponse =
  sr_accepted :: bool
  sr_update_id :: string
  sr_reason :: string

datatype request =
    RegisterNode RegisterNodeRequest
  | Heartbeat HeartbeatRequest
  | GetGlobalModel GetGlobalModelRequest
  | SubmitLocalUpdate SubmitLocalUpdateRequest

record host_facts =
  hf_machine :: string
  hf_system :: string
  hf_release :: string
  hf_cpu_count :: "int option"
  hf_memory_total :: int
  hf_cuda :: "(string \<times> int) option"    \<comment> \<open>device name and memory, when CUDA is available\<close>

record grpc_env =
  ge_wire :: wire
  ge_tls :: "string \<Rightarrow> int \<Rightarrow> string \<Rightarrow> fl \<Rightarrow> certificate res"
  ge_channel_ready :: "fl \<Rightarrow> unit res"
  ge_read_text :: "string \<Rightarrow> string res"
  ge_host :: host_facts
  ge_time :: int
  ge_nonce :: string
  ge_register :: "RegisterNodeRequest \<Rightarrow> RegisterNodeResponse res"
  ge_heartbeat :: "HeartbeatRequest \<Rightarrow> unit res"
  ge_get_global_model :: "GetGlobalModelRequest \<Rightarrow> GlobalModel res"
  ge_submit :: "SubmitLocalUpdateRequest \<Rightarrow> SubmitLocalUpdateResponse res"

text \<open>A protobuf message rejects a number outside its unsigned field.\<close>

definition pb_uint :: "nat \<Rightarrow> int \<Rightarrow> unit res" where
  "pb_uint w n = (if 0 \<le> n \<and> n < 2 ^ w then Inr () else Inl (ValueError ''Value out of range''))"

definition hardware_profile :: "host_facts \<Rightarrow> HardwareProfile res" where
  "hardware_profile h =
     (let (accelerator, accelerator_memory) = (case hf_cuda h of None \<Rightarrow> (''cpu'', 0) | Some d \<Rightarrow> d);
          capabilities = [''pytorch'', ''multiprocessing'', ''model-update-submit''] @
            (if hf_cuda h \<noteq> None then [''cuda''] else []);
          cpus = (case hf_cpu_count h of None \<Rightarrow> 1 | Some n \<Rightarrow> if n = 0 then 1 else n)
      in res_bind (pb_uint 32 cpus) (\<lambda>_. res_bind (pb_uint 64 (hf_memory_total h)) (\<lambda>_.
         res_bind (pb_uint 64 accelerator_memory) (\<lambda>_.
           Inr \<lparr>hp_architecture = hf_machine h, hp_operating_system = hf_system h @ '' '' @ hf_release h,
                hp_logical_cpus = cpus, hp_memory_bytes = hf_memory_total h, hp_accelerator = accelerator,
                hp_accelerator_memory_bytes = accelerator_memory, hp_capabilities = capabilities\<rparr>))))"

definition security_metadata :: "grpc_env \<Rightarrow> SecurityMetadata" where
  "security_metadata g = \<lparr>sm_issued_at_unix = ge_time g, sm_nonce = ge_nonce g\<rparr>"

section \<open>The client\<close>

datatype event =
    Verified certificate
  | Sent request string      \<comment> \<open>the request and its \<open>authorization\<close> metadata\<close>
  | Accepted string          \<comment> \<open>the registration the coordinator granted\<close>

datatype option_value = IntOption int | StrOption string

record GrpcWorkerClient =
  gc_config :: GrpcWorkerConfig
  gc_options :: "(string \<times> option_value) list"
  gc_registration_id :: "string option"
  gc_identity_verified :: bool
  gc_closed :: bool
  gc_log :: "event list"

text \<open>The generated modules may be missing; \<open>None\<close> is the \<open>ImportError\<close>.\<close>

definition load_protocol_modules :: "'p option \<Rightarrow> 'p res" where
  "load_protocol_modules stubs =
     (case stubs of
        None \<Rightarrow> Inl (RuntimeError ''Python gRPC stubs are missing. Run `python scripts/generate_python_proto.py` from the repository root.'')
      | Some p \<Rightarrow> Inr p)"

definition channel_options :: "GrpcWorkerConfig \<Rightarrow> (string \<times> option_value) list" where
  "channel_options config =
     [(''grpc.max_send_message_length'', IntOption (gw_max_message_bytes config)),
      (''grpc.max_receive_message_length'', IntOption (gw_max_message_bytes config))] @
     (case gw_server_name_override config of
        None \<Rightarrow> []
      | Some s \<Rightarrow> if s = [] then []
                  else [(''grpc.ssl_target_name_override'', StrOption s), (''grpc.default_authority'', StrOption s)])"

text \<open>Construction reads the three credential files before the channel is built.\<close>

definition GrpcWorkerClient_init :: "'p option \<Rightarrow> (string \<Rightarrow> string res) \<Rightarrow> GrpcWorkerConfig \<Rightarrow> GrpcWorkerClient res" where
  "GrpcWorkerClient_init stubs read_bytes config =
     res_bind (load_protocol_modules stubs) (\<lambda>_.
     res_bind (read_bytes (gw_ca_certificate config)) (\<lambda>root_ca.
     res_bind (read_bytes (gw_client_certificate config)) (\<lambda>client_cert.
     res_bind (read_bytes (gw_client_private_key config)) (\<lambda>client_key.
       Inr \<lparr>gc_config = config, gc_options = channel_options config, gc_registration_id = None,
            gc_identity_verified = False, gc_closed = False, gc_log = []\<rparr>))))"

definition read_token :: "grpc_env \<Rightarrow> GrpcWorkerConfig \<Rightarrow> string res" where
  "read_token g c =
     res_bind (case gw_jwt_token c of
         Some t \<Rightarrow> Inr (py_strip t)
       | None \<Rightarrow> res_bind (ge_read_text g (case gw_jwt_token_file c of None \<Rightarrow> ''None'' | Some f \<Rightarrow> f)) (\<lambda>t. Inr (py_strip t)))
       (\<lambda>token. if token = [] then Inl (RuntimeError ''JWT credential is empty'') else Inr token)"

definition metadata :: "grpc_env \<Rightarrow> GrpcWorkerConfig \<Rightarrow> string res" where
  "metadata g c = res_bind (read_token g c) (\<lambda>token. Inr (''Bearer '' @ token))"

definition require_registration :: "GrpcWorkerClient \<Rightarrow> string res" where
  "require_registration c =
     (case gc_registration_id c of
        None \<Rightarrow> Inl (RuntimeError ''worker must register before invoking this RPC'')
      | Some r \<Rightarrow> if r = [] then Inl (RuntimeError ''worker must register before invoking this RPC'') else Inr r)"

text \<open>\<open>override or host\<close>, and lower-case hexadecimal.\<close>

definition server_name_of :: "GrpcWorkerConfig \<Rightarrow> string \<Rightarrow> string" where
  "server_name_of c host =
     (case gw_server_name_override c of None \<Rightarrow> host | Some s \<Rightarrow> if s = [] then host else s)"

definition hex_digit :: "nat \<Rightarrow> char" where
  "hex_digit n = ''0123456789abcdef'' ! n"

definition hexdigest :: "string \<Rightarrow> string" where
  "hexdigest bs = concat (map (\<lambda>b. let n = of_char b :: nat in [hex_digit (n div 16), hex_digit (n mod 16)]) bs)"

definition verify_server_identity :: "grpc_env \<Rightarrow> GrpcWorkerConfig \<Rightarrow> fl \<Rightarrow> certificate res" where
  "verify_server_identity g c timeout =
     res_bind (split_host_port (gw_address c)) (\<lambda>(host, port).
       let server_name = server_name_of c host
       in res_bind (ge_tls g host port server_name timeout) (\<lambda>cert.
         let expected_uri = ''spiffe://'' @ gw_expected_trust_domain c @ ''/coordinator/'' @ server_name;
             uri_sans = map snd (filter (\<lambda>(kind, v). kind = ''URI'') (crt_subject_alt_name cert));
             expected_ou = ''role:'' @ gw_expected_server_role c;
             ous = map snd (filter (\<lambda>(key, v). key = ''organizationalUnitName'') (concat (crt_subject cert)))
         in if expected_uri \<notin> set uri_sans
              then Inl (SSLCertVerificationError ''coordinator URI SAN mismatch'')
            else if expected_ou \<notin> set ous
              then Inl (SSLCertVerificationError ''coordinator certificate role mismatch'')
            else case gw_server_certificate_sha256 c of
                None \<Rightarrow> Inr cert
              | Some pin \<Rightarrow>
                  if hexdigest (w_sha256 (ge_wire g) (crt_der cert)) \<noteq> normal_digest pin
                    then Inl (SSLCertVerificationError ''coordinator certificate SHA-256 pin mismatch'')
                  else Inr cert))"

text \<open>\<open>timeout or config.timeout_seconds\<close>\<close>

definition effective_timeout :: "GrpcWorkerConfig \<Rightarrow> fl option \<Rightarrow> fl" where
  "effective_timeout c timeout =
     (case timeout of None \<Rightarrow> gw_timeout_seconds c | Some t \<Rightarrow> if t = Fin 0 then gw_timeout_seconds c else t)"

definition wait_ready :: "grpc_env \<Rightarrow> fl option \<Rightarrow> GrpcWorkerClient \<Rightarrow> GrpcWorkerClient \<times> unit res" where
  "wait_ready g timeout c =
     (let limit = effective_timeout (gc_config c) timeout
      in if gc_identity_verified c then (c, ge_channel_ready g limit)
         else case verify_server_identity g (gc_config c) limit of
             Inl e \<Rightarrow> (c, Inl e)
           | Inr cert \<Rightarrow>
               (c\<lparr>gc_identity_verified := True, gc_log := Verified cert # gc_log c\<rparr>, ge_channel_ready g limit))"

text \<open>One unary call: the metadata is evaluated first; a closed channel refuses the call.\<close>

definition unary_call :: "grpc_env \<Rightarrow> request \<Rightarrow> 'a res \<Rightarrow> GrpcWorkerClient \<Rightarrow> GrpcWorkerClient \<times> 'a res" where
  "unary_call g request answer c =
     (case metadata g (gc_config c) of
        Inl e \<Rightarrow> (c, Inl e)
      | Inr authorization \<Rightarrow>
          if gc_closed c then (c, Inl (ValueError ''Cannot invoke RPC on closed channel!''))
          else (c\<lparr>gc_log := Sent request authorization # gc_log c\<rparr>, answer))"

definition register :: "grpc_env \<Rightarrow> GrpcWorkerClient \<Rightarrow> GrpcWorkerClient \<times> RegisterNodeResponse res" where
  "register g c =
     (case hardware_profile (ge_host g) of
        Inl e \<Rightarrow> (c, Inl e)
      | Inr hardware \<Rightarrow>
          let request = \<lparr>rr_node_id = gw_node_id (gc_config c),
                rr_certificate_common_name = gw_certificate_common_name (gc_config c), rr_hardware = hardware,
                rr_security = security_metadata g, rr_requested_capabilities = [''fl-train'', ''model-update-submit'']\<rparr>
          in case unary_call g (RegisterNode request) (ge_register g request) c of
              (c, Inl e) \<Rightarrow> (c, Inl e)
            | (c, Inr response) \<Rightarrow>
                if \<not> rn_accepted response \<or> rn_registration_id response = []
                  then (c, Inl (RuntimeError ''coordinator rejected worker registration''))
                else (c\<lparr>gc_registration_id := Some (rn_registration_id response),
                        gc_log := Accepted (rn_registration_id response) # gc_log c\<rparr>, Inr response))"

definition heartbeat :: "grpc_env \<Rightarrow> string \<Rightarrow> GrpcWorkerClient \<Rightarrow> GrpcWorkerClient \<times> unit res" where
  "heartbeat g observed_model_version c =
     (case require_registration c of
        Inl e \<Rightarrow> (c, Inl e)
      | Inr registration_id \<Rightarrow>
          let request = \<lparr>hb_node_id = gw_node_id (gc_config c), hb_registration_id = registration_id,
                hb_observed_model_version = observed_model_version, hb_security = security_metadata g\<rparr>
          in unary_call g (Heartbeat request) (ge_heartbeat g request) c)"

definition get_global_model :: "grpc_env \<Rightarrow> string \<Rightarrow> GrpcWorkerClient \<Rightarrow> GrpcWorkerClient \<times> GlobalModel res" where
  "get_global_model g known_model_version c =
     (case require_registration c of
        Inl e \<Rightarrow> (c, Inl e)
      | Inr registration_id \<Rightarrow>
          let request = \<lparr>gq_node_id = gw_node_id (gc_config c), gq_registration_id = registration_id,
                gq_known_model_version = known_model_version, gq_security = security_metadata g\<rparr>
          in case unary_call g (GetGlobalModel request) (ge_get_global_model g request) c of
              (c, Inl e) \<Rightarrow> (c, Inl e)
            | (c, Inr response) \<Rightarrow>
                (c, res_bind (validate_global_model_envelope (ge_wire g) response (gw_model_id (gc_config c)))
                      (\<lambda>_. Inr response)))"

definition update_request ::
  "grpc_env \<Rightarrow> GrpcWorkerConfig \<Rightarrow> string \<Rightarrow> tensor \<Rightarrow> int \<Rightarrow> string \<Rightarrow> UpdateMetrics \<Rightarrow> SubmitLocalUpdateRequest res"
where
  "update_request g c registration_id update round_id base_model_version metrics =
     res_bind (serialize_update (ge_wire g) update) (\<lambda>payload.
     res_bind (manifest_for_payload (ge_wire g) payload) (\<lambda>manifest.
     res_bind (model_schema_sha256 (ge_wire g) manifest) (\<lambda>schema_digest.
     res_bind (pb_uint 32 (um_dynamic_epochs metrics)) (\<lambda>_.
     res_bind (pb_uint 64 (um_sample_count metrics)) (\<lambda>_.
     res_bind (pb_uint 64 (um_training_duration_ms metrics)) (\<lambda>_.
     res_bind (pb_uint 64 round_id) (\<lambda>_.
       Inr \<lparr>su_node_id = gw_node_id c, su_registration_id = registration_id, su_round_id = round_id,
            su_base_model_version = base_model_version, su_weights_payload = payload,
            su_weights_format = NETWORK_WEIGHTS_FORMAT, su_update_sha256 = w_sha256 (ge_wire g) payload,
            su_metrics = metrics, su_security = security_metadata g, su_protocol_version = MODEL_PROTOCOL_VERSION,
            su_model_id = gw_model_id c, su_schema_sha256 = schema_digest, su_tensor_manifest = manifest\<rparr>)))))))"

definition submit_update ::
  "grpc_env \<Rightarrow> tensor \<Rightarrow> int \<Rightarrow> string \<Rightarrow> UpdateMetrics \<Rightarrow> GrpcWorkerClient \<Rightarrow>
     GrpcWorkerClient \<times> SubmitLocalUpdateResponse res"
where
  "submit_update g update round_id base_model_version metrics c =
     (case require_registration c of
        Inl e \<Rightarrow> (c, Inl e)
      | Inr registration_id \<Rightarrow>
          (case update_request g (gc_config c) registration_id update round_id base_model_version metrics of
             Inl e \<Rightarrow> (c, Inl e)
           | Inr request \<Rightarrow> unary_call g (SubmitLocalUpdate request) (ge_submit g request) c))"

definition client_close :: "GrpcWorkerClient \<Rightarrow> GrpcWorkerClient" where
  "client_close c = c\<lparr>gc_closed := True\<rparr>"


section \<open>Configuration and addresses\<close>

definition wf_GrpcWorkerConfig :: "GrpcWorkerConfig \<Rightarrow> bool" where
  "wf_GrpcWorkerConfig c \<longleftrightarrow>
     py_strip (gw_address c) \<noteq> [] \<and> py_strip (gw_node_id c) \<noteq> [] \<and> py_strip (gw_certificate_common_name c) \<noteq> [] \<and>
     py_strip (gw_model_id c) \<noteq> [] \<and> length (gw_model_id c) \<le> 256 \<and>
     set (gw_model_id c) \<inter> {char_of (0::nat), char_of (13::nat), char_of (10::nat)} = {} \<and>
     given (gw_jwt_token c) \<noteq> given (gw_jwt_token_file c) \<and>
     py_strip (gw_expected_trust_domain c) \<noteq> [] \<and> py_strip (gw_expected_server_role c) \<noteq> [] \<and>
     (\<forall>s. gw_server_certificate_sha256 c = Some s \<longrightarrow>
        length (normal_digest s) = 64 \<and> set (normal_digest s) \<subseteq> set ''0123456789abcdef'') \<and>
     \<not> fl_le (gw_timeout_seconds c) (Fin 0) \<and> 0 < gw_max_message_bytes c"

interpretation grpc_config: validated_record GrpcWorkerConfig_post_init wf_GrpcWorkerConfig
proof
  fix c
  have model: "list_ex (\<lambda>ch. ch \<in> A) s \<longleftrightarrow> set s \<inter> A \<noteq> {}" for A :: "char set" and s
    by (auto simp: list_ex_iff)
  have pin: "list_ex (\<lambda>ch. ch \<notin> A) s \<longleftrightarrow> \<not> set s \<subseteq> A" for A :: "char set" and s
    by (auto simp: list_ex_iff)
  show "GrpcWorkerConfig_post_init c = Inr () \<longleftrightarrow> wf_GrpcWorkerConfig c"
    unfolding GrpcWorkerConfig_post_init_def wf_GrpcWorkerConfig_def model pin
    by (cases "gw_server_certificate_sha256 c") (auto simp: not_le not_less)
qed

lemma port_of_str:
  assumes "1 \<le> n" "n \<le> 65535"
  shows "port_of (py_str_nat n) = Inr (int n)"
proof -
  have "length (py_str_nat n) \<le> 5" using assms by (intro length_py_str_nat) simp_all
  then have "length (py_str_nat n) \<le> 4300" by simp
  from py_int_str [OF this] show ?thesis using assms by (simp add: port_of_def)
qed

lemma takeWhile_until: "x \<notin> set xs \<Longrightarrow> takeWhile (\<lambda>c. c \<noteq> x) (xs @ x # ys) = xs"
  by (induction xs) auto

lemma find_bracket:
  assumes "CHR '']'' \<notin> set host"
  shows "py_find (CHR '']'') (CHR ''['' # host @ CHR '']'' # rest) = int (Suc (length host))"
proof -
  show ?thesis using takeWhile_until [OF assms] by (simp add: py_find_def)
qed

lemma rpartition_last:
  assumes "CHR '':'' \<notin> set tail"
  shows "py_rpartition (CHR '':'') (host @ CHR '':'' # tail) = (host, '':'', tail)"
proof -
  show ?thesis
    using takeWhile_until [of "CHR '':''" "rev tail" "rev host"] assms by (simp add: py_rpartition_def Let_def)
qed

text \<open>
  C33: Addresses round-trip. For a non-empty host without white space and a port from 1 to 65535, written in decimal,
  the address \<open>host:port\<close> is split into the host and the port, unless the host starts with a bracket; and the address
  \<open>[host]:port\<close> of a host without a closing bracket (an IPv6 address, colons included) is split the same way.
\<close>

theorem split_host_port_round_trip:
  assumes "host \<noteq> []" "\<forall>c \<in> set host. \<not> py_isspace c" "1 \<le> port" "port \<le> 65535"
  shows "(hd host \<noteq> CHR ''['' \<longrightarrow> split_host_port (host @ '':'' @ py_str_nat port) = Inr (host, int port)) \<and>
    (CHR '']'' \<notin> set host \<longrightarrow> split_host_port (''['' @ host @ '']:'' @ py_str_nat port) = Inr (host, int port))"
proof (intro conjI impI)
  note port = port_of_str [OF assms(3,4)]
  have digits: "\<forall>c \<in> set (py_str_nat port). \<not> py_isspace c" "CHR '':'' \<notin> set (py_str_nat port)"
    using set_py_str_nat digit_not_space by blast+
  have space: "\<not> py_isspace (CHR '':'')" "\<not> py_isspace (CHR ''['')" "\<not> py_isspace (CHR '']'')"
    by (simp_all add: py_isspace_def)
  have strip: "py_strip (host @ '':'' @ py_str_nat port) = host @ '':'' @ py_str_nat port"
    "py_strip (''['' @ host @ '']:'' @ py_str_nat port) = ''['' @ host @ '']:'' @ py_str_nat port"
    using assms(2) digits(1) space by (intro py_strip_no_space; auto)+
  show "split_host_port (host @ '':'' @ py_str_nat port) = Inr (host, int port)" if "hd host \<noteq> CHR ''[''"
    using that assms(1) rpartition_last [OF digits(2), of host] port
    unfolding split_host_port_def strip Let_def by simp
  show "split_host_port (''['' @ host @ '']:'' @ py_str_nat port) = Inr (host, int port)" if "CHR '']'' \<notin> set host"
  proof -
    let ?v = "''['' @ host @ '']:'' @ py_str_nat port"
    have find: "py_find (CHR '']'') ?v = int (Suc (length host))"
      using find_bracket [OF that, of "'':'' @ py_str_nat port"] by simp
    have cut: "nat (int (Suc (length host)) + 1) = Suc (Suc (length host))" "nat (int (Suc (length host)) + 2) = Suc (Suc (Suc (length host)))"
        "nat (int (Suc (length host))) = Suc (length host)" by simp_all
    have v: "?v ! (Suc (Suc (length host))) = CHR '':''" "drop (Suc (Suc (Suc (length host)))) ?v = py_str_nat port" "take (Suc (length host)) ?v = CHR ''['' # host"
        "Suc (Suc (Suc (length host))) \<le> length ?v" "?v \<noteq> []" "hd ?v = CHR ''[''"
      by (simp_all add: nth_append)
    show ?thesis
      unfolding split_host_port_def strip Let_def find cut v port using v(4,5,6) by simp
  qed
qed

theorem split_host_port_round_trip_witness:
  "split_host_port ''coordinator:50051'' = Inr (''coordinator'', 50051) \<and>
   split_host_port ''[::1]:443'' = Inr (''::1'', 443)"
proof -
  have "py_str_nat 50051 = ''50051''" "py_str_nat 443 = ''443''"
    by (simp_all add: py_str_nat.simps char_of_def bit_0)
  then show ?thesis
    using split_host_port_round_trip [of "''coordinator''" 50051] split_host_port_round_trip [of "''::1''" 443]
    by (simp add: py_isspace_def)
qed


section \<open>The session\<close>

text \<open>What a certificate must show for a configuration, and what a submitted update must carry.\<close>

definition identity_ok :: "wire \<Rightarrow> GrpcWorkerConfig \<Rightarrow> certificate \<Rightarrow> bool" where
  "identity_ok W c cert \<longleftrightarrow>
     (\<exists>host port. split_host_port (gw_address c) = Inr (host, port) \<and>
        (''URI'', ''spiffe://'' @ gw_expected_trust_domain c @ ''/coordinator/'' @ server_name_of c host)
          \<in> set (crt_subject_alt_name cert)) \<and>
     (''organizationalUnitName'', ''role:'' @ gw_expected_server_role c) \<in> set (concat (crt_subject cert)) \<and>
     (\<forall>pin. gw_server_certificate_sha256 c = Some pin \<longrightarrow> hexdigest (w_sha256 W (crt_der cert)) = normal_digest pin)"

definition submission_ok :: "wire \<Rightarrow> GrpcWorkerConfig \<Rightarrow> SubmitLocalUpdateRequest \<Rightarrow> bool" where
  "submission_ok W c q \<longleftrightarrow>
     su_protocol_version q = 1 \<and> su_model_id q = gw_model_id c \<and>
     su_update_sha256 q = w_sha256 W (su_weights_payload q) \<and>
     (\<exists>xs b. deserialize_update W (su_weights_payload q) = Inr xs \<and> xs \<noteq> [] \<and> list_all is_fin xs \<and>
        su_tensor_manifest q = flat_manifest (length xs) \<and> schema_bytes (su_tensor_manifest q) = Inr b \<and>
        su_schema_sha256 q = w_sha256 W b)"

text \<open>Node and registration a request names, and the registration granted last.\<close>

fun request_identity :: "request \<Rightarrow> string \<times> string option" where
  "request_identity (RegisterNode q) = (rr_node_id q, None)"
| "request_identity (Heartbeat q) = (hb_node_id q, Some (hb_registration_id q))"
| "request_identity (GetGlobalModel q) = (gq_node_id q, Some (gq_registration_id q))"
| "request_identity (SubmitLocalUpdate q) = (su_node_id q, Some (su_registration_id q))"

fun granted :: "event list \<Rightarrow> string option" where
  "granted [] = None"
| "granted (Accepted r # l) = Some r"
| "granted (e # l) = granted l"

fun session_ok :: "wire \<Rightarrow> GrpcWorkerConfig \<Rightarrow> event list \<Rightarrow> bool" where
  "session_ok W c [] = True"
| "session_ok W c (Verified cert # l) = (identity_ok W c cert \<and> session_ok W c l)"
| "session_ok W c (Accepted r # l) =
     (r \<noteq> [] \<and> (case l of Sent (RegisterNode q) a # _ \<Rightarrow> True | _ \<Rightarrow> False) \<and> session_ok W c l)"
| "session_ok W c (Sent q a # l) =
     (take 7 a = ''Bearer '' \<and> 7 < length a \<and> fst (request_identity q) = gw_node_id c \<and>
      (case snd (request_identity q) of None \<Rightarrow> True | Some r \<Rightarrow> granted l = Some r) \<and>
      (case q of SubmitLocalUpdate s \<Rightarrow> submission_ok W c s | _ \<Rightarrow> True) \<and> session_ok W c l)"

definition session_inv :: "wire \<Rightarrow> GrpcWorkerClient \<Rightarrow> bool" where
  "session_inv W c \<longleftrightarrow>
     session_ok W (gc_config c) (gc_log c) \<and> gc_registration_id c = granted (gc_log c) \<and>
     (gc_identity_verified c \<longrightarrow> (\<exists>cert. Verified cert \<in> set (gc_log c)))"

text \<open>The contract of an operation of the client: it keeps the configuration, the log and the session invariant.\<close>

locale client_operation =
  fixes W :: wire and operation :: "GrpcWorkerClient \<Rightarrow> GrpcWorkerClient \<times> 'a res"
  assumes keeps_config: "gc_config (fst (operation c)) = gc_config c"
    and keeps_log: "set (gc_log c) \<subseteq> set (gc_log (fst (operation c)))"
    and keeps_inv: "session_inv W c \<Longrightarrow> session_inv W (fst (operation c))"
begin

lemma step:
  "operation c = (d, r) \<Longrightarrow> session_inv W c \<Longrightarrow>
     session_inv W d \<and> gc_config d = gc_config c \<and> set (gc_log c) \<subseteq> set (gc_log d)"
  using keeps_config [of c] keeps_inv [of c] keeps_log [of c] by simp

lemma repeated: "session_inv W c \<Longrightarrow> session_inv W (((\<lambda>c. fst (operation c)) ^^ n) c)"
  by (induction n) (simp_all add: keeps_inv)

end

lemma metadata_Inr: "metadata g c = Inr a \<Longrightarrow> take 7 a = ''Bearer '' \<and> 7 < length a"
  by (auto simp: metadata_def read_token_def res_simps split: if_splits)

lemma unary_call_cases:
  obtains e where "unary_call g q answer c = (c, Inl e)"
  | a where "metadata g (gc_config c) = Inr a" "unary_call g q answer c = (c\<lparr>gc_log := Sent q a # gc_log c\<rparr>, answer)"
  by (cases "metadata g (gc_config c)"; cases "gc_closed c") (auto simp: unary_call_def)

lemma session_inv_sent:
  assumes "session_inv W c" "metadata g (gc_config c) = Inr a" "fst (request_identity q) = gw_node_id (gc_config c)"
    and "\<forall>r. snd (request_identity q) = Some r \<longrightarrow> granted (gc_log c) = Some r"
    and "\<forall>s. q = SubmitLocalUpdate s \<longrightarrow> submission_ok W (gc_config c) s"
  shows "session_inv W (c\<lparr>gc_log := Sent q a # gc_log c\<rparr>)"
  using assms metadata_Inr [OF assms(2)] by (auto simp: session_inv_def split: option.splits request.splits)

lemma require_registration_Inr:
  "session_inv W c \<Longrightarrow> require_registration c = Inr r \<Longrightarrow> granted (gc_log c) = Some r"
  by (auto simp: require_registration_def session_inv_def split: option.splits if_splits)

lemma registered_call:
  assumes "session_inv W c" "require_registration c = Inr r" "request_identity q = (gw_node_id (gc_config c), Some r)"
    and "\<forall>s. q = SubmitLocalUpdate s \<longrightarrow> submission_ok W (gc_config c) s"
  shows "session_inv W (fst (unary_call g q answer c))"
proof (cases rule: unary_call_cases [of g q answer c])
  case (2 a)
  then show ?thesis using session_inv_sent [OF assms(1) 2(1), of q] require_registration_Inr [OF assms(1,2)] assms(3,4) by simp
qed (use assms(1) in simp)

lemma unary_call_keeps [simp]:
  "gc_config (fst (unary_call g q answer c)) = gc_config c"
  "set (gc_log c) \<subseteq> set (gc_log (fst (unary_call g q answer c)))"
  by (cases rule: unary_call_cases [of g q answer c]; auto)+

lemma verify_server_identity_Inr:
  "verify_server_identity g c timeout = Inr cert \<Longrightarrow> identity_ok (ge_wire g) c cert"
  by (fastforce simp: verify_server_identity_def identity_ok_def res_simps Let_def split: if_splits option.splits prod.splits)

lemma update_request_Inr:
  assumes "update_request g c r update round_id base metrics = Inr q"
  shows "request_identity (SubmitLocalUpdate q) = (gw_node_id c, Some r)" "submission_ok (ge_wire g) c q"
proof -
  from assms obtain payload xs b where p: "serialize_update (ge_wire g) update = Inr payload"
      "deserialize_update (ge_wire g) payload = Inr xs" "schema_bytes (flat_manifest (length xs)) = Inr b"
    and q: "su_node_id q = gw_node_id c" "su_registration_id q = r" "su_protocol_version q = 1" "su_model_id q = gw_model_id c"
      "su_weights_payload q = payload" "su_update_sha256 q = w_sha256 (ge_wire g) payload"
      "su_schema_sha256 q = w_sha256 (ge_wire g) b" "su_tensor_manifest q = flat_manifest (length xs)"
    by (auto simp: update_request_def manifest_for_payload_def model_schema_sha256_def MODEL_PROTOCOL_VERSION_def res_simps)
  show "request_identity (SubmitLocalUpdate q) = (gw_node_id c, Some r)" using q by simp
  have "xs \<noteq> [] \<and> list_all is_fin xs"
    using p(2) by (auto simp: deserialize_update_def all_finite_def Let_def res_simps split: if_splits)
  then show "submission_ok (ge_wire g) c q" using p q by (auto simp: submission_ok_def)
qed

interpretation wait_ready: client_operation "ge_wire g" "wait_ready g timeout" for g timeout
proof
  fix c
  show "gc_config (fst (wait_ready g timeout c)) = gc_config c"
    by (auto simp: wait_ready_def Let_def split: sum.splits)
  show "set (gc_log c) \<subseteq> set (gc_log (fst (wait_ready g timeout c)))"
    by (auto simp: wait_ready_def Let_def split: sum.splits)
  assume inv: "session_inv (ge_wire g) c"
  show "session_inv (ge_wire g) (fst (wait_ready g timeout c))"
  proof (cases "gc_identity_verified c \<or> (\<exists>e. verify_server_identity g (gc_config c) (effective_timeout (gc_config c) timeout) = Inl e)")
    case False
    then obtain cert where "verify_server_identity g (gc_config c) (effective_timeout (gc_config c) timeout) = Inr cert"
      by (metis sum.exhaust)
    with False inv show ?thesis
      by (auto simp: wait_ready_def Let_def session_inv_def dest: verify_server_identity_Inr)
  qed (use inv in \<open>auto simp: wait_ready_def Let_def\<close>)
qed

lemma register_cases:
  obtains (Unsent) e where "register g c = (c, Inl e)"
  | (Answered) q a d where "metadata g (gc_config c) = Inr a" "rr_node_id q = gw_node_id (gc_config c)"
      "d = c\<lparr>gc_log := Sent (RegisterNode q) a # gc_log c\<rparr>"
      "register g c = (case ge_register g q of Inl e \<Rightarrow> (d, Inl e) | Inr response \<Rightarrow>
         if \<not> rn_accepted response \<or> rn_registration_id response = []
           then (d, Inl (RuntimeError ''coordinator rejected worker registration''))
         else (d\<lparr>gc_registration_id := Some (rn_registration_id response),
                 gc_log := Accepted (rn_registration_id response) # gc_log d\<rparr>, Inr response))"
proof (cases "hardware_profile (ge_host g)")
  case (Inl e)
  then show thesis using Unsent by (simp add: register_def)
next
  case (Inr hardware)
  define q where "q = \<lparr>rr_node_id = gw_node_id (gc_config c), rr_certificate_common_name = gw_certificate_common_name (gc_config c),
    rr_hardware = hardware, rr_security = security_metadata g, rr_requested_capabilities = [''fl-train'', ''model-update-submit'']\<rparr>"
  have eq: "register g c = (case unary_call g (RegisterNode q) (ge_register g q) c of (c, Inl e) \<Rightarrow> (c, Inl e)
    | (c, Inr response) \<Rightarrow> if \<not> rn_accepted response \<or> rn_registration_id response = []
        then (c, Inl (RuntimeError ''coordinator rejected worker registration''))
      else (c\<lparr>gc_registration_id := Some (rn_registration_id response),
              gc_log := Accepted (rn_registration_id response) # gc_log c\<rparr>, Inr response))"
    unfolding register_def Inr sum.case Let_def q_def ..
  show thesis
  proof (cases rule: unary_call_cases [of g "RegisterNode q" "ge_register g q" c])
    case (1 e)
    show thesis by (rule Unsent [of e]) (simp add: eq 1)
  next
    case (2 a)
    show thesis
      by (rule Answered [OF 2(1) _ refl, of q]) (simp add: q_def, simp add: eq 2(2) split: sum.split)
  qed
qed

interpretation register: client_operation "ge_wire g" "register g" for g
proof
  fix c
  show "gc_config (fst (register g c)) = gc_config c"
    by (cases rule: register_cases [of g c]) (simp_all split: sum.split)
  show "set (gc_log c) \<subseteq> set (gc_log (fst (register g c)))"
    by (cases rule: register_cases [of g c]) (auto split: sum.split)
  assume inv: "session_inv (ge_wire g) c"
  show "session_inv (ge_wire g) (fst (register g c))"
  proof (cases rule: register_cases [of g c])
    case (Answered q a d)
    have d: "session_inv (ge_wire g) d"
      unfolding Answered(3) using inv Answered(1,2) by (intro session_inv_sent) simp_all
    then have "session_inv (ge_wire g) (d\<lparr>gc_registration_id := Some r, gc_log := Accepted r # gc_log d\<rparr>)" if "r \<noteq> []" for r
      using that Answered(3) by (simp add: session_inv_def)
    with d show ?thesis unfolding Answered(4) by (simp split: sum.split)
  qed (use inv in simp)
qed

interpretation heartbeat: client_operation "ge_wire g" "heartbeat g version" for g version
proof
  fix c
  show "gc_config (fst (heartbeat g version c)) = gc_config c"
    by (simp add: heartbeat_def Let_def split: sum.splits)
  show "set (gc_log c) \<subseteq> set (gc_log (fst (heartbeat g version c)))"
    by (simp add: heartbeat_def Let_def split: sum.splits)
  assume "session_inv (ge_wire g) c"
  then show "session_inv (ge_wire g) (fst (heartbeat g version c))"
    by (auto simp: heartbeat_def Let_def intro!: registered_call split: sum.splits)
qed

interpretation get_global_model: client_operation "ge_wire g" "get_global_model g version" for g version
proof
  fix c
  let ?call = "\<lambda>r. let q = \<lparr>gq_node_id = gw_node_id (gc_config c), gq_registration_id = r,
      gq_known_model_version = version, gq_security = security_metadata g\<rparr>
    in unary_call g (GetGlobalModel q) (ge_get_global_model g q) c"
  have state: "fst (get_global_model g version c) = (case require_registration c of Inl e \<Rightarrow> c | Inr r \<Rightarrow> fst (?call r))"
    by (auto simp: get_global_model_def Let_def split: sum.splits prod.splits)
  show "gc_config (fst (get_global_model g version c)) = gc_config c"
    unfolding state by (simp add: Let_def split: sum.splits)
  show "set (gc_log c) \<subseteq> set (gc_log (fst (get_global_model g version c)))"
    unfolding state by (simp add: Let_def split: sum.splits)
  assume "session_inv (ge_wire g) c"
  then show "session_inv (ge_wire g) (fst (get_global_model g version c))"
    unfolding state by (auto simp: Let_def intro!: registered_call split: sum.splits)
qed

interpretation submit_update: client_operation "ge_wire g" "submit_update g update round_id base metrics" for g update round_id base metrics
proof
  fix c
  show "gc_config (fst (submit_update g update round_id base metrics c)) = gc_config c"
    by (simp add: submit_update_def split: sum.splits)
  show "set (gc_log c) \<subseteq> set (gc_log (fst (submit_update g update round_id base metrics c)))"
    by (simp add: submit_update_def split: sum.splits)
  assume "session_inv (ge_wire g) c"
  then show "session_inv (ge_wire g) (fst (submit_update g update round_id base metrics c))"
    by (auto simp: submit_update_def intro!: registered_call dest: update_request_Inr split: sum.splits)
qed

datatype call =
    CallWaitReady "fl option"
  | CallRegister
  | CallHeartbeat string
  | CallGetGlobalModel string
  | CallSubmitUpdate tensor int string UpdateMetrics
  | CallClose

fun client_call :: "grpc_env \<Rightarrow> call \<Rightarrow> GrpcWorkerClient \<Rightarrow> GrpcWorkerClient" where
  "client_call g (CallWaitReady timeout) c = fst (wait_ready g timeout c)"
| "client_call g CallRegister c = fst (register g c)"
| "client_call g (CallHeartbeat version) c = fst (heartbeat g version c)"
| "client_call g (CallGetGlobalModel version) c = fst (get_global_model g version c)"
| "client_call g (CallSubmitUpdate update round_id base metrics) c = fst (submit_update g update round_id base metrics c)"
| "client_call g CallClose c = client_close c"

fun client_calls :: "(grpc_env \<times> call) list \<Rightarrow> GrpcWorkerClient \<Rightarrow> GrpcWorkerClient" where
  "client_calls [] c = c"
| "client_calls ((g, k) # calls) c = client_calls calls (client_call g k c)"

lemma client_close_inv [simp]: "session_inv W (client_close c) = session_inv W c" "gc_config (client_close c) = gc_config c"
  by (simp_all add: client_close_def session_inv_def)

lemma client_call_inv:
  "session_inv (ge_wire g) c \<Longrightarrow> session_inv (ge_wire g) (client_call g k c) \<and> gc_config (client_call g k c) = gc_config c"
  by (cases k)
    (simp_all add: wait_ready.keeps_inv wait_ready.keeps_config register.keeps_inv register.keeps_config
      heartbeat.keeps_inv heartbeat.keeps_config get_global_model.keeps_inv get_global_model.keeps_config
      submit_update.keeps_inv submit_update.keeps_config)

lemma client_calls_inv:
  "session_inv W c \<Longrightarrow> \<forall>(g, k) \<in> set calls. ge_wire g = W \<Longrightarrow>
     session_inv W (client_calls calls c) \<and> gc_config (client_calls calls c) = gc_config c"
proof (induction calls c rule: client_calls.induct)
  case (2 g k calls c)
  have "session_inv W (client_call g k c) \<and> gc_config (client_call g k c) = gc_config c"
    using 2 client_call_inv [of g c k] by auto
  then show ?case using 2 by simp
qed simp

lemma verified_in_log: "session_ok W c l \<Longrightarrow> Verified cert \<in> set l \<Longrightarrow> identity_ok W c cert"
  by (induction W c l rule: session_ok.induct) (auto split: if_splits)



section \<open>A session\<close>

definition grpc_config_example :: GrpcWorkerConfig where
  "grpc_config_example = \<lparr>gw_address = ''coordinator:50051'', gw_node_id = ''edge-01'', gw_certificate_common_name = ''edge-01'',
     gw_ca_certificate = ''ca.crt'', gw_client_certificate = ''edge-01.crt'', gw_client_private_key = ''edge-01.key'',
     gw_model_id = ''global-model'', gw_jwt_token = Some ''jwt'', gw_jwt_token_file = None, gw_server_name_override = None,
     gw_expected_trust_domain = ''zerotrust-fl.local'', gw_expected_server_role = ''coordinator'',
     gw_server_certificate_sha256 = None, gw_timeout_seconds = Fin 10, gw_max_message_bytes = 8388608\<rparr>"

definition certificate_example :: certificate where
  "certificate_example = \<lparr>
     crt_subject_alt_name = [(''DNS'', ''coordinator''), (''URI'', ''spiffe://zerotrust-fl.local/coordinator/coordinator'')],
     crt_subject = [[(''commonName'', ''coordinator'')], [(''organizationalUnitName'', ''role:coordinator'')]],
     crt_der = ''der''\<rparr>"

definition bootstrap_example :: GlobalModel where
  "bootstrap_example = \<lparr>gm_model_version = ''v0'', gm_round_id = 1, gm_weights_payload = [], gm_weights_format = [],
     gm_sha256 = [], gm_protocol_version = 1, gm_model_id = ''global-model'', gm_schema_sha256 = [], gm_tensor_manifest = []\<rparr>"

definition grpc_env_example :: grpc_env where
  "grpc_env_example = \<lparr>ge_wire = wire_example, ge_tls = (\<lambda>host port server_name timeout. Inr certificate_example),
     ge_channel_ready = (\<lambda>timeout. Inr ()), ge_read_text = (\<lambda>path. Inl (OSError ''No such file'')),
     ge_host = \<lparr>hf_machine = ''x86_64'', hf_system = ''Linux'', hf_release = ''6'', hf_cpu_count = Some 4,
       hf_memory_total = 1024, hf_cuda = None\<rparr>, ge_time = 1700000000, ge_nonce = ''n'',
     ge_register = (\<lambda>q. Inr \<lparr>rn_accepted = True, rn_registration_id = ''reg-1''\<rparr>),
     ge_heartbeat = (\<lambda>q. Inr ()), ge_get_global_model = (\<lambda>q. Inr bootstrap_example),
     ge_submit = (\<lambda>q. Inr \<lparr>sr_accepted = True, sr_update_id = ''u'', sr_reason = []\<rparr>)\<rparr>"

definition client_example :: GrpcWorkerClient where
  "client_example = \<lparr>gc_config = grpc_config_example, gc_options = channel_options grpc_config_example,
     gc_registration_id = None, gc_identity_verified = False, gc_closed = False, gc_log = []\<rparr>"

lemma address_example: "split_host_port ''coordinator:50051'' = Inr (''coordinator'', 50051)"
proof -
  have "py_strip ''coordinator:50051'' = ''coordinator:50051''"
    by (rule py_strip_no_space) (simp add: py_isspace_def)
  moreover have "port_of ''50051'' = Inr 50051"
    by (simp add: port_of_def py_int_def py_strip_no_space py_isspace_def is_digit_def digit_value_def)
  ultimately show ?thesis by (simp add: split_host_port_def py_rpartition_def)
qed

lemma metadata_example: "metadata grpc_env_example grpc_config_example = Inr ''Bearer jwt''"
  by (simp add: metadata_def read_token_def grpc_config_example_def py_strip_no_space py_isspace_def)

lemma wait_ready_example:
  "wait_ready grpc_env_example timeout client_example =
     (client_example\<lparr>gc_identity_verified := True, gc_log := [Verified certificate_example]\<rparr>, Inr ())"
  by (simp add: wait_ready_def client_example_def verify_server_identity_def grpc_config_example_def grpc_env_example_def
      address_example certificate_example_def server_name_of_def del: set_filter set_map)

lemma register_example:
  assumes "gc_config c = grpc_config_example" "\<not> gc_closed c"
  obtains q where "register grpc_env_example c = (c\<lparr>gc_registration_id := Some ''reg-1'',
      gc_log := Accepted ''reg-1'' # Sent (RegisterNode q) ''Bearer jwt'' # gc_log c\<rparr>, Inr \<lparr>rn_accepted = True, rn_registration_id = ''reg-1''\<rparr>)"
proof -
  obtain h where "hardware_profile (ge_host grpc_env_example) = Inr h"
    by (simp add: hardware_profile_def grpc_env_example_def pb_uint_def)
  then show thesis
    using that assms metadata_example by (simp add: register_def unary_call_def Let_def) (simp add: grpc_env_example_def)
qed

definition calls_example :: "(grpc_env \<times> call) list" where
  "calls_example = [(grpc_env_example, CallWaitReady None), (grpc_env_example, CallRegister)]"


text \<open>
  An empty \<open>jwt_token\<close> next to a token file passes the validation, which asks for exactly one of the two to be
  non-empty, but hides the file from \<open>_read_token\<close>, which only looks at whether \<open>jwt_token\<close> is \<open>None\<close>.
\<close>

lemma empty_token_hides_file:
  assumes "gw_jwt_token c = Some []"
  shows "metadata g c = Inl (RuntimeError ''JWT credential is empty'')"
  using assms by (simp add: metadata_def read_token_def py_strip_Nil)

end
