(* ===== verification/Grpc_Worker.thy ===== *)
theory Grpc_Worker
  imports Grpc_Client Worker Argparse
begin

text \<open>
  The long-lived networked worker, \<open>scripts/run_grpc_worker.py\<close>: registration with retries, local training on the
  global model, poisoning, local differential privacy, submission and privacy accounting. It composes the client,
  the attacks and the privacy mechanism.

  One cycle's outside is the record \<open>cycle_env\<close>; a retry attempt that starts before the deadline is one element of a
  list. Telemetry only observes and is left out, as are the console messages.
\<close>

section \<open>Arguments and configuration\<close>

record worker_args =
  wa_address :: string
  wa_server_name :: string
  wa_node_id :: string
  wa_model_id :: string
  wa_cert_dir :: string
  wa_attack :: string
  wa_collusion_scale :: fl
  wa_collusion_seed :: int
  wa_interval :: fl
  wa_samples :: int
  wa_features :: int
  wa_seed :: int
  wa_health_file :: string
  wa_once :: bool
  wa_dp :: bool
  wa_dp_clip_norm :: fl
  wa_dp_noise_multiplier :: fl
  wa_dp_delta :: fl
  wa_dp_adjacency :: string
  wa_dp_reproducible :: bool
  wa_enforce_dp_on_malicious :: bool
  wa_telemetry :: bool
  wa_metrics_host :: string
  wa_metrics_port :: int
  wa_otel_endpoint :: string
  wa_otel_insecure :: bool

definition worker_options :: "(string \<times> opt_kind) list" where
  "worker_options =
     [(''address'', OStr), (''server-name'', OStr), (''node-id'', OStr), (''model-id'', OStr), (''cert-dir'', OStr),
      (''attack'', OChoice [''none'', ''label_flip'', ''gaussian'', ''sign_flip'', ''adaptive'', ''collusion'']),
      (''collusion-scale'', OFloat), (''collusion-seed'', OInt), (''interval'', OFloat), (''samples'', OInt),
      (''features'', OInt), (''seed'', OInt), (''health-file'', OStr), (''once'', OFlag), (''dp'', OBool),
      (''dp-clip-norm'', OFloat), (''dp-noise-multiplier'', OFloat), (''dp-delta'', OFloat),
      (''dp-adjacency'', OChoice [''replace'', ''add_remove'']), (''dp-reproducible'', OBool),
      (''enforce-dp-on-malicious'', OBool), (''telemetry'', OBool), (''metrics-host'', OStr), (''metrics-port'', OInt),
      (''otel-endpoint'', OStr), (''otel-insecure'', OBool)]"

text \<open>The defaults come from the environment, in the order of the source; one that does not parse raises.\<close>

definition parse_args :: "(string \<Rightarrow> string option) \<Rightarrow> (string \<Rightarrow> fl res) \<Rightarrow> string list \<Rightarrow> worker_args res" where
  "parse_args env float_of argv =
     (let text = getenv env;
          number = (\<lambda>name fallback. float_of (getenv env name fallback));
          integer = (\<lambda>name fallback. py_int (getenv env name fallback))
      in res_bind (number ''ZTFL_COLLUSION_SCALE'' ''8'') (\<lambda>collusion_scale.
         res_bind (integer ''ZTFL_COLLUSION_SEED'' ''20271'') (\<lambda>collusion_seed.
         res_bind (number ''ZTFL_UPDATE_INTERVAL'' ''5'') (\<lambda>interval.
         res_bind (integer ''ZTFL_LOCAL_SAMPLES'' ''128'') (\<lambda>samples.
         res_bind (integer ''ZTFL_LOCAL_FEATURES'' ''16'') (\<lambda>features.
         res_bind (integer ''ZTFL_WORKER_SEED'' ''42'') (\<lambda>seed.
         res_bind (number ''ZTFL_DP_CLIP_NORM'' ''1.0'') (\<lambda>dp_clip_norm.
         res_bind (number ''ZTFL_DP_NOISE_MULTIPLIER'' ''1.0'') (\<lambda>dp_noise_multiplier.
         res_bind (number ''ZTFL_DP_DELTA'' ''1e-5'') (\<lambda>dp_delta.
         res_bind (integer ''ZTFL_METRICS_PORT'' ''9465'') (\<lambda>metrics_port.
         res_bind (parse_options float_of worker_options argv) (\<lambda>m.
           Inr \<lparr>wa_address = arg_str m ''address'' (text ''ZTFL_COORDINATOR_ADDRESS'' ''coordinator:50051''),
                wa_server_name = arg_str m ''server-name'' (text ''ZTFL_SERVER_NAME'' ''coordinator''),
                wa_node_id = arg_str m ''node-id'' (text ''ZTFL_NODE_ID'' ''edge-worker-01''),
                wa_model_id = arg_str m ''model-id'' (text ''ZTFL_MODEL_ID'' ''global-model''),
                wa_cert_dir = arg_str m ''cert-dir'' (text ''ZTFL_CERT_DIR'' ''/certs''),
                wa_attack = arg_str m ''attack'' (text ''ZTFL_ATTACK'' ''none''),
                wa_collusion_scale = arg_float m ''collusion-scale'' collusion_scale,
                wa_collusion_seed = arg_int m ''collusion-seed'' collusion_seed,
                wa_interval = arg_float m ''interval'' interval,
                wa_samples = arg_int m ''samples'' samples, wa_features = arg_int m ''features'' features,
                wa_seed = arg_int m ''seed'' seed,
                wa_health_file = arg_str m ''health-file'' (text ''ZTFL_HEALTH_FILE'' ''/tmp/ztfl-worker.ready''),
                wa_once = arg_bool m ''once'' False,
                wa_dp = arg_bool m ''dp'' (env_flag (env ''ZTFL_DP_ENABLED'') False),
                wa_dp_clip_norm = arg_float m ''dp-clip-norm'' dp_clip_norm,
                wa_dp_noise_multiplier = arg_float m ''dp-noise-multiplier'' dp_noise_multiplier,
                wa_dp_delta = arg_float m ''dp-delta'' dp_delta,
                wa_dp_adjacency = arg_str m ''dp-adjacency'' (text ''ZTFL_DP_ADJACENCY'' ''replace''),
                wa_dp_reproducible = arg_bool m ''dp-reproducible'' (env_flag (env ''ZTFL_DP_REPRODUCIBLE'') False),
                wa_enforce_dp_on_malicious =
                  arg_bool m ''enforce-dp-on-malicious'' (env_flag (env ''ZTFL_ENFORCE_DP_ON_MALICIOUS'') False),
                wa_telemetry = arg_bool m ''telemetry'' (env_flag (env ''ZTFL_TELEMETRY_ENABLED'') False),
                wa_metrics_host = arg_str m ''metrics-host'' (text ''ZTFL_METRICS_HOST'' ''127.0.0.1''),
                wa_metrics_port = arg_int m ''metrics-port'' metrics_port,
                wa_otel_endpoint = arg_str m ''otel-endpoint'' (text ''ZTFL_OTEL_ENDPOINT'' []),
                wa_otel_insecure = arg_bool m ''otel-insecure'' (env_flag (env ''ZTFL_OTEL_INSECURE'') False)\<rparr>))))))))))))"

text \<open>\<open>join\<close> is \<open>str(Path(a) / b)\<close>.\<close>

definition grpc_config_of :: "(string \<Rightarrow> string \<Rightarrow> string) \<Rightarrow> worker_args \<Rightarrow> GrpcWorkerConfig" where
  "grpc_config_of join a =
     \<lparr>gw_address = wa_address a, gw_node_id = wa_node_id a, gw_certificate_common_name = wa_node_id a,
      gw_ca_certificate = join (wa_cert_dir a) ''ca.crt'',
      gw_client_certificate = join (wa_cert_dir a) (wa_node_id a @ ''.crt''),
      gw_client_private_key = join (wa_cert_dir a) (wa_node_id a @ ''.key''), gw_model_id = wa_model_id a,
      gw_jwt_token = None, gw_jwt_token_file = Some (join (wa_cert_dir a) (wa_node_id a @ ''.jwt'')),
      gw_server_name_override = Some (wa_server_name a), gw_expected_trust_domain = ''zerotrust-fl.local'',
      gw_expected_server_role = ''coordinator'', gw_server_certificate_sha256 = None, gw_timeout_seconds = Fin 10,
      gw_max_message_bytes = 8388608\<rparr>"

definition local_dp_of :: "worker_args \<Rightarrow> LocalDPConfig" where
  "local_dp_of a =
     \<lparr>dp_enabled = wa_dp a, clip_norm = wa_dp_clip_norm a, noise_multiplier = wa_dp_noise_multiplier a,
      dp_delta = wa_dp_delta a, adjacency = wa_dp_adjacency a, orders = default_orders\<rparr>"

definition attack_of :: "worker_args \<Rightarrow> AttackConfig" where
  "attack_of a = default_AttackConfig
     \<lparr>kind := wa_attack a, source_class := Some 0, target_class := Some 1, attack_noise_std := Fin 8, sign_scale := Fin 4,
      adaptive_scale := Fin 4, adaptive_max_norm_ratio := Fin 1, collusion_scale := wa_collusion_scale a,
      collusion_seed := wa_collusion_seed a, attack_seed := wa_seed a\<rparr>"

section \<open>Registration\<close>

text \<open>The exceptions the retry loop catches.\<close>

fun retryable :: "exn \<Rightarrow> bool" where
  "retryable (RpcError code) = True"
| "retryable FutureTimeoutError = True"
| "retryable (RuntimeError msg) = True"
| "retryable e = False"

text \<open>One element per attempt that starts before the deadline.\<close>

fun register_with_retry :: "grpc_env list \<Rightarrow> GrpcWorkerClient \<Rightarrow> GrpcWorkerClient \<times> unit res" where
  "register_with_retry [] c = (c, Inl (RuntimeError ''could not register worker before startup deadline''))"
| "register_with_retry (g # attempts) c =
     (case wait_ready g (Some (Fin 3)) c of
        (c, Inl e) \<Rightarrow> if retryable e then register_with_retry attempts c else (c, Inl e)
      | (c, Inr _) \<Rightarrow>
          (case register g c of
             (c, Inl e) \<Rightarrow> if retryable e then register_with_retry attempts c else (c, Inl e)
           | (c, Inr _) \<Rightarrow> (c, Inr ())))"

section \<open>Local training\<close>

text \<open>PyTorch's part: the synthetic data of a seed, and one SGD step from a parameter vector.\<close>

record 'x synth =
  sy_data :: "int \<Rightarrow> int \<Rightarrow> int \<Rightarrow> ('x \<times> int list) res"
  sy_sgd :: "fl list \<Rightarrow> 'x \<Rightarrow> int list \<Rightarrow> (fl list \<times> fl \<times> fl list option list) res"

text \<open>\<open>nn.Linear(features, 2)\<close> has two weights per feature and two biases.\<close>

definition start_vector :: "wire \<Rightarrow> int \<Rightarrow> string \<Rightarrow> fl list res" where
  "start_vector W features payload =
     (let parameter_count = 2 * features + 2
      in if payload \<noteq> [] then
           res_bind (deserialize_update W payload) (\<lambda>global_array.
             if int (length global_array) \<noteq> parameter_count
               then Inl (ValueError ''global model vector length does not match the synthetic worker model'')
             else Inr global_array)
         else Inr (replicate (nat parameter_count) (Fin 0)))"

definition labels_of :: "labels_obj \<Rightarrow> int list" where
  "labels_of l = (case l of LabelTensor device xs \<Rightarrow> xs | OtherLabels \<Rightarrow> [])"

definition train_synthetic_update ::
  "torch \<Rightarrow> torch_rng \<Rightarrow> wire \<Rightarrow> 'x synth \<Rightarrow> fl \<Rightarrow> AttackConfig \<Rightarrow> bool \<Rightarrow> int \<Rightarrow> int \<Rightarrow> int \<Rightarrow> int \<Rightarrow> string \<Rightarrow>
     (tensor \<times> UpdateMetrics) res"
where
  "train_synthetic_update T R W Y elapsed poison malicious samples features seed round_id payload =
     res_bind (sy_data Y seed samples features) (\<lambda>(inputs, labels).
     res_bind (start_vector W features payload) (\<lambda>baseline.
     res_bind (if malicious \<and> attacks_labels poison then transform_labels R poison (LabelTensor ''cpu'' labels) round_id 0
               else Inr (LabelTensor ''cpu'' labels)) (\<lambda>training_labels.
     res_bind (sy_sgd Y baseline inputs (labels_of training_labels)) (\<lambda>(trained, loss, grads).
       let gradient_norm = gradient_norm T grads;
           update = flat_vector (map2 f32_sub trained baseline)
       in res_bind (if malicious \<and> attacks_updates poison then transform_update T R poison (PyTensor update) round_id
                    else Inr update) (\<lambda>update.
          res_bind (py_trunc (py_mul elapsed (Fin 1000))) (\<lambda>ms.
            Inr (update, \<lparr>um_dynamic_epochs = 1, um_loss = loss, um_gradient_norms = [gradient_norm],
                          um_sample_count = samples, um_training_duration_ms = max 1 ms\<rparr>)))))))"

section \<open>One cycle\<close>

record 'x cycle_env =
  cy_get :: grpc_env
  cy_submit :: grpc_env
  cy_heartbeat :: grpc_env
  cy_synth :: "'x synth"
  cy_elapsed :: fl
  cy_os_seed :: int

datatype cycle_report =
    SubmissionSkipped string                   \<comment> \<open>the gRPC status\<close>
  | DpOff string                               \<comment> \<open>the update's identifier\<close>
  | DpOn string fl fl                          \<comment> \<open>identifier, epsilon and order\<close>
  | DpBypassed string

definition is_malicious :: "worker_args \<Rightarrow> bool" where
  "is_malicious a = (wa_attack a \<noteq> ''none'')"

definition dp_applied :: "worker_args \<Rightarrow> LocalDPConfig \<Rightarrow> bool" where
  "dp_applied a ldp = (dp_enabled ldp \<and> (\<not> is_malicious a \<or> wa_enforce_dp_on_malicious a))"

text \<open>What is released for a downloaded model: the trained, possibly poisoned and possibly protected update.\<close>

definition cycle_release ::
  "torch \<Rightarrow> torch_rng \<Rightarrow> (fl \<Rightarrow> fl) \<Rightarrow> worker_args \<Rightarrow> 'x cycle_env \<Rightarrow> AttackConfig \<Rightarrow> LocalDPConfig \<Rightarrow> int \<Rightarrow> GlobalModel \<Rightarrow>
     (tensor \<times> UpdateMetrics) res"
where
  "cycle_release T R mlog a y poison ldp cycle global_model =
     res_bind (train_synthetic_update T R (ge_wire (cy_get y)) (cy_synth y) (cy_elapsed y) poison (is_malicious a)
       (wa_samples a) (wa_features a) (wa_seed a + cycle * 10007) (gm_round_id global_model)
       (gm_weights_payload global_model)) (\<lambda>(update, metrics).
     let dp_config = ldp\<lparr>dp_enabled := dp_applied a ldp\<rparr>
     in res_bind (LocalDPConfig_post_init dp_config) (\<lambda>_.
        let deterministic_seed = (if wa_dp_reproducible a then Some (wa_seed a + cycle * 104729 + 17171) else None)
        in res_bind (protect_model_update T R mlog (cy_os_seed y) update dp_config deterministic_seed) (\<lambda>protected.
           Inr (p_update protected, metrics))))"

text \<open>After an accepted submission: the heartbeat, and only then the accountant.\<close>

definition account_release ::
  "(fl \<Rightarrow> fl) \<Rightarrow> worker_args \<Rightarrow> LocalDPConfig \<Rightarrow> string \<Rightarrow> RDPAccountant \<Rightarrow> RDPAccountant \<times> cycle_report res"
where
  "account_release mlog a ldp update_id accountant =
     (if dp_applied a ldp then
        (case acc_step accountant 1 of
           Inl e \<Rightarrow> (accountant, Inl e)
         | Inr accountant \<Rightarrow>
             (accountant, res_bind (epsilon mlog accountant None) (\<lambda>(eps, order). Inr (DpOn update_id eps order))))
      else if is_malicious a \<and> dp_enabled ldp then (accountant, Inr (DpBypassed update_id))
      else (accountant, Inr (DpOff update_id)))"

definition run_cycle ::
  "torch \<Rightarrow> torch_rng \<Rightarrow> (fl \<Rightarrow> fl) \<Rightarrow> worker_args \<Rightarrow> 'x cycle_env \<Rightarrow> AttackConfig \<Rightarrow> LocalDPConfig \<Rightarrow> int \<Rightarrow>
     GrpcWorkerClient \<times> RDPAccountant \<Rightarrow> (GrpcWorkerClient \<times> RDPAccountant) \<times> cycle_report res"
where
  "run_cycle T R mlog a y poison ldp cycle st =
     (let (client, accountant) = st
      in case get_global_model (cy_get y) [] client of
          (client, Inl e) \<Rightarrow> ((client, accountant), Inl e)
        | (client, Inr global_model) \<Rightarrow>
            (case cycle_release T R mlog a y poison ldp cycle global_model of
               Inl e \<Rightarrow> ((client, accountant), Inl e)
             | Inr (release, metrics) \<Rightarrow>
                 (case submit_update (cy_submit y) release (gm_round_id global_model) (gm_model_version global_model) metrics client of
                    (client, Inl e) \<Rightarrow>
                      ((client, accountant),
                       case e of RpcError code \<Rightarrow>
                           if code \<in> {''FAILED_PRECONDITION'', ''ALREADY_EXISTS''} then Inr (SubmissionSkipped code) else Inl e
                         | _ \<Rightarrow> Inl e)
                  | (client, Inr response) \<Rightarrow>
                      if \<not> sr_accepted response then ((client, accountant), Inl (RuntimeError ''coordinator rejected update''))
                      else
                        (case heartbeat (cy_heartbeat y) (gm_model_version global_model) client of
                           (client, Inl e) \<Rightarrow> ((client, accountant), Inl e)
                         | (client, Inr _) \<Rightarrow>
                             (let (accountant, report) = account_release mlog a ldp (sr_update_id response) accountant
                              in ((client, accountant), report))))))"

section \<open>The process\<close>

text \<open>The loop of \<open>main\<close>, over the cycles the process lives to start; with \<open>--once\<close> it returns after the first.\<close>

fun worker_cycles ::
  "torch \<Rightarrow> torch_rng \<Rightarrow> (fl \<Rightarrow> fl) \<Rightarrow> worker_args \<Rightarrow> AttackConfig \<Rightarrow> LocalDPConfig \<Rightarrow> int \<Rightarrow> 'x cycle_env list \<Rightarrow>
     GrpcWorkerClient \<times> RDPAccountant \<Rightarrow> (GrpcWorkerClient \<times> RDPAccountant) \<times> cycle_report list \<times> unit res"
where
  "worker_cycles T R mlog a poison ldp cycle [] st = (st, [], Inr ())"
| "worker_cycles T R mlog a poison ldp cycle (y # ys) st =
     (case run_cycle T R mlog a y poison ldp cycle st of
        (st, Inl e) \<Rightarrow> (st, [], Inl e)
      | (st, Inr report) \<Rightarrow>
          if wa_once a then (st, [report], Inr ())
          else let (st, reports, outcome) = worker_cycles T R mlog a poison ldp (cycle + 1) ys st
               in (st, report # reports, outcome))"

text \<open>The configurations are validated before a client is built.\<close>

definition worker_setup ::
  "(string \<Rightarrow> string \<Rightarrow> string) \<Rightarrow> 'p option \<Rightarrow> (string \<Rightarrow> string res) \<Rightarrow> worker_args \<Rightarrow>
     (GrpcWorkerClient \<times> RDPAccountant \<times> AttackConfig) res"
where
  "worker_setup join stubs read_bytes a =
     res_bind (GrpcWorkerConfig_post_init (grpc_config_of join a)) (\<lambda>_.
     res_bind (LocalDPConfig_post_init (local_dp_of a)) (\<lambda>_.
     res_bind (RDPAccountant_init (local_dp_of a) 0) (\<lambda>accountant.
     res_bind (make_attack (attack_of a)) (\<lambda>poison.
     res_bind (GrpcWorkerClient_init stubs read_bytes (grpc_config_of join a)) (\<lambda>client.
       Inr (client, accountant, poison))))))"

text \<open>
  \<open>main\<close>: the context manager closes the client whatever happens. \<open>None\<close> for the state: no client was built.
\<close>

definition worker_main ::
  "torch \<Rightarrow> torch_rng \<Rightarrow> (fl \<Rightarrow> fl) \<Rightarrow> (string \<Rightarrow> string \<Rightarrow> string) \<Rightarrow> 'p option \<Rightarrow> (string \<Rightarrow> string res) \<Rightarrow> unit res \<Rightarrow>
     worker_args \<Rightarrow> grpc_env list \<Rightarrow> 'x cycle_env list \<Rightarrow>
     (GrpcWorkerClient \<times> RDPAccountant) option \<times> cycle_report list \<times> unit res"
where
  "worker_main T R mlog join stubs read_bytes write_health a attempts ys =
     (case worker_setup join stubs read_bytes a of
        Inl e \<Rightarrow> (None, [], Inl e)
      | Inr (client, accountant, poison) \<Rightarrow>
          (case register_with_retry attempts client of
             (client, Inl e) \<Rightarrow> (Some (client_close client, accountant), [], Inl e)
           | (client, Inr _) \<Rightarrow>
               (case write_health of
                  Inl e \<Rightarrow> (Some (client_close client, accountant), [], Inl e)
                | Inr _ \<Rightarrow>
                    (let ((client, accountant), reports, outcome) =
                           worker_cycles T R mlog a poison (local_dp_of a) 0 ys (client, accountant)
                     in (Some (client_close client, accountant), reports, outcome)))))"


section \<open>What leaves the worker\<close>

fun updates_sent :: "event list \<Rightarrow> SubmitLocalUpdateRequest list" where
  "updates_sent [] = []"
| "updates_sent (Sent (SubmitLocalUpdate q) a # l) = q # updates_sent l"
| "updates_sent (e # l) = updates_sent l"

text \<open>An operation that sends no update.\<close>

locale quiet_operation = client_operation +
  assumes sends_no_update: "updates_sent (gc_log (fst (operation c))) = updates_sent (gc_log c)"
begin

lemma quiet_step:
  "operation c = (d, r) \<Longrightarrow> session_inv W c \<Longrightarrow>
     session_inv W d \<and> gc_config d = gc_config c \<and> set (gc_log c) \<subseteq> set (gc_log d) \<and>
     updates_sent (gc_log d) = updates_sent (gc_log c)"
  using step [of c d r] sends_no_update [of c] by simp

end

interpretation wait_ready: quiet_operation "ge_wire g" "wait_ready g timeout" for g timeout
  by unfold_locales (auto simp: wait_ready_def Let_def split: sum.splits)

interpretation register: quiet_operation "ge_wire g" "register g" for g
proof
  fix c
  show "updates_sent (gc_log (fst (register g c))) = updates_sent (gc_log c)"
    by (cases rule: register_cases [of g c]) (simp_all split: sum.split)
qed

lemma unary_call_quiet:
  "(\<forall>s. q \<noteq> SubmitLocalUpdate s) \<Longrightarrow> updates_sent (gc_log (fst (unary_call g q answer c))) = updates_sent (gc_log c)"
  by (cases rule: unary_call_cases [of g q answer c]; cases q) simp_all

interpretation heartbeat: quiet_operation "ge_wire g" "heartbeat g version" for g version
  by unfold_locales (simp add: heartbeat_def Let_def unary_call_quiet split: sum.splits)

interpretation get_global_model: quiet_operation "ge_wire g" "get_global_model g version" for g version
proof
  fix c
  show "updates_sent (gc_log (fst (get_global_model g version c))) = updates_sent (gc_log c)"
  proof (cases "require_registration c")
    case (Inr r)
    let ?q = "\<lparr>gq_node_id = gw_node_id (gc_config c), gq_registration_id = r, gq_known_model_version = version,
      gq_security = security_metadata g\<rparr>"
    have "fst (get_global_model g version c) = fst (unary_call g (GetGlobalModel ?q) (ge_get_global_model g ?q) c)"
      by (simp add: get_global_model_def Inr Let_def split: sum.splits prod.splits)
    then show ?thesis by (simp add: unary_call_quiet)
  qed (simp add: get_global_model_def)
qed

lemma submit_update_sends:
  assumes "submit_update g update round_id base metrics c = (d, r)"
  shows "(d = c \<and> (\<exists>e. r = Inl e)) \<or>
    (\<exists>q reg. updates_sent (gc_log d) = q # updates_sent (gc_log c) \<and>
       update_request g (gc_config c) reg update round_id base metrics = Inr q \<and> r = ge_submit g q)"
proof (cases "require_registration c")
  case (Inr reg)
  show ?thesis
  proof (cases "update_request g (gc_config c) reg update round_id base metrics")
    case request: (Inr q)
    then show ?thesis
      using assms Inr by (cases rule: unary_call_cases [of g "SubmitLocalUpdate q" "ge_submit g q" c])
        (auto simp: submit_update_def)
  qed (use assms Inr in \<open>auto simp: submit_update_def\<close>)
qed (use assms in \<open>auto simp: submit_update_def\<close>)

lemma update_request_payload:
  "update_request g c reg update round_id base metrics = Inr q \<Longrightarrow>
     serialize_update (ge_wire g) update = Inr (su_weights_payload q)"
  by (auto simp: update_request_def res_simps)

definition protected_payload ::
  "torch \<Rightarrow> torch_rng \<Rightarrow> (fl \<Rightarrow> fl) \<Rightarrow> worker_args \<Rightarrow> LocalDPConfig \<Rightarrow> wire \<Rightarrow> string \<Rightarrow> bool"
where
  "protected_payload T R mlog a ldp W payload \<longleftrightarrow>
     (\<exists>update os_seed seed protected.
        protect_model_update T R mlog os_seed update (ldp\<lparr>dp_enabled := dp_applied a ldp\<rparr>) seed = Inr protected \<and>
        serialize_update W (p_update protected) = Inr payload)"

lemma cycle_release_Inr:
  assumes "cycle_release T R mlog a y poison ldp cycle m = Inr (release, metrics)"
  shows "\<exists>update seed protected. release = p_update protected \<and>
    protect_model_update T R mlog (cy_os_seed y) update (ldp\<lparr>dp_enabled := dp_applied a ldp\<rparr>) seed = Inr protected"
  using assms by (auto simp: cycle_release_def res_simps Let_def split: prod.splits)

lemma account_release_cases:
  assumes "account_release mlog a ldp update_id acc = (acc', r)"
  shows "acc_config acc' = acc_config acc"
    "dp_applied a ldp \<Longrightarrow> releases acc' = releases acc + 1 \<and> (\<forall>rep. r = Inr rep \<longrightarrow> (\<exists>eps order. rep = DpOn update_id eps order))"
    "\<not> dp_applied a ldp \<Longrightarrow> releases acc' = releases acc \<and> (r = Inr (DpBypassed update_id) \<or> r = Inr (DpOff update_id))"
  using assms by (auto simp: account_release_def acc_step_def res_simps split: if_splits)

fun counted_release :: "cycle_report \<Rightarrow> bool" where
  "counted_release (DpOn i eps order) = True"
| "counted_release rep = False"

text \<open>What a part of the run does to the session, to the updates sent and to the accountant.\<close>

definition run_effect ::
  "(string \<Rightarrow> bool) \<Rightarrow> wire \<Rightarrow> GrpcWorkerClient \<times> RDPAccountant \<Rightarrow> GrpcWorkerClient \<times> RDPAccountant \<Rightarrow> nat \<Rightarrow> bool \<Rightarrow> bool"
where
  "run_effect good W st st' n whole \<longleftrightarrow>
     session_inv W (fst st') \<and> gc_config (fst st') = gc_config (fst st) \<and>
     set (gc_log (fst st)) \<subseteq> set (gc_log (fst st')) \<and>
     (\<exists>new. updates_sent (gc_log (fst st')) = new @ updates_sent (gc_log (fst st)) \<and>
        (\<forall>q \<in> set new. good (su_weights_payload q)) \<and>
        releases (snd st) + int n \<le> releases (snd st') \<and> releases (snd st') \<le> releases (snd st) + int (length new) \<and>
        (whole \<longrightarrow> releases (snd st') = releases (snd st) + int n))"

lemma run_effect_refl: "session_inv W (fst st) \<Longrightarrow> run_effect good W st st 0 whole"
  by (simp add: run_effect_def)

lemma run_effect_trans:
  assumes "run_effect good W st st' m True" "run_effect good W st' st'' n whole"
  shows "run_effect good W st st'' (m + n) whole"
proof -
  obtain new where new: "updates_sent (gc_log (fst st')) = new @ updates_sent (gc_log (fst st))"
      "\<forall>q \<in> set new. good (su_weights_payload q)" "releases (snd st') \<le> releases (snd st) + int (length new)"
      "releases (snd st') = releases (snd st) + int m" "gc_config (fst st') = gc_config (fst st)"
      "set (gc_log (fst st)) \<subseteq> set (gc_log (fst st'))"
    using assms(1) by (auto simp: run_effect_def)
  obtain more where "updates_sent (gc_log (fst st'')) = more @ updates_sent (gc_log (fst st'))"
      "\<forall>q \<in> set more. good (su_weights_payload q)" "releases (snd st'') \<le> releases (snd st') + int (length more)"
      "releases (snd st') + int n \<le> releases (snd st'')" "whole \<longrightarrow> releases (snd st'') = releases (snd st') + int n"
      "session_inv W (fst st'')" "gc_config (fst st'') = gc_config (fst st')"
      "set (gc_log (fst st')) \<subseteq> set (gc_log (fst st''))"
    using assms(2) by (auto simp: run_effect_def)
  with new show ?thesis by (auto simp: run_effect_def intro!: exI [of _ "more @ new"])
qed

definition cycle_wires :: "'x cycle_env \<Rightarrow> wire \<Rightarrow> bool" where
  "cycle_wires y W \<longleftrightarrow> ge_wire (cy_get y) = W \<and> ge_wire (cy_submit y) = W \<and> ge_wire (cy_heartbeat y) = W"

text \<open>The part of a cycle after the release has been computed.\<close>

lemma submission_effect:
  assumes c: "session_inv W c" and W: "cycle_wires y W"
    and rel: "cycle_release T R mlog a y poison ldp cycle model = Inr (release, metrics)"
    and sub: "submit_update (cy_submit y) release (gm_round_id model) (gm_model_version model) metrics c = (d, s)"
  shows "session_inv W d \<and> gc_config d = gc_config c \<and> set (gc_log c) \<subseteq> set (gc_log d) \<and>
    (\<exists>new. updates_sent (gc_log d) = new @ updates_sent (gc_log c) \<and>
       (\<forall>q \<in> set new. protected_payload T R mlog a ldp W (su_weights_payload q)) \<and> (is_ok s \<longrightarrow> length new = 1))"
proof -
  have W: "ge_wire (cy_submit y) = W" using W by (simp add: cycle_wires_def)
  have "\<exists>new. updates_sent (gc_log d) = new @ updates_sent (gc_log c) \<and>
       (\<forall>q \<in> set new. protected_payload T R mlog a ldp W (su_weights_payload q)) \<and> (is_ok s \<longrightarrow> length new = 1)"
    using submit_update_sends [OF sub]
  proof (elim disjE exE conjE)
    fix q reg
    assume q: "updates_sent (gc_log d) = q # updates_sent (gc_log c)"
      "update_request (cy_submit y) (gc_config c) reg release (gm_round_id model) (gm_model_version model) metrics = Inr q"
    have "protected_payload T R mlog a ldp W (su_weights_payload q)"
      using cycle_release_Inr [OF rel] update_request_payload [OF q(2)] W unfolding protected_payload_def by blast
    then show ?thesis using q(1) by (intro exI [of _ "[q]"]) simp
  qed (auto intro!: exI [of _ "[]"])
  then show ?thesis using submit_update.step [OF sub] c W by simp
qed

lemma cycle_tail_effect:
  assumes c: "session_inv W c" and W: "cycle_wires y W"
    and rel: "cycle_release T R mlog a y poison ldp cycle model = Inr (release, metrics)"
    and sub: "submit_update (cy_submit y) release (gm_round_id model) (gm_model_version model) metrics c = (d, Inr response)"
    and beat: "heartbeat (cy_heartbeat y) (gm_model_version model) d = (e, h)"
    and acc: "account_release mlog a ldp (sr_update_id response) acc = (acc', r)"
  shows "run_effect (protected_payload T R mlog a ldp W) W (c, acc) (d, acc) 0 whole"
    "run_effect (protected_payload T R mlog a ldp W) W (c, acc) (e, acc) 0 whole"
    "run_effect (protected_payload T R mlog a ldp W) W (c, acc) (e, acc')
      (case r of Inl e \<Rightarrow> 0 | Inr rep \<Rightarrow> if counted_release rep then 1 else 0) (is_ok r)"
proof -
  from submission_effect [OF c W rel sub] obtain new where new: "updates_sent (gc_log d) = new @ updates_sent (gc_log c)"
      "\<forall>q \<in> set new. protected_payload T R mlog a ldp W (su_weights_payload q)" "length new = 1"
    and d: "session_inv W d" "gc_config d = gc_config c" "set (gc_log c) \<subseteq> set (gc_log d)" by auto
  have e: "session_inv W e" "gc_config e = gc_config d" "set (gc_log d) \<subseteq> set (gc_log e)" "updates_sent (gc_log e) = updates_sent (gc_log d)"
    using heartbeat.quiet_step [OF beat] d(1) W by (auto simp: cycle_wires_def)
  show "run_effect (protected_payload T R mlog a ldp W) W (c, acc) (d, acc) 0 whole"
    "run_effect (protected_payload T R mlog a ldp W) W (c, acc) (e, acc) 0 whole"
    using new d e by (auto simp: run_effect_def)
  show "run_effect (protected_payload T R mlog a ldp W) W (c, acc) (e, acc')
      (case r of Inl e \<Rightarrow> 0 | Inr rep \<Rightarrow> if counted_release rep then 1 else 0) (is_ok r)"
  proof (cases "dp_applied a ldp")
    case True
    from account_release_cases(2) [OF acc True] show ?thesis
      using new d e by (cases r) (auto simp: run_effect_def)
  next
    case False
    from account_release_cases(3) [OF acc False] show ?thesis
      using new d e by (auto simp: run_effect_def)
  qed
qed

lemma run_cycle_effect:
  assumes run: "run_cycle T R mlog a y poison ldp cycle st = (st', r)"
    and inv: "session_inv W (fst st)" and W: "cycle_wires y W"
  shows "run_effect (protected_payload T R mlog a ldp W) W st st'
    (case r of Inl e \<Rightarrow> 0 | Inr rep \<Rightarrow> if counted_release rep then 1 else 0) (is_ok r)"
proof -
  let ?good = "protected_payload T R mlog a ldp W"
  obtain c acc where st: "st = (c, acc)" by (cases st)
  obtain c1 m where get: "get_global_model (cy_get y) [] c = (c1, m)" by (cases "get_global_model (cy_get y) [] c")
  have c1: "session_inv W c1" "gc_config c1 = gc_config c" "set (gc_log c) \<subseteq> set (gc_log c1)" "updates_sent (gc_log c1) = updates_sent (gc_log c)"
    using get_global_model.quiet_step [OF get] inv W st by (auto simp: cycle_wires_def)
  have start: "run_effect ?good W st (c1, acc) 0 whole" for whole
    using c1 st by (simp add: run_effect_def)
  show ?thesis
  proof (cases "\<exists>model rel. m = Inr model \<and> cycle_release T R mlog a y poison ldp cycle model = Inr rel")
    case False
    then obtain e where "st' = (c1, acc)" "r = Inl e"
      using run st get by (auto simp: run_cycle_def split: sum.splits)
    then show ?thesis using start by simp
  next
    case True
    then obtain model release metrics where m: "m = Inr model"
      and rel: "cycle_release T R mlog a y poison ldp cycle model = Inr (release, metrics)" by auto
    obtain c2 s where sub: "submit_update (cy_submit y) release (gm_round_id model) (gm_model_version model) metrics c1 = (c2, s)"
      by (cases "submit_update (cy_submit y) release (gm_round_id model) (gm_model_version model) metrics c1")
    show ?thesis
    proof (cases s)
      case (Inl e)
      then have "st' = (c2, acc)" "(\<exists>e. r = Inl e) \<or> (\<exists>code. r = Inr (SubmissionSkipped code))"
        using run st get m rel sub by (auto simp: run_cycle_def split: exn.splits if_splits)
      moreover from submission_effect [OF c1(1) W rel sub] have "run_effect ?good W (c1, acc) (c2, acc) 0 whole" for whole
        by (auto simp: run_effect_def)
      ultimately show ?thesis using run_effect_trans [OF start] by fastforce
    next
      case (Inr response)
      obtain c3 h where beat: "heartbeat (cy_heartbeat y) (gm_model_version model) c2 = (c3, h)"
        by (cases "heartbeat (cy_heartbeat y) (gm_model_version model) c2")
      obtain acc' rep where acc: "account_release mlog a ldp (sr_update_id response) acc = (acc', rep)"
        by (cases "account_release mlog a ldp (sr_update_id response) acc")
      note tail = cycle_tail_effect [OF c1(1) W rel sub [unfolded Inr] beat acc]
      have "(st' = (c2, acc) \<and> (\<exists>e. r = Inl e)) \<or> (st' = (c3, acc) \<and> (\<exists>e. r = Inl e)) \<or> (st' = (c3, acc') \<and> r = rep)"
        using run st get m rel sub beat acc Inr by (auto simp: run_cycle_def split: if_splits sum.splits)
      then show ?thesis
        using run_effect_trans [OF start tail(1)] run_effect_trans [OF start tail(2)] run_effect_trans [OF start tail(3)]
        by (elim disjE conjE exE) simp_all
    qed
  qed
qed


lemma worker_cycles_effect:
  assumes "worker_cycles T R mlog a poison ldp cycle ys st = (st', reports, outcome)"
    and "session_inv W (fst st)" "\<forall>y \<in> set ys. cycle_wires y W"
  shows "run_effect (protected_payload T R mlog a ldp W) W st st' (length (filter counted_release reports)) (is_ok outcome)"
  using assms
proof (induction ys arbitrary: cycle st reports)
  case (Cons y ys)
  let ?good = "protected_payload T R mlog a ldp W"
  obtain st1 r where run: "run_cycle T R mlog a y poison ldp cycle st = (st1, r)"
    by (cases "run_cycle T R mlog a y poison ldp cycle st")
  note first = run_cycle_effect [OF run Cons.prems(2)]
  show ?case
  proof (cases r)
    case (Inl e)
    then have "st' = st1" "reports = []" "outcome = Inl e" using Cons.prems(1) run by auto
    then show ?thesis using first Cons.prems(3) Inl by simp
  next
    case (Inr rep)
    have one: "run_effect ?good W st st1 (if counted_release rep then 1 else 0) True"
      using first Cons.prems(3) Inr by simp
    show ?thesis
    proof (cases "wa_once a")
      case True
      then have "st' = st1" "reports = [rep]" "outcome = Inr ()" using Cons.prems(1) run Inr by auto
      then show ?thesis using one by (cases "counted_release rep") simp_all
    next
      case False
      obtain reports' where rest: "worker_cycles T R mlog a poison ldp (cycle + 1) ys st1 = (st', reports', outcome)"
          "reports = rep # reports'"
        using Cons.prems(1) run Inr False by (auto split: prod.splits)
      have "session_inv W (fst st1)" using one by (simp add: run_effect_def)
      from run_effect_trans [OF one Cons.IH [OF rest(1) this]] Cons.prems(3) show ?thesis
        using rest(2) by (cases "counted_release rep") simp_all
    qed
  qed
qed (simp add: run_effect_refl)

lemma wait_ready_verified: "wait_ready g timeout c = (d, Inr u) \<Longrightarrow> gc_identity_verified d"
  by (auto simp: wait_ready_def Let_def split: sum.splits if_splits)

lemma register_Inr:
  assumes "register g c = (d, Inr response)"
  shows "gc_registration_id d \<noteq> None \<and> gc_identity_verified d = gc_identity_verified c"
  using assms by (cases rule: register_cases [of g c]) (auto split: sum.splits if_splits)

lemma register_with_retry_effect:
  assumes "register_with_retry attempts c = (d, r)" "session_inv W c" "\<forall>g \<in> set attempts. ge_wire g = W"
  shows "session_inv W d \<and> gc_config d = gc_config c \<and> updates_sent (gc_log d) = updates_sent (gc_log c) \<and>
    (is_ok r \<longrightarrow> gc_identity_verified d \<and> gc_registration_id d \<noteq> None)"
  using assms
proof (induction attempts arbitrary: c)
  case (Cons g attempts)
  have W: "ge_wire g = W" using Cons.prems(3) by simp
  obtain c1 u where wait: "wait_ready g (Some (Fin 3)) c = (c1, u)" by (cases "wait_ready g (Some (Fin 3)) c")
  have c1: "session_inv W c1" "gc_config c1 = gc_config c" "updates_sent (gc_log c1) = updates_sent (gc_log c)"
    using wait_ready.quiet_step [OF wait] Cons.prems(2) W by auto
  obtain c2 v where reg: "register g c1 = (c2, v)" by (cases "register g c1")
  have c2: "session_inv W c2" "gc_config c2 = gc_config c" "updates_sent (gc_log c2) = updates_sent (gc_log c)"
    using register.quiet_step [OF reg] c1 W by auto
  show ?case
  proof (cases u)
    case (Inl e)
    then show ?thesis using Cons wait c1 by (auto split: if_splits)
  next
    case u: (Inr u')
    show ?thesis
    proof (cases v)
      case (Inl e)
      then show ?thesis using Cons wait reg u c2 by (auto split: if_splits)
    next
      case (Inr response)
      then have "d = c2" "r = Inr ()" using Cons.prems(1) wait reg u by auto
      then show ?thesis using c2 register_Inr [OF reg [unfolded Inr]] wait_ready_verified [OF wait [unfolded u]] by simp
    qed
  qed
qed auto

text \<open>
  C5: What a networked worker releases, over the whole process and whatever the coordinator does. When the process has
  built a client, it ends with the channel closed and a sound session. Every update that left it is the outcome of the
  privacy mechanism: clipped and noised whenever local differential privacy applies to the worker. An update only leaves
  after the coordinator's identity was verified. The accountant counts at least the cycles reported with a privacy
  budget and at most the updates sent, and exactly the former when the process ends without an exception.
\<close>

theorem worker_releases_protected:
  assumes main: "worker_main T R mlog join stubs read_bytes write_health a attempts ys = (Some (client, acc), reports, outcome)"
    and W: "\<forall>g \<in> set attempts. ge_wire g = W" "\<forall>y \<in> set ys. cycle_wires y W"
  shows "gc_closed client \<and> session_ok W (grpc_config_of join a) (gc_log client) \<and>
    (\<forall>q \<in> set (updates_sent (gc_log client)). protected_payload T R mlog a (local_dp_of a) W (su_weights_payload q)) \<and>
    (updates_sent (gc_log client) \<noteq> [] \<longrightarrow>
       (\<exists>cert. Verified cert \<in> set (gc_log client) \<and> identity_ok W (grpc_config_of join a) cert)) \<and>
    int (length (filter counted_release reports)) \<le> releases acc \<and>
    releases acc \<le> int (length (updates_sent (gc_log client))) \<and>
    (outcome = Inr () \<longrightarrow> releases acc = int (length (filter counted_release reports)))"
proof -
  let ?cfg = "grpc_config_of join a"
  obtain c0 acc0 poison where built: "worker_setup join stubs read_bytes a = Inr (c0, acc0, poison)"
    using main by (auto simp: worker_main_def split: sum.splits)
  have c0: "gc_config c0 = ?cfg" "session_inv W c0" "gc_log c0 = []" "releases acc0 = 0"
    using built by (auto simp: worker_setup_def GrpcWorkerClient_init_def RDPAccountant_init_def session_inv_def res_simps)
  note rest = worker_main_def [of T R mlog join stubs read_bytes write_health a attempts ys, unfolded built sum.case prod.case]
  obtain c1 r where retry: "register_with_retry attempts c0 = (c1, r)" by (cases "register_with_retry attempts c0")
  have c1: "session_inv W c1" "gc_config c1 = ?cfg" "updates_sent (gc_log c1) = []" "is_ok r \<longrightarrow> gc_identity_verified c1"
    using register_with_retry_effect [OF retry c0(2) W(1)] c0 by auto
  show ?thesis
  proof (cases "is_ok r \<and> is_ok write_health")
    case False
    then have "client = client_close c1" "acc = acc0" "reports = []" "outcome \<noteq> Inr ()"
      using main rest retry by (auto simp: is_ok_iff split: sum.splits)
    then show ?thesis using c0(4) c1 by (auto simp: client_close_def session_inv_def)
  next
    case True
    obtain st' where run: "worker_cycles T R mlog a poison (local_dp_of a) 0 ys (c1, acc0) = (st', reports, outcome)"
      and st': "client = client_close (fst st')" "acc = snd st'"
      using main rest retry True by (auto simp: is_ok_iff split: prod.splits)
    have "run_effect (protected_payload T R mlog a (local_dp_of a) W) W (c1, acc0) st' (length (filter counted_release reports)) (is_ok outcome)"
      using worker_cycles_effect [OF run _ W(2)] c1(1) by simp
    then have eff: "session_inv W (fst st')" "gc_config (fst st') = ?cfg" "set (gc_log c1) \<subseteq> set (gc_log (fst st'))"
        "\<forall>q \<in> set (updates_sent (gc_log (fst st'))). protected_payload T R mlog a (local_dp_of a) W (su_weights_payload q)"
        "int (length (filter counted_release reports)) \<le> releases acc" "releases acc \<le> int (length (updates_sent (gc_log (fst st'))))"
        "is_ok outcome \<longrightarrow> releases acc = int (length (filter counted_release reports))"
      using c1 c0(4) st'(2) by (auto simp: run_effect_def)
    have log: "gc_log client = gc_log (fst st')" "gc_closed client" using st'(1) by (simp_all add: client_close_def)
    obtain cert where "Verified cert \<in> set (gc_log (fst st'))"
      using c1(1,4) True eff(3) by (auto simp: session_inv_def)
    moreover have "session_ok W ?cfg (gc_log (fst st'))" using eff(1,2) by (simp add: session_inv_def)
    ultimately show ?thesis using eff log verified_in_log by auto
  qed
qed

text \<open>
  C34: The retry loop does not retry a refused connection. Before the channel is used, \<open>wait_ready\<close> opens a socket to verify
  the coordinator's identity; if that raises an \<open>OSError\<close> (the coordinator is not listening yet), the loop ends with
  it at the first attempt, whatever later attempts would have met: only gRPC errors, timeouts of the channel and
  \<open>RuntimeError\<close> are caught.
\<close>

theorem refused_connection_not_retried:
  assumes "\<not> gc_identity_verified c" "split_host_port (gw_address (gc_config c)) = Inr (host, port)"
    and "ge_tls g host port (server_name_of (gc_config c) host) (Fin 3) = Inl (OSError msg)"
  shows "register_with_retry (g # attempts) c = (c, Inl (OSError msg))"
  using assms by (simp add: wait_ready_def verify_server_identity_def effective_timeout_def)

theorem refused_connection_not_retried_witness:
  "register_with_retry [grpc_env_example\<lparr>ge_tls := (\<lambda>host port server_name timeout. Inl (OSError ''Connection refused''))\<rparr>,
       grpc_env_example] client_example = (client_example, Inl (OSError ''Connection refused'')) \<and>
   snd (register_with_retry [grpc_env_example] client_example) = Inr ()"
proof
  have "\<not> gc_identity_verified client_example" "gw_address (gc_config client_example) = ''coordinator:50051''"
    by (simp_all add: client_example_def grpc_config_example_def)
  then show "register_with_retry [grpc_env_example\<lparr>ge_tls := (\<lambda>host port server_name timeout. Inl (OSError ''Connection refused''))\<rparr>,
       grpc_env_example] client_example = (client_example, Inl (OSError ''Connection refused''))"
    using refused_connection_not_retried [of client_example "''coordinator''" 50051
        "grpc_env_example\<lparr>ge_tls := (\<lambda>host port server_name timeout. Inl (OSError ''Connection refused''))\<rparr>" "''Connection refused''"
        "[grpc_env_example]"] by (simp add: address_example)
  let ?c = "client_example\<lparr>gc_identity_verified := True, gc_log := [Verified certificate_example]\<rparr>"
  obtain d where "register grpc_env_example ?c = (d, Inr \<lparr>rn_accepted = True, rn_registration_id = ''reg-1''\<rparr>)"
    using register_example [of ?c] by (auto simp: client_example_def)
  then show "snd (register_with_retry [grpc_env_example] client_example) = Inr ()"
    by (simp add: wait_ready_example)
qed


section \<open>A worker with local differential privacy\<close>

definition worker_args_example :: worker_args where
  "worker_args_example = \<lparr>wa_address = ''coordinator:50051'', wa_server_name = ''coordinator'', wa_node_id = ''edge-01'',
     wa_model_id = ''global-model'', wa_cert_dir = ''/certs'', wa_attack = ''none'', wa_collusion_scale = Fin 8,
     wa_collusion_seed = 20271, wa_interval = Fin 5, wa_samples = 1, wa_features = 0, wa_seed = 42,
     wa_health_file = ''ready'', wa_once = True, wa_dp = True, wa_dp_clip_norm = Fin 1, wa_dp_noise_multiplier = Fin 1,
     wa_dp_delta = Fin (1 / 2), wa_dp_adjacency = ''replace'', wa_dp_reproducible = True,
     wa_enforce_dp_on_malicious = False, wa_telemetry = False, wa_metrics_host = ''127.0.0.1'', wa_metrics_port = 9465,
     wa_otel_endpoint = [], wa_otel_insecure = False\<rparr>"

definition join_example :: "string \<Rightarrow> string \<Rightarrow> string" where
  "join_example d n = d @ ''/'' @ n"

definition worker_env_example :: grpc_env where
  "worker_env_example = grpc_env_example\<lparr>ge_read_text := (\<lambda>path. Inr ''jwt'')\<rparr>"

definition cycle_env_example :: "unit cycle_env" where
  "cycle_env_example = \<lparr>cy_get = worker_env_example, cy_submit = worker_env_example, cy_heartbeat = worker_env_example,
     cy_synth = \<lparr>sy_data = (\<lambda>seed samples features. Inr ((), [0])), sy_sgd = (\<lambda>w inputs labels. Inr (w, Fin 0, []))\<rparr>,
     cy_elapsed = Fin 1, cy_os_seed = 7\<rparr>"

abbreviation log_zero :: "fl \<Rightarrow> fl" where
  "log_zero \<equiv> \<lambda>x. Fin 0"

lemma rnd64_quarters: "rnd binary64 (1 / 4) = Fin (1 / 4)" "rnd binary64 (3 / 4) = Fin (3 / 4)"
  using rnd_representable [OF fmt_ok_binary(1) representable_dyadic [of 1 binary64 "- 2"]]
    rnd_representable [OF fmt_ok_binary(1) representable_dyadic [of 3 binary64 "- 2"]]
  by (simp_all add: binary64_def power_int_minus)

lemma best_order_loop_ok:
  "\<forall>alpha \<in> set xs. is_ok (bound alpha) \<Longrightarrow> \<exists>eps order. best_order_loop bound xs b d = Inr (eps, order)"
proof (induction xs arbitrary: b d)
  case (Cons alpha xs)
  then obtain eps where "bound alpha = Inr eps" by (auto simp: is_ok_iff)
  then show ?case using Cons by simp
qed simp

lemma epsilon_zero_log:
  "\<exists>eps order. epsilon log_zero \<lparr>acc_config = local_dp_of worker_args_example, releases = 1\<rparr> None = Inr (eps, order)"
proof -
  let ?acc = "\<lparr>acc_config = local_dp_of worker_args_example, releases = 1\<rparr>"
  have "\<forall>alpha \<in> set default_orders. is_ok (order_bound log_zero ?acc (Fin (1 / 2)) alpha)"
    by (simp add: default_orders_def order_bound_def rdp_def py_div_def py_int_float_def py_float_def fl_sub_def
        local_dp_of_def worker_args_example_def rnd64_ints rnd64_halves rnd64_quarters)
  from best_order_loop_ok [OF this] obtain eps order where
    "best_order_loop (order_bound log_zero ?acc (Fin (1 / 2))) default_orders PInf (Fin (5 / 4)) = Inr (eps, order)" by blast
  then show ?thesis
    by (simp add: epsilon_def local_dp_of_def worker_args_example_def default_orders_def del: best_order_loop.simps)
qed

lemma tiny_not_zero: "rnd binary64 (1 / 10 ^ 12) \<noteq> Fin 0"
proof -
  have "representable binary64 (2 powi - 41)"
    using representable_dyadic [of 1 binary64 "- 41"] by (simp add: binary64_def)
  moreover have "(2::real) powi - 41 \<le> 1 / 10 ^ 12" by (simp add: power_int_minus field_simps)
  ultimately have "fl_le (Fin (2 powi - 41)) (rnd binary64 (1 / 10 ^ 12))" by (intro rnd_ge) simp_all
  then show ?thesis by (auto simp: power_int_minus)
qed

lemma protect_zero_example:
  "\<exists>p. protect_model_update torch_exact rng_const log_zero 7 (flat_vector [Fin 0, Fin 0]) (local_dp_of worker_args_example) (Some seed) = Inr p \<and>
     tdata (p_update p) = [Fin 0, Fin 0]"
proof -
  let ?c = "local_dp_of worker_args_example"
  have n: "t_norm torch_exact [Fin 0, Fin 0] = Fin 0" by (simp add: torch_exact_def exact_norm_def all_finite_def)
  have max: "py_max (Fin 0) (rnd binary64 (1 / 10 ^ 12)) = rnd binary64 (1 / 10 ^ 12)"
    using tiny_nonneg tiny_not_zero by (cases "rnd binary64 (1 / 10 ^ 12)") (auto simp: py_max_def)
  have "py_max (Fin 0) (rnd binary64 (1 / 10 ^ 12)) \<noteq> Fin 0" unfolding max by (rule tiny_not_zero)
  then obtain ratio where r: "py_div (clip_norm ?c) (py_max (Fin 0) (rnd binary64 (1 / 10 ^ 12))) = Inr ratio"
    by (auto simp: py_div_def)
  obtain f where f: "py_min (Fin 1) ratio = Fin f" "0 \<le> f" "f \<le> 1"
    by (rule clipping_factor_unit [OF _ _ r tiny_nonneg]) (simp_all add: local_dp_of_def worker_args_example_def)
  obtain b where "scalar_mul Float32 (Fin 0) (Fin f) = Fin b" "\<bar>b\<bar> \<le> \<bar>0\<bar>"
    by (rule clip_coordinate [OF representable_zero f(2,3)]) simp_all
  then have clip: "scalar_mul Float32 (Fin 0) (py_min (Fin 1) ratio) = Fin 0" using f(1) by simp
  have std: "dp_noise_std ?c = Fin 2"
    by (simp add: dp_noise_std_def sensitivity_def local_dp_of_def worker_args_example_def rnd64_ints)
  have noise: "scalar_mul Float32 (Fin 0) (Fin 2) = Fin 0"
    by (simp add: scalar_mul_def opmath_def fmt_of_def rnd32_ints)
  obtain eps order where e: "epsilon log_zero \<lparr>acc_config = ?c, releases = 1\<rparr> None = Inr (eps, order)" using epsilon_zero_log by blast
  have en: "dp_enabled ?c" by (simp add: local_dp_of_def worker_args_example_def)
  let ?w = "(cpu_float (flat_vector [Fin 0, Fin 0]))\<lparr>tcontiguous := True\<rparr>"
  have w: "tdata ?w = [Fin 0, Fin 0]" "tdtype ?w = Float32" by (simp_all add: cpu_float_def rnd32_ints)
  then have scaled: "tdata (scale_tensor ?w (py_min (Fin 1) ratio)) = [Fin 0, Fin 0]" by (simp add: scale_tensor_def clip)
  have noises: "map2 f32_add [Fin 0, Fin 0] (map (\<lambda>z. scalar_mul Float32 z (Fin 2)) (g_randn rng_const g 2)) = [Fin 0, Fin 0]" for g
    by (simp add: rng_const_def numeral_2_eq_2 noise [unfolded numeral_2_eq_2] rnd32_ints)
  have two: "numel (scale_tensor ?w (py_min (Fin 1) ratio)) = 2" by (simp add: numel_def scaled)
  show ?thesis
    using r e unfolding protect_model_update_def Let_def w(1) n std
    by (simp add: numel_def [of "flat_vector [Fin 0, Fin 0]"] all_finite_def en scaled two noises RDPAccountant_init_def
        del: cpu_float_simps)
qed


abbreviation worker_config_example :: GrpcWorkerConfig where
  "worker_config_example \<equiv> grpc_config_of join_example worker_args_example"

lemmas worker_config_simps = grpc_config_of_def join_example_def worker_args_example_def

lemma worker_setup_example:
  "worker_setup join_example (Some ()) (\<lambda>path. Inr ''pem'') worker_args_example =
     Inr (\<lparr>gc_config = worker_config_example, gc_options = channel_options worker_config_example, gc_registration_id = None,
            gc_identity_verified = False, gc_closed = False, gc_log = []\<rparr>,
          \<lparr>acc_config = local_dp_of worker_args_example, releases = 0\<rparr>, attack_of worker_args_example)"
proof -
  have "GrpcWorkerConfig_post_init worker_config_example = Inr ()"
    by (simp add: GrpcWorkerConfig_post_init_def worker_config_simps py_strip_no_space py_isspace_def given_def
        char_of_def bit_0)
  moreover have "LocalDPConfig_post_init (local_dp_of worker_args_example) = Inr ()"
    by (simp add: LocalDPConfig_post_init_def local_dp_of_def worker_args_example_def default_orders_def)
  moreover have "AttackConfig_post_init (attack_of worker_args_example) = Inr ()"
    by (simp add: AttackConfig_post_init_def attack_of_def worker_args_example_def default_AttackConfig_def attack_kinds_def)
  ultimately show ?thesis
    by (simp add: worker_setup_def make_attack_def GrpcWorkerClient_init_def load_protocol_modules_def RDPAccountant_init_def)
qed

lemma worker_env_fields:
  "ge_wire worker_env_example = wire_example" "ge_get_global_model worker_env_example a = Inr bootstrap_example"
  "ge_heartbeat worker_env_example b = Inr ()"
  "ge_submit worker_env_example d = Inr \<lparr>sr_accepted = True, sr_update_id = ''u'', sr_reason = []\<rparr>"
  by (simp_all add: worker_env_example_def grpc_env_example_def)

lemma worker_metadata_example: "metadata worker_env_example worker_config_example = Inr ''Bearer jwt''"
  by (simp add: metadata_def read_token_def worker_config_simps worker_env_example_def py_strip_no_space py_isspace_def)

lemma worker_wait_example:
  assumes "gc_config c = worker_config_example" "\<not> gc_identity_verified c"
  shows "wait_ready worker_env_example timeout c = (c\<lparr>gc_identity_verified := True, gc_log := Verified certificate_example # gc_log c\<rparr>, Inr ())"
  using assms
  by (simp add: wait_ready_def verify_server_identity_def worker_env_example_def grpc_env_example_def worker_config_simps
      address_example certificate_example_def server_name_of_def del: set_filter set_map)

lemma worker_register_example:
  assumes "gc_config c = worker_config_example" "\<not> gc_closed c"
  obtains q where "register worker_env_example c = (c\<lparr>gc_registration_id := Some ''reg-1'',
      gc_log := Accepted ''reg-1'' # Sent (RegisterNode q) ''Bearer jwt'' # gc_log c\<rparr>, Inr \<lparr>rn_accepted = True, rn_registration_id = ''reg-1''\<rparr>)"
proof -
  obtain h where "hardware_profile (ge_host worker_env_example) = Inr h"
    by (simp add: hardware_profile_def worker_env_example_def grpc_env_example_def pb_uint_def)
  then show thesis
    using that assms worker_metadata_example
    by (simp add: register_def unary_call_def Let_def) (simp add: worker_env_example_def grpc_env_example_def)
qed

lemma worker_rpc_example:
  assumes "gc_config c = worker_config_example" "\<not> gc_closed c" "gc_registration_id c = Some ''reg-1''"
  shows "\<exists>q. get_global_model worker_env_example [] c = (c\<lparr>gc_log := Sent (GetGlobalModel q) ''Bearer jwt'' # gc_log c\<rparr>, Inr bootstrap_example)"
    "\<exists>q. heartbeat worker_env_example v c = (c\<lparr>gc_log := Sent (Heartbeat q) ''Bearer jwt'' # gc_log c\<rparr>, Inr ())"
proof -
  have "validate_global_model_envelope wire_example bootstrap_example ''global-model'' = Inr ()"
    by (simp add: validate_global_model_envelope_def bootstrap_example_def MODEL_PROTOCOL_VERSION_def)
  moreover have "gw_model_id worker_config_example = ''global-model''" by (simp add: worker_config_simps)
  ultimately show "\<exists>q. get_global_model worker_env_example [] c = (c\<lparr>gc_log := Sent (GetGlobalModel q) ''Bearer jwt'' # gc_log c\<rparr>, Inr bootstrap_example)"
    using assms worker_metadata_example
    by (simp add: get_global_model_def require_registration_def unary_call_def Let_def worker_env_fields) (rule exI, rule refl)
  show "\<exists>q. heartbeat worker_env_example v c = (c\<lparr>gc_log := Sent (Heartbeat q) ''Bearer jwt'' # gc_log c\<rparr>, Inr ())"
    using assms worker_metadata_example
    by (simp add: heartbeat_def require_registration_def unary_call_def Let_def worker_env_fields) (rule exI, rule refl)
qed


lemma worker_submit_example:
  assumes "gc_config c = worker_config_example" "\<not> gc_closed c" "gc_registration_id c = Some ''reg-1''"
    and t: "tdata t = [Fin 0, Fin 0]"
    and m: "um_dynamic_epochs m = 1" "um_sample_count m = 1" "um_training_duration_ms m = 1000"
  shows "\<exists>q. submit_update worker_env_example t 1 ''v0'' m c =
    (c\<lparr>gc_log := Sent (SubmitLocalUpdate q) ''Bearer jwt'' # gc_log c\<rparr>, Inr \<lparr>sr_accepted = True, sr_update_id = ''u'', sr_reason = []\<rparr>)"
proof -
  obtain payload where p: "serialize_update wire_example t = Inr payload"
    using t rnd32_int [of 0] by (simp add: serialize_update_def all_finite_def)
  have "manifest_for_payload wire_example payload = Inr (flat_manifest 2)"
    using t deserialize_serialize [OF npy_ok_example p] by (simp add: manifest_for_payload_def numeral_2_eq_2)
  moreover obtain b where "schema_bytes (flat_manifest 2) = Inr b" using schema_bytes_flat [of 2] by auto
  ultimately have "is_ok (update_request worker_env_example worker_config_example ''reg-1'' t 1 ''v0'' m)"
    using p m by (simp add: update_request_def worker_env_fields model_schema_sha256_def pb_uint_def)
  then show ?thesis
    using assms(1-3) worker_metadata_example
    by (auto simp: submit_update_def require_registration_def unary_call_def Let_def worker_env_fields is_ok_iff)
qed

lemma cycle_release_example:
  "\<exists>t m. cycle_release torch_exact rng_const log_zero worker_args_example cycle_env_example (attack_of worker_args_example)
     (local_dp_of worker_args_example) 0 bootstrap_example = Inr (t, m) \<and> tdata t = [Fin 0, Fin 0] \<and>
     um_dynamic_epochs m = 1 \<and> um_sample_count m = 1 \<and> um_training_duration_ms m = 1000"
proof -
  have mal: "\<not> is_malicious worker_args_example" by (simp add: is_malicious_def worker_args_example_def)
  have ldp: "(local_dp_of worker_args_example)\<lparr>dp_enabled := dp_applied worker_args_example (local_dp_of worker_args_example)\<rparr> =
      local_dp_of worker_args_example"
    by (simp add: dp_applied_def mal local_dp_of_def)
  have fields: "wa_samples worker_args_example = 1" "wa_features worker_args_example = 0" "wa_dp_reproducible worker_args_example"
    "gm_round_id bootstrap_example = 1" "gm_weights_payload bootstrap_example = []" "cy_get cycle_env_example = worker_env_example"
    "cy_elapsed cycle_env_example = Fin 1" "cy_os_seed cycle_env_example = 7"
    by (simp_all add: worker_args_example_def bootstrap_example_def cycle_env_example_def)
  have train: "\<exists>m. train_synthetic_update torch_exact rng_const wire_example (cy_synth cycle_env_example) (Fin 1) (attack_of worker_args_example)
      False 1 0 s 1 [] = Inr (flat_vector [Fin 0, Fin 0], m) \<and>
      um_dynamic_epochs m = 1 \<and> um_sample_count m = 1 \<and> um_training_duration_ms m = 1000" for s
    using rnd32_int [of 0] rnd64_int [of 1000]
    by (simp add: train_synthetic_update_def cycle_env_example_def start_vector_def numeral_2_eq_2 fl_sub_def)
  obtain m where m: "train_synthetic_update torch_exact rng_const wire_example (cy_synth cycle_env_example) (Fin 1)
      (attack_of worker_args_example) False 1 0 (wa_seed worker_args_example) 1 [] = Inr (flat_vector [Fin 0, Fin 0], m)"
    "um_dynamic_epochs m = 1 \<and> um_sample_count m = 1 \<and> um_training_duration_ms m = 1000"
    using train by blast
  obtain p where p: "protect_model_update torch_exact rng_const log_zero 7 (flat_vector [Fin 0, Fin 0])
      (local_dp_of worker_args_example) (Some (wa_seed worker_args_example + 17171)) = Inr p" "tdata (p_update p) = [Fin 0, Fin 0]"
    using protect_zero_example by blast
  have "LocalDPConfig_post_init (local_dp_of worker_args_example) = Inr ()"
    by (simp add: LocalDPConfig_post_init_def local_dp_of_def worker_args_example_def default_orders_def)
  with m p show ?thesis by (simp add: cycle_release_def mal ldp Let_def fields worker_env_fields)
qed


lemma run_cycle_example:
  assumes "gc_config c = worker_config_example" "\<not> gc_closed c" "gc_registration_id c = Some ''reg-1''"
  shows "\<exists>q1 q2 q3 eps order. run_cycle torch_exact rng_const log_zero worker_args_example cycle_env_example
      (attack_of worker_args_example) (local_dp_of worker_args_example) 0 (c, \<lparr>acc_config = local_dp_of worker_args_example, releases = 0\<rparr>) =
    ((c\<lparr>gc_log := Sent (Heartbeat q3) ''Bearer jwt'' # Sent (SubmitLocalUpdate q2) ''Bearer jwt'' #
        Sent (GetGlobalModel q1) ''Bearer jwt'' # gc_log c\<rparr>, \<lparr>acc_config = local_dp_of worker_args_example, releases = 1\<rparr>),
     Inr (DpOn ''u'' eps order))"
proof -
  let ?sent = "\<lambda>l. c\<lparr>gc_log := l\<rparr>"
  have fields: "cy_get cycle_env_example = worker_env_example" "cy_submit cycle_env_example = worker_env_example"
    "cy_heartbeat cycle_env_example = worker_env_example" "gm_round_id bootstrap_example = 1" "gm_model_version bootstrap_example = ''v0''"
    by (simp_all add: bootstrap_example_def cycle_env_example_def)
  have on: "dp_applied worker_args_example (local_dp_of worker_args_example)"
    by (simp add: dp_applied_def is_malicious_def local_dp_of_def worker_args_example_def)
  obtain q1 where q1: "get_global_model worker_env_example [] c =
      (?sent (Sent (GetGlobalModel q1) ''Bearer jwt'' # gc_log c), Inr bootstrap_example)"
    using worker_rpc_example(1) [OF assms] by blast
  obtain t m where rel: "cycle_release torch_exact rng_const log_zero worker_args_example cycle_env_example
      (attack_of worker_args_example) (local_dp_of worker_args_example) 0 bootstrap_example = Inr (t, m)"
    and tm: "tdata t = [Fin 0, Fin 0]" "um_dynamic_epochs m = 1" "um_sample_count m = 1" "um_training_duration_ms m = 1000"
    using cycle_release_example by blast
  obtain q2 where q2: "submit_update worker_env_example t 1 ''v0'' m (?sent (Sent (GetGlobalModel q1) ''Bearer jwt'' # gc_log c)) =
      (?sent (Sent (SubmitLocalUpdate q2) ''Bearer jwt'' # Sent (GetGlobalModel q1) ''Bearer jwt'' # gc_log c),
       Inr \<lparr>sr_accepted = True, sr_update_id = ''u'', sr_reason = []\<rparr>)"
    using worker_submit_example [OF _ _ _ tm, of "?sent (Sent (GetGlobalModel q1) ''Bearer jwt'' # gc_log c)"] assms by auto
  let ?l = "Sent (SubmitLocalUpdate q2) ''Bearer jwt'' # Sent (GetGlobalModel q1) ''Bearer jwt'' # gc_log c"
  obtain q3 where q3: "heartbeat worker_env_example ''v0'' (?sent ?l) = (?sent (Sent (Heartbeat q3) ''Bearer jwt'' # ?l), Inr ())"
    using worker_rpc_example(2) [of "?sent ?l" "''v0''"] assms by auto
  obtain eps order where
    "epsilon log_zero \<lparr>acc_config = local_dp_of worker_args_example, releases = 1\<rparr> None = Inr (eps, order)"
    using epsilon_zero_log by blast
  then have "account_release log_zero worker_args_example (local_dp_of worker_args_example) ''u''
      \<lparr>acc_config = local_dp_of worker_args_example, releases = 0\<rparr> =
      (\<lparr>acc_config = local_dp_of worker_args_example, releases = 1\<rparr>, Inr (DpOn ''u'' eps order))"
    by (simp add: account_release_def on acc_step_def)
  then show ?thesis unfolding run_cycle_def Let_def prod.case fields q1 sum.case rel q2 q3 by auto
qed

theorem worker_releases_protected_witness:
  "\<exists>client acc reports q.
     worker_main torch_exact rng_const log_zero join_example (Some ()) (\<lambda>path. Inr ''pem'') (Inr ()) worker_args_example
       [worker_env_example] [cycle_env_example] = (Some (client, acc), reports, Inr ()) \<and>
     gc_closed client \<and> updates_sent (gc_log client) = [q] \<and>
     protected_payload torch_exact rng_const log_zero worker_args_example (local_dp_of worker_args_example) wire_example
       (su_weights_payload q) \<and>
     dp_applied worker_args_example (local_dp_of worker_args_example) \<and> releases acc = 1"
proof -
  let ?acc = "\<lambda>n. \<lparr>acc_config = local_dp_of worker_args_example, releases = n\<rparr>"
  define c0 where "c0 = \<lparr>gc_config = worker_config_example, gc_options = channel_options worker_config_example,
    gc_registration_id = None, gc_identity_verified = False, gc_closed = False, gc_log = []\<rparr>"
  define c1 where "c1 = c0\<lparr>gc_identity_verified := True, gc_log := Verified certificate_example # gc_log c0\<rparr>"
  have c1: "wait_ready worker_env_example (Some (Fin 3)) c0 = (c1, Inr ())"
    unfolding c1_def by (rule worker_wait_example) (simp_all add: c0_def)
  have ok1: "gc_config c1 = worker_config_example" "\<not> gc_closed c1" by (simp_all add: c1_def c0_def)
  obtain q c2 r where reg: "register worker_env_example c1 = (c2, Inr r)"
    and c2: "c2 = c1\<lparr>gc_registration_id := Some ''reg-1'',
      gc_log := Accepted ''reg-1'' # Sent (RegisterNode q) ''Bearer jwt'' # gc_log c1\<rparr>"
    using worker_register_example [OF ok1] by metis
  obtain q1 q2 q3 eps order where cyc: "run_cycle torch_exact rng_const log_zero worker_args_example cycle_env_example
      (attack_of worker_args_example) (local_dp_of worker_args_example) 0 (c2, ?acc 0) =
    ((c2\<lparr>gc_log := Sent (Heartbeat q3) ''Bearer jwt'' # Sent (SubmitLocalUpdate q2) ''Bearer jwt'' #
        Sent (GetGlobalModel q1) ''Bearer jwt'' # gc_log c2\<rparr>, ?acc 1), Inr (DpOn ''u'' eps order))"
    using run_cycle_example [of c2] ok1 by (auto simp: c2)
  define client where "client = client_close (c2\<lparr>gc_log := Sent (Heartbeat q3) ''Bearer jwt'' #
    Sent (SubmitLocalUpdate q2) ''Bearer jwt'' # Sent (GetGlobalModel q1) ''Bearer jwt'' # gc_log c2\<rparr>)"
  have once: "wa_once worker_args_example" by (simp add: worker_args_example_def)
  have main: "worker_main torch_exact rng_const log_zero join_example (Some ()) (\<lambda>path. Inr ''pem'') (Inr ()) worker_args_example
      [worker_env_example] [cycle_env_example] = (Some (client, ?acc 1), [DpOn ''u'' eps order], Inr ())"
    by (simp add: worker_main_def worker_setup_example c0_def [symmetric] c1 reg cyc once client_def)
  have W: "\<forall>g \<in> set [worker_env_example]. ge_wire g = wire_example"
    "\<forall>y \<in> set [cycle_env_example]. cycle_wires y wire_example"
    by (simp_all add: worker_env_fields cycle_env_example_def cycle_wires_def)
  have "updates_sent (gc_log client) = [q2]" by (simp add: client_def client_close_def c2 c1_def c0_def)
  moreover have "dp_applied worker_args_example (local_dp_of worker_args_example)"
    by (simp add: dp_applied_def is_malicious_def local_dp_of_def worker_args_example_def)
  ultimately show ?thesis using worker_releases_protected [OF main W] main by auto
qed

end
