(* ===== verification/Orchestrator.thy ===== *)
theory Orchestrator
  imports Simulation Grpc_Worker
begin

text \<open>
  The local orchestrator \<open>main.py\<close>: its command line and the checks on it, the names of the workers and the command
  lines it gives to the processes it starts. Those of the training process and of the networked workers are read by
  programs modelled in other theories, so the theory ends with what arrives there.

  \<open>str_float\<close> is \<open>str\<close> on floats, \<open>float_of\<close> is \<open>float\<close> on strings.
\<close>

section \<open>The command line\<close>

record orch_args =
  oa_grpc_port :: int
  oa_metrics_port :: int
  oa_benign_workers :: int
  oa_malicious_workers :: int
  oa_attack :: string
  oa_aggregator :: string
  oa_rounds :: int
  oa_dataset :: string
  oa_partition :: string
  oa_alpha :: fl
  oa_device :: string
  oa_seed :: int
  oa_worker_interval :: fl
  oa_server_name :: string
  oa_certificate_algorithm :: string
  oa_cert_dir :: string
  oa_pqc_mode :: string
  oa_force_cert_regen :: bool
  oa_network_workers :: bool
  oa_auto_install :: bool
  oa_skip_native_build :: bool
  oa_check_only :: bool
  oa_startup_timeout :: fl
  oa_shutdown_timeout :: fl
  oa_dashboard :: bool
  oa_keep_alive :: bool
  oa_websocket_port :: int

definition orch_options :: "(string \<times> opt_kind) list" where
  "orch_options =
     [(''grpc-port'', OInt), (''metrics-port'', OInt), (''benign-workers'', OInt), (''malicious-workers'', OInt),
      (''attack'', OChoice [''label_flip'', ''gaussian'', ''sign_flip'', ''adaptive'', ''collusion'']),
      (''aggregator'', OChoice [''krum'', ''multi_krum'', ''trimmed_mean'', ''median'']), (''rounds'', OInt),
      (''dataset'', OChoice [''synthetic'', ''fashion-mnist'', ''cifar10'']),
      (''partition'', OChoice [''iid'', ''dirichlet'']), (''alpha'', OFloat), (''device'', OStr), (''seed'', OInt),
      (''worker-interval'', OFloat), (''server-name'', OStr),
      (''certificate-algorithm'', OChoice [''ecdsa-p256'', ''ed25519'', ''mldsa65'']), (''cert-dir'', OStr),
      (''pqc-mode'', OChoice [''off'', ''prefer'', ''require'']), (''force-cert-regen'', OFlag),
      (''network-workers'', OBool), (''auto-install'', OBool), (''skip-native-build'', OFlag), (''check-only'', OFlag),
      (''startup-timeout'', OFloat), (''shutdown-timeout'', OFloat), (''dashboard'', OBool), (''keep-alive'', OFlag),
      (''websocket-port'', OInt)]"

text \<open>\<open>nt\<close>: the system is Windows.\<close>

definition orch_namespace :: "bool \<Rightarrow> (string \<Rightarrow> string option) \<Rightarrow> (string \<rightharpoonup> arg_value) \<Rightarrow> orch_args" where
  "orch_namespace nt env m =
     \<lparr>oa_grpc_port = arg_int m ''grpc-port'' 50051, oa_metrics_port = arg_int m ''metrics-port'' 9464,
      oa_benign_workers = arg_int m ''benign-workers'' 3, oa_malicious_workers = arg_int m ''malicious-workers'' 1,
      oa_attack = arg_str m ''attack'' ''gaussian'', oa_aggregator = arg_str m ''aggregator'' ''median'',
      oa_rounds = arg_int m ''rounds'' 5, oa_dataset = arg_str m ''dataset'' ''synthetic'',
      oa_partition = arg_str m ''partition'' ''dirichlet'', oa_alpha = arg_float m ''alpha'' (decimal (3 / 10)),
      oa_device = arg_str m ''device'' ''cpu'', oa_seed = arg_int m ''seed'' 42,
      oa_worker_interval = arg_float m ''worker-interval'' (Fin 5),
      oa_server_name = arg_str m ''server-name'' ''coordinator.local'',
      oa_certificate_algorithm = arg_str m ''certificate-algorithm''
        (getenv env ''ZTFL_CERTIFICATE_ALGORITHM'' (if nt then ''ecdsa-p256'' else ''ed25519'')),
      oa_cert_dir = arg_str m ''cert-dir'' (''security'' @ [if nt then CHR 0x5C else CHR ''/''] @ ''certs''),
      oa_pqc_mode = arg_str m ''pqc-mode'' ''prefer'', oa_force_cert_regen = arg_bool m ''force-cert-regen'' False,
      oa_network_workers = arg_bool m ''network-workers'' True, oa_auto_install = arg_bool m ''auto-install'' True,
      oa_skip_native_build = arg_bool m ''skip-native-build'' False, oa_check_only = arg_bool m ''check-only'' False,
      oa_startup_timeout = arg_float m ''startup-timeout'' (Fin 90),
      oa_shutdown_timeout = arg_float m ''shutdown-timeout'' (Fin 12), oa_dashboard = arg_bool m ''dashboard'' True,
      oa_keep_alive = arg_bool m ''keep-alive'' False, oa_websocket_port = arg_int m ''websocket-port'' 8080\<rparr>"

definition client_count :: "orch_args \<Rightarrow> int" where
  "client_count a = oa_benign_workers a + oa_malicious_workers a"

definition validate :: "orch_args \<Rightarrow> unit res" where
  "validate a =
     (let n = client_count a; f = oa_malicious_workers a
      in if n \<le> 0 \<or> f \<ge> n then Inl (OrchestratorError ''training requires at least one benign client'')
         else if oa_aggregator a \<in> {''krum'', ''multi_krum''} \<and> n < 2 * f + 3
           then Inl (OrchestratorError (oa_aggregator a @ '' needs n>=2f+3; got n='' @ py_str_int n @ '', f='' @ py_str_int f @
                  ''. Use median or add clients.''))
         else Inr ())"

definition orch_parse_args :: "bool \<Rightarrow> (string \<Rightarrow> string option) \<Rightarrow> (string \<Rightarrow> fl res) \<Rightarrow> string list \<Rightarrow> orch_args res" where
  "orch_parse_args nt env float_of argv =
     res_bind (parse_options float_of orch_options argv) (\<lambda>m.
       let a = orch_namespace nt env m in res_bind (validate a) (\<lambda>_. Inr a))"

section \<open>Commands\<close>

definition worker_ids :: "orch_args \<Rightarrow> (string list \<times> string list) res" where
  "worker_ids a =
     (let good = map (\<lambda>i. ''benign-worker-'' @ py_str_int i) [1..oa_benign_workers a];
          bad = map (\<lambda>i. ''malicious-worker-'' @ py_str_int i) [1..oa_malicious_workers a]
      in if good = [] then Inl (OrchestratorError ''at least one benign worker is required'') else Inr (good, bad))"

definition HOST :: string where
  "HOST = ''127.0.0.1''"

text \<open>\<open>str_float\<close> is \<open>str\<close> on floats; the arguments follow \<open>[sys.executable, "-u", str(TRAINER)]\<close>.\<close>

definition trainer_argv :: "(fl \<Rightarrow> string) \<Rightarrow> orch_args \<Rightarrow> string list res" where
  "trainer_argv str_float a =
     (let n = client_count a
      in res_bind (py_truediv (oa_malicious_workers a) n) (\<lambda>fraction. Inr (
        [''--dataset'', oa_dataset a, ''--clients'', py_str_int n, ''--clients-per-round'', py_str_int n,
         ''--min-results'', py_str_int n, ''--rounds'', py_str_int (oa_rounds a), ''--partition'', oa_partition a,
         ''--alpha'', str_float (oa_alpha a), ''--malicious-fraction'', str_float fraction, ''--attack'', oa_attack a,
         ''--aggregator'', oa_aggregator a, ''--backend'', ''native'', ''--device'', oa_device a,
         ''--seed'', py_str_int (oa_seed a), ''--no-telemetry''] @
        (if oa_aggregator a \<in> {''krum'', ''multi_krum''} then [''--byzantine-f'', py_str_int (oa_malicious_workers a)] else []) @
        (if oa_attack a = ''collusion'' then [''--collusion-scale'', ''8'', ''--collusion-seed'', ''20271''] else []))))"

definition coordinator_argv :: "orch_args \<Rightarrow> (string \<Rightarrow> string) \<Rightarrow> string list" where
  "coordinator_argv a cert =
     [''-listen'', HOST @ '':'' @ py_str_int (oa_grpc_port a), ''-server-cert'', cert ''server.crt'',
      ''-server-key'', cert ''server.key'', ''-client-ca'', cert ''ca.crt'', ''-jwt-public-key'', cert ''jwt_signing_public.pem'',
      ''-trust-domain'', ''zerotrust-fl.local'', ''-token-issuer'', ''zerotrust-fl-sim'',
      ''-token-audience'', ''zerotrust-fl-services'', ''-pqc-mode'', oa_pqc_mode a,
      ''-metrics-address'', HOST @ '':'' @ py_str_int (oa_metrics_port a)]"

text \<open>Node, tag, attack and seed of the networked workers.\<close>

definition network_specs :: "orch_args \<Rightarrow> string list \<Rightarrow> string list \<Rightarrow> (string \<times> string \<times> string \<times> int) list" where
  "network_specs a good bad =
     map (\<lambda>(i, node). (node, ''WORKER-BENIGN'', ''none'', 1000 + int i)) (enumerate 0 good) @
     map (\<lambda>(i, node). (node, ''WORKER-ATTACKER'', oa_attack a, 9000 + int i)) (enumerate 0 bad)"

definition worker_argv :: "(fl \<Rightarrow> string) \<Rightarrow> orch_args \<Rightarrow> string \<Rightarrow> string \<Rightarrow> string \<times> string \<times> string \<times> int \<Rightarrow> string list" where
  "worker_argv str_float a certs health_file =
     (\<lambda>(node, tag, attack_kind, seed).
        [''--address'', HOST @ '':'' @ py_str_int (oa_grpc_port a), ''--server-name'', oa_server_name a, ''--node-id'', node,
         ''--cert-dir'', certs, ''--attack'', attack_kind, ''--seed'', py_str_int seed,
         ''--interval'', str_float (oa_worker_interval a), ''--health-file'', health_file, ''--no-telemetry''])"

text \<open>What the PKI generator must have left behind, and its command.\<close>

definition required_certs :: "(string \<Rightarrow> string) \<Rightarrow> string list \<Rightarrow> string list" where
  "required_certs cert nodes =
     map cert [''ca.crt'', ''server.crt'', ''server.key'', ''jwt_signing_public.pem''] @
     concat (map (\<lambda>node. [cert (node @ ''.crt''), cert (node @ ''.key''), cert (node @ ''.jwt'')]) nodes)"

fun join_with :: "string \<Rightarrow> string list \<Rightarrow> string" where
  "join_with sep [] = []"
| "join_with sep [s] = s"
| "join_with sep (s # t # rest) = s @ sep @ join_with sep (t # rest)"

definition certgen_argv :: "orch_args \<Rightarrow> string \<Rightarrow> string list \<Rightarrow> string list" where
  "certgen_argv a directory nodes =
     [''run'', ''./security'', ''-out'', directory, ''-server-name'', oa_server_name a,
      ''-trust-domain'', ''zerotrust-fl.local'', ''-token-issuer'', ''zerotrust-fl-sim'',
      ''-token-audience'', ''zerotrust-fl-services'', ''-token-ttl'', ''24h'',
      ''-certificate-algorithm'', oa_certificate_algorithm a,
      ''-clients'', join_with '','' (map (\<lambda>node. node @ ''=edge-worker'') nodes)]"


section \<open>What the trainer reads\<close>

text \<open>\<open>str\<close> of a float that is not negative does not start with a dash, and \<open>float\<close> reads it back.\<close>

definition reads_back :: "(string \<Rightarrow> fl res) \<Rightarrow> (fl \<Rightarrow> string) \<Rightarrow> fl \<Rightarrow> bool" where
  "reads_back float_of str_float x \<longleftrightarrow> plain_arg (str_float x) \<and> float_of (str_float x) = Inr x"

lemma plain_item: "plain_arg v \<Longrightarrow> classify table v = Inr (Arg v) \<and> v \<noteq> ''--''"
  using classify_plain plain_not_sep by blast

lemma int_item: "length (py_str_nat (nat \<bar>n\<bar>)) \<le> 4300 \<Longrightarrow>
    classify (option_strings opts) (py_str_int n) = Inr (Arg (py_str_int n)) \<and> py_str_int n \<noteq> ''--'' \<and> py_int (py_str_int n) = Inr n"
  using classify_int int_not_sep py_int_str_int by blast

definition trainer_items :: "(fl \<Rightarrow> string) \<Rightarrow> orch_args \<Rightarrow> fl \<Rightarrow> item list" where
  "trainer_items str_float a fraction =
     (let n = client_count a; number = (\<lambda>s name m. Valued s name OInt (py_str_int m) (VInt m));
          real = (\<lambda>s name x. Valued s name OFloat (str_float x) (VFloat x));
          choice = (\<lambda>s name v. Valued s name (the (map_of sim_options name)) v (VStr v))
      in [choice ''--dataset'' ''dataset'' (oa_dataset a), number ''--clients'' ''clients'' n,
          number ''--clients-per-round'' ''clients-per-round'' n, number ''--min-results'' ''min-results'' n,
          number ''--rounds'' ''rounds'' (oa_rounds a), choice ''--partition'' ''partition'' (oa_partition a),
          real ''--alpha'' ''alpha'' (oa_alpha a), real ''--malicious-fraction'' ''malicious-fraction'' fraction,
          choice ''--attack'' ''attack'' (oa_attack a), choice ''--aggregator'' ''aggregator'' (oa_aggregator a),
          choice ''--backend'' ''backend'' ''native'', choice ''--device'' ''device'' (oa_device a),
          number ''--seed'' ''seed'' (oa_seed a), Switched ''--no-telemetry'' ''telemetry'' OBool False] @
         (if oa_aggregator a \<in> {''krum'', ''multi_krum''} then [number ''--byzantine-f'' ''byzantine-f'' (oa_malicious_workers a)] else []) @
         (if oa_attack a = ''collusion'' then [Valued ''--collusion-scale'' ''collusion-scale'' OFloat ''8'' (VFloat (Fin 8)),
            Valued ''--collusion-seed'' ''collusion-seed'' OInt ''20271'' (VInt 20271)] else []))"

lemma sim_option_table:
  "let t = option_strings ((''help'', OHelp) # sim_options) in
     map (map_of t) [''--dataset'', ''--partition'', ''--attack'', ''--aggregator'', ''--backend'', ''--device''] =
       map (\<lambda>name. Some (name, the (map_of sim_options name), True)) [''dataset'', ''partition'', ''attack'', ''aggregator'', ''backend'', ''device''] \<and>
     map (map_of t) [''--clients'', ''--clients-per-round'', ''--min-results'', ''--rounds'', ''--seed'', ''--byzantine-f'', ''--collusion-seed''] =
       map (\<lambda>name. Some (name, OInt, True)) [''clients'', ''clients-per-round'', ''min-results'', ''rounds'', ''seed'', ''byzantine-f'', ''collusion-seed''] \<and>
     map (map_of t) [''--alpha'', ''--malicious-fraction'', ''--collusion-scale''] =
       map (\<lambda>name. Some (name, OFloat, True)) [''alpha'', ''malicious-fraction'', ''collusion-scale''] \<and>
     map_of t ''--no-telemetry'' = Some (''telemetry'', OBool, False)"
  by code_simp


definition printable :: "int \<Rightarrow> bool" where
  "printable n \<longleftrightarrow> length (py_str_nat (nat \<bar>n\<bar>)) \<le> 4300"

lemma sim_choice_lists:
  "map_of sim_options ''dataset'' = Some (OChoice [''synthetic'', ''fashion-mnist'', ''cifar10''])"
  "map_of sim_options ''partition'' = Some (OChoice [''iid'', ''dirichlet''])"
  "map_of sim_options ''attack'' = Some (OChoice [''none'', ''label_flip'', ''gaussian'', ''sign_flip'', ''adaptive'', ''collusion''])"
  "map_of sim_options ''aggregator'' = Some (OChoice [''mean'', ''krum'', ''multi_krum'', ''trimmed_mean'', ''median''])"
  "map_of sim_options ''backend'' = Some (OChoice [''auto'', ''native'', ''torch''])"
  "map_of sim_options ''device'' = Some OStr"
  by code_simp+

text \<open>What the options of the orchestrator leave open.\<close>

definition orch_choices_ok :: "orch_args \<Rightarrow> bool" where
  "orch_choices_ok a \<longleftrightarrow>
     oa_attack a \<in> {''label_flip'', ''gaussian'', ''sign_flip'', ''adaptive'', ''collusion''} \<and>
     oa_aggregator a \<in> {''krum'', ''multi_krum'', ''trimmed_mean'', ''median''} \<and>
     oa_dataset a \<in> {''synthetic'', ''fashion-mnist'', ''cifar10''} \<and> oa_partition a \<in> {''iid'', ''dirichlet''}"

lemma orch_parse_args_Inr:
  assumes "orch_parse_args nt env float_of argv = Inr a"
  shows "orch_choices_ok a" "validate a = Inr ()"
proof -
  obtain m where m: "parse_options float_of orch_options argv = Inr m" "a = orch_namespace nt env m" "validate a = Inr ()"
    using assms by (auto simp: orch_parse_args_def res_simps Let_def)
  have d: "distinct (map fst orch_options)" "''help'' \<notin> fst ` set orch_options" by code_simp+
  have mem: "(''attack'', OChoice [''label_flip'', ''gaussian'', ''sign_flip'', ''adaptive'', ''collusion'']) \<in> set orch_options"
      "(''aggregator'', OChoice [''krum'', ''multi_krum'', ''trimmed_mean'', ''median'']) \<in> set orch_options"
      "(''dataset'', OChoice [''synthetic'', ''fashion-mnist'', ''cifar10'']) \<in> set orch_options"
      "(''partition'', OChoice [''iid'', ''dirichlet'']) \<in> set orch_options"
    by code_simp+
  note c = parsed_choice [OF m(1) d]
  show "orch_choices_ok a" using c [OF mem(1), of "''gaussian''"] c [OF mem(2), of "''median''"] c [OF mem(3), of "''synthetic''"] c [OF mem(4), of "''dirichlet''"]
    by (simp add: orch_choices_ok_def m(2) orch_namespace_def)
  show "validate a = Inr ()" by (rule m(3))
qed

lemma trainer_items_ok:
  assumes "float_of ''8'' = Inr (Fin 8)" "orch_choices_ok a" "reads_back float_of str_float (oa_alpha a)" "reads_back float_of str_float fraction"
    "plain_arg (oa_device a)"
    "printable (client_count a)" "printable (oa_rounds a)" "printable (oa_seed a)" "printable (oa_malicious_workers a)"
  shows "\<forall>i \<in> set (trainer_items str_float a fraction). item_ok float_of sim_options i"
proof -
  note t = sim_option_table [unfolded Let_def list.map list.inject]
  have choice: "classify table (oa_dataset a) = Inr (Arg (oa_dataset a)) \<and> oa_dataset a \<noteq> ''--''"
      "classify table (oa_partition a) = Inr (Arg (oa_partition a)) \<and> oa_partition a \<noteq> ''--''"
      "classify table (oa_attack a) = Inr (Arg (oa_attack a)) \<and> oa_attack a \<noteq> ''--''"
      "classify table (oa_aggregator a) = Inr (Arg (oa_aggregator a)) \<and> oa_aggregator a \<noteq> ''--''"
      "classify table (oa_device a) = Inr (Arg (oa_device a)) \<and> oa_device a \<noteq> ''--''"
      "classify table ''native'' = Inr (Arg ''native'')" "classify table ''8'' = Inr (Arg ''8'')" "classify table ''20271'' = Inr (Arg ''20271'')" for table
    using assms(2,5) by (intro plain_item conjunct1 [OF plain_item]; auto simp: orch_choices_ok_def plain_arg_def)+
  have real: "classify table (str_float x) = Inr (Arg (str_float x)) \<and> str_float x \<noteq> ''--'' \<and> float_of (str_float x) = Inr x"
    if "reads_back float_of str_float x" for table x using that plain_item unfolding reads_back_def by blast
  have eight: "float_of ''8'' = Inr (Fin 8)" "py_int ''20271'' = Inr 20271" using assms(1) by simp code_simp
  note n = assms(6-9) [unfolded printable_def, THEN int_item]
  have mem: "oa_dataset a \<in> set [''synthetic'', ''fashion-mnist'', ''cifar10'']" "oa_partition a \<in> set [''iid'', ''dirichlet'']"
    "oa_attack a \<in> set [''none'', ''label_flip'', ''gaussian'', ''sign_flip'', ''adaptive'', ''collusion'']"
    "oa_aggregator a \<in> set [''mean'', ''krum'', ''multi_krum'', ''trimmed_mean'', ''median'']"
    using assms(2) by (auto simp: orch_choices_ok_def)
  have cv: "convert float_of (OChoice xs) s = Inr (VStr s)" if "s \<in> set xs" for xs s using that by (simp add: convert_def)
  show ?thesis
    unfolding trainer_items_def Let_def set_append list.set if_distrib [where f = set] sim_choice_lists option.sel
    using t choice real [OF assms(3)] real [OF assms(4)] n eight cv [OF mem(1)] cv [OF mem(2)] cv [OF mem(3)] cv [OF mem(4)]
    by (simp add: convert_def sim_choice_lists del: option_strings.simps)
qed


text \<open>The arguments the simulation runner gets from the orchestrator.\<close>

definition trainer_args :: "(string \<Rightarrow> string option) \<Rightarrow> int \<Rightarrow> orch_args \<Rightarrow> fl \<Rightarrow> sim_args" where
  "trainer_args env port a fraction =
     (let d = sim_namespace env port Map.empty
      in d\<lparr>sa_dataset := oa_dataset a, sa_clients := client_count a, sa_clients_per_round := Some (client_count a),
          sa_min_results := Some (client_count a), sa_rounds := oa_rounds a, sa_partition := oa_partition a,
          sa_alpha := oa_alpha a, sa_malicious_fraction := fraction, sa_attack := oa_attack a,
          sa_aggregator := oa_aggregator a, sa_backend := ''native'', sa_device := oa_device a, sa_seed := oa_seed a,
          sa_telemetry := False,
          sa_byzantine_f := (if oa_aggregator a \<in> {''krum'', ''multi_krum''} then Some (oa_malicious_workers a) else None)\<rparr>)"

lemma trainer_reads:
  assumes "float_of ''8'' = Inr (Fin 8)" "orch_choices_ok a" "reads_back float_of str_float (oa_alpha a)" "reads_back float_of str_float fraction"
    "plain_arg (oa_device a)" "py_int (getenv env ''ZTFL_METRICS_PORT'' ''9466'') = Inr port"
    "printable (client_count a)" "printable (oa_rounds a)" "printable (oa_seed a)" "printable (oa_malicious_workers a)"
    "py_truediv (oa_malicious_workers a) (client_count a) = Inr fraction"
  shows "\<exists>argv. trainer_argv str_float a = Inr argv \<and> sim_parse_args env float_of argv = Inr (trainer_args env port a fraction)"
proof -
  let ?i = "trainer_items str_float a fraction"
  have argv: "trainer_argv str_float a = Inr (concat (map item_strings ?i))"
    using assms(11) by (simp add: trainer_argv_def trainer_items_def Let_def)
  have "parse_options float_of sim_options (concat (map item_strings ?i)) = Inr (map_of (rev (map item_binding ?i)))"
    by (rule parse_items, rule trainer_items_ok) (use assms in simp_all)
  moreover have "sim_namespace env port (map_of (rev (map item_binding ?i))) = trainer_args env port a fraction"
  proof -
    note defs = trainer_items_def trainer_args_def sim_namespace_def Let_def arg_str_def arg_int_def arg_int_opt_def arg_float_def arg_bool_def
    consider "oa_aggregator a \<in> {''krum'', ''multi_krum''}" "oa_attack a = ''collusion''" | "oa_aggregator a \<in> {''krum'', ''multi_krum''}" "oa_attack a \<noteq> ''collusion''"
      | "oa_aggregator a \<notin> {''krum'', ''multi_krum''}" "oa_attack a = ''collusion''" | "oa_aggregator a \<notin> {''krum'', ''multi_krum''}" "oa_attack a \<noteq> ''collusion''" by blast
    then show ?thesis
      by cases (simp_all only: defs if_True if_False simp_thms append_Nil append_Nil2 append.simps list.map rev.simps item_binding.simps, simp_all)
  qed
  ultimately show ?thesis using argv assms(6) by (simp add: sim_parse_args_def)
qed


section \<open>How many attackers train\<close>

lemma grid53: "\<bar>k\<bar> \<le> 2 ^ 53 \<Longrightarrow> representable binary64 (of_int k / 2 ^ 53)"
proof -
  assume k: "\<bar>k\<bar> \<le> 2 ^ 53"
  show ?thesis
  proof (cases "\<bar>k\<bar> = 2 ^ 53")
    case True
    then consider "k = 2 ^ 53" | "k = - (2 ^ 53)" by linarith
    then show ?thesis
      using representable_int [of 1 binary64] representable_int [of "-1" binary64] by cases (simp_all add: binary64_def)
  next
    case False
    have e: "(2 :: real) powi (- 53) = 1 / 2 ^ 53" by (simp add: power_int_def power_one_over)
    have "representable binary64 (of_int k * 2 powi (- 53))"
      by (rule representable_dyadic) (use k False in \<open>simp_all add: binary64_def\<close>)
    then show ?thesis unfolding e by simp
  qed
qed

lemma rnd64_fraction:
  assumes "0 \<le> x" "x \<le> 1"
  obtains q where "rnd binary64 x = Fin q" "\<bar>q - x\<bar> \<le> 1 / 2 ^ 53" "0 \<le> q"
proof -
  let ?l = "\<lfloor>x * 2 ^ 53\<rfloor>" let ?u = "\<lceil>x * 2 ^ 53\<rceil>"
  have r: "0 \<le> ?l" "?l \<le> 2 ^ 53" "0 \<le> ?u" "?u \<le> 2 ^ 53" using assms by (simp_all add: floor_le_iff ceiling_le_iff)
  have b: "of_int ?l / 2 ^ 53 \<le> x" "x \<le> of_int ?u / 2 ^ 53" "x - 1 / 2 ^ 53 \<le> of_int ?l / 2 ^ 53" "of_int ?u / 2 ^ 53 \<le> x + 1 / 2 ^ 53"
    by (simp_all add: field_simps) linarith+
  obtain q where q: "rnd binary64 x = Fin q" "of_int ?l / 2 ^ 53 \<le> q" "q \<le> of_int ?u / 2 ^ 53"
    by (rule rnd_between [OF fmt_ok_binary(1) grid53 grid53 b(1,2)]) (use r in auto)
  have "0 \<le> of_int ?l / (2 ^ 53 :: real)" using r(1) by simp
  then show ?thesis using that [of q] q b by linarith
qed

text \<open>The product with the rounded fraction loses at most one attacker.\<close>

lemma attackers_of_fraction:
  assumes "0 \<le> m" "m < n" "n < 2 ^ 52"
  obtains q c where "py_truediv m n = Inr (Fin q)" "0 \<le> q" "q < 1"
    "py_floor (py_mul (Fin (of_int n)) (Fin q)) = Inr c" "c \<in> {m - 1, m}" "0 \<le> c"
proof -
  have n: "0 < n" using assms by linarith
  let ?x = "of_int m / of_int n :: real"
  have x: "0 \<le> ?x" "?x \<le> 1" using assms n by (simp_all add: field_simps)
  obtain q where q: "rnd binary64 ?x = Fin q" "\<bar>q - ?x\<bar> \<le> 1 / 2 ^ 53" "0 \<le> q" by (rule rnd64_fraction [OF x])
  have "of_int n * \<bar>q - ?x\<bar> \<le> of_int n * (1 / 2 ^ 53)" by (rule mult_left_mono [OF q(2)]) (use n in simp)
  also have "\<dots> < 1 / 2" using assms(3) by (simp add: field_simps)
  also have "of_int n * \<bar>q - ?x\<bar> = \<bar>of_int n * q - of_int m\<bar>" 
  proof -
    have "of_int n * q - of_int m = of_int n * (q - ?x)" using n by (simp add: field_simps)
    then show ?thesis using n by (simp add: abs_mult)
  qed
  finally have near: "\<bar>of_int n * q - of_int m\<bar> < 1 / 2" .
  have half: "representable binary64 (of_int m + 1 / 2)"
    using representable_dyadic [of "2 * m + 1" binary64 "-1"] assms by (simp add: binary64_def power_int_minus field_simps)
  have low: "representable binary64 (of_int (max 0 (m - 1)))" using representable_int [of "max 0 (m - 1)" binary64] assms by (simp add: binary64_def)
  have "0 \<le> of_int n * q" using q(3) n by simp
  moreover have "of_int m - 1 \<le> of_int n * q" using near by linarith
  ultimately have "of_int (max 0 (m - 1)) \<le> of_int n * q" by (cases "0 \<le> m - 1") (simp_all add: max_def)
  then obtain y where y: "rnd binary64 (of_int n * q) = Fin y" "of_int (max 0 (m - 1)) \<le> y" "y \<le> of_int m + 1 / 2"
    by (rule rnd_between [OF fmt_ok_binary(1) low half]) (use near in linarith)
  have "q < 1"
  proof (rule ccontr)
    assume "\<not> q < 1"
    then have "of_int n * 1 \<le> of_int n * q" using n by (intro mult_left_mono) auto
    moreover have "of_int m + 1 \<le> (of_int n :: real)" using assms(2) by linarith
    ultimately show False using near by linarith
  qed
  moreover have "\<lfloor>y\<rfloor> \<in> {m - 1, m}" "0 \<le> \<lfloor>y\<rfloor>" 
  proof -
    have l: "0 \<le> \<lfloor>y\<rfloor>" "m - 1 \<le> \<lfloor>y\<rfloor>" using y(2) by (simp_all add: le_floor_iff max_def split: if_split_asm)
    have "\<lfloor>y\<rfloor> < m + 1" using y(3) unfolding floor_less_iff by simp
    with l show "\<lfloor>y\<rfloor> \<in> {m - 1, m}" "0 \<le> \<lfloor>y\<rfloor>" by auto
  qed
  ultimately show ?thesis using that [of q "\<lfloor>y\<rfloor>"] q y n by (simp add: py_truediv_def Let_def)
qed


lemma printable_small: "\<bar>n\<bar> < 2 ^ 52 \<Longrightarrow> printable n"
proof -
  assume "\<bar>n\<bar> < 2 ^ 52"
  then have "nat \<bar>n\<bar> < 10 ^ 16" by (simp add: nat_less_iff)
  then have "length (py_str_nat (nat \<bar>n\<bar>)) \<le> 16" by (rule length_py_str_nat) simp
  then show ?thesis unfolding printable_def by (rule order_trans) simp
qed

text \<open>The counts the trainer derives from the orchestrator's arguments.\<close>

lemma trainer_args_fields [simp]:
  "sa_clients (trainer_args env port a q) = client_count a" "sa_clients_per_round (trainer_args env port a q) = Some (client_count a)"
  "sa_min_results (trainer_args env port a q) = Some (client_count a)" "sa_aggregator (trainer_args env port a q) = oa_aggregator a"
  "sa_malicious_fraction (trainer_args env port a q) = q" "sa_attack (trainer_args env port a q) = oa_attack a"
  "sa_multi_krum_k (trainer_args env port a q) = 3" "sa_trim_beta (trainer_args env port a q) = decimal (2 / 10)"
  "sa_byzantine_f (trainer_args env port a q) =
     (if oa_aggregator a \<in> {''krum'', ''multi_krum''} then Some (oa_malicious_workers a) else None)"
  by (simp_all add: trainer_args_def sim_namespace_def Let_def arg_int_def arg_float_def)

lemma trim_below_half:
  assumes "0 < n" "n < 2 ^ 52"
  shows "\<exists>t. py_floor (py_mul (decimal (2 / 10)) (Fin (of_int n))) = Inr t \<and> 2 * t < n"
proof -
  have e: "(2 :: real) powi (- 2) = 1 / 4" by (simp add: power_int_def power_one_over)
  have z: "representable binary64 0" by (rule representable_zero [OF fmt_ok_binary(1)])
  have quarter: "representable binary64 (of_int k / 4)" if "\<bar>k\<bar> < 2 ^ 53" for k
    using representable_dyadic [of k binary64 "- 2"] that unfolding e by (simp add: binary64_def)
  have tenth: "0 \<le> (2 / 10 :: real)" "(2 / 10 :: real) \<le> 1 / 4" by simp_all
  have "representable binary64 (1 / 4)" using quarter [of 1] by simp
  then obtain beta where b: "decimal (2 / 10) = Fin beta" "0 \<le> beta" "beta \<le> 1 / 4"
    by (rule rnd_between [OF fmt_ok_binary(1) z _ tenth]) blast
  have "representable binary64 (of_int n / 4)" by (rule quarter) (use assms in simp)
  moreover have "0 \<le> beta * of_int n" "beta * of_int n \<le> of_int n / 4"
    using b(2,3) assms(1) mult_right_mono [of beta "1 / 4" "of_int n"] by simp_all
  ultimately obtain y where y: "rnd binary64 (beta * of_int n) = Fin y" "0 \<le> y" "y \<le> of_int n / 4"
    by (rule rnd_between [OF fmt_ok_binary(1) z]) blast
  have "of_int (2 * \<lfloor>y\<rfloor>) < (of_int n :: real)" using y(2,3) assms(1) of_int_floor_le [of y] unfolding of_int_mult of_int_numeral by linarith
  then have "2 * \<lfloor>y\<rfloor> < n" by linarith
  then show ?thesis using b(1) y(1) by simp
qed

lemma trainer_counts_accepted:
  assumes "validate a = Inr ()" "0 \<le> oa_malicious_workers a" "client_count a < 2 ^ 52" "orch_choices_ok a"
    and L: "sim_choice_ok L" and b: "build_simulation L mlog (trainer_args env port a q) = Inr b"
  shows "validate_round_counts (ss_plan b) = Inr ()"
proof -
  let ?a = "trainer_args env port a q" and ?n = "client_count a" and ?m = "oa_malicious_workers a"
  have v: "0 < ?n" "?m < ?n" "oa_aggregator a \<in> {''krum'', ''multi_krum''} \<Longrightarrow> 2 * ?m + 3 \<le> ?n"
    using assms(1) by (auto simp: validate_def Let_def split: if_split_asm)
  obtain partitions k where p:
      "worker_specs (ss_plan b) =
       map (\<lambda>i. \<lparr>spec_config = sim_worker_config ?a (ss_malicious_ids b) i, sample_indices = partitions ! i\<rparr>) [0..<nat (sa_clients ?a)]"
      "simulation (ss_plan b) = sim_simulation ?a" "aggregation (ss_plan b) = sim_aggregation ?a (int k)"
    by (rule simulation_plan [OF L _ b]) (use assms(3) in simp, blast)
  have d: "derived_min_results ?a = ?n" "derived_clients_per_round ?a = ?n"
    using v(1) by (simp_all add: derived_min_results_def derived_clients_per_round_def or_int_def)
  have c: "clients_per_round (ss_plan b) = Inr ?n" "min_results_for (ss_plan b) ?n = Inr ?n"
    using v(1) by (simp_all add: clients_per_round_def min_results_for_def p sim_simulation_def d)
  obtain t where t: "py_floor (py_mul (decimal (2 / 10)) (Fin (of_int ?n))) = Inr t" "2 * t < ?n"
    using trim_below_half [OF v(1) assms(3)] by blast
  have f: "py_int_float ?n = Inr (Fin (of_int ?n))" using py_float_small [of ?n] v(1) assms(3) by (simp add: py_int_float_def)
  have agg: "agg_method (aggregation (ss_plan b)) = oa_aggregator a" "agg_beta (aggregation (ss_plan b)) = decimal (2 / 10)"
      "oa_aggregator a \<in> {''krum'', ''multi_krum''} \<Longrightarrow> agg_f (aggregation (ss_plan b)) = ?m"
      "oa_aggregator a \<in> {''krum'', ''multi_krum''} \<Longrightarrow> agg_k (aggregation (ss_plan b)) = min 3 (max 1 (?n - ?m - 2))"
    by (simp_all add: p(3) sim_aggregation_def derived_f_def derived_k_def d)
  show ?thesis
  proof (cases "oa_aggregator a \<in> {''krum'', ''multi_krum''}")
    case True
    with v(3) agg assms(2) have "2 * agg_f (aggregation (ss_plan b)) + 3 \<le> ?n" "agg_k (aggregation (ss_plan b)) \<le> ?n - agg_f (aggregation (ss_plan b)) - 2"
        "1 \<le> ?n - agg_f (aggregation (ss_plan b)) - 2" "oa_aggregator a \<noteq> ''trimmed_mean''" by auto
    then show ?thesis by (simp add: validate_round_counts_def c agg(1,2) Let_def)
  next
    case False
    then show ?thesis using t f by (simp add: validate_round_counts_def c agg Let_def)
  qed
qed

lemma trainer_attackers:
  assumes "validate a = Inr ()" "0 \<le> oa_malicious_workers a" "client_count a < 2 ^ 52"
  obtains q c where "py_truediv (oa_malicious_workers a) (client_count a) = Inr (Fin q)" "0 \<le> q" "q < 1"
    "malicious_count_of (trainer_args env port a (Fin q)) = Inr c" "c \<in> {oa_malicious_workers a - 1, oa_malicious_workers a}" "0 \<le> c"
proof -
  have v: "0 < client_count a" "oa_malicious_workers a < client_count a"
    using assms(1) by (auto simp: validate_def Let_def split: if_split_asm)
  have "py_int_float (client_count a) = Inr (Fin (of_int (client_count a)))"
    using py_float_small [of "client_count a"] v(1) assms(3) by (simp add: py_int_float_def)
  then show ?thesis
    using attackers_of_fraction [OF assms(2) v(2) assms(3)] that by (auto simp: malicious_count_of_def)
qed

text \<open>
  C14: The training the orchestrator starts is the one that was asked for. For a command line the orchestrator
  accepts, with a non-negative number of attackers, the simulation runner reads back from the printed command line the
  configuration of the orchestrator; the counts of every simulation it builds from it are accepted by the
  coordinator, and as many of its workers are malicious as were asked for, or one less.
\<close>

theorem orchestrated_training_accepted:
  assumes "orch_parse_args nt env0 float_of argv0 = Inr a" "0 \<le> oa_malicious_workers a" "client_count a < 2 ^ 52"
    "printable (oa_rounds a)" "printable (oa_seed a)" "reads_back float_of str_float (oa_alpha a)" "plain_arg (oa_device a)"
    "\<forall>q. py_truediv (oa_malicious_workers a) (client_count a) = Inr q \<longrightarrow> reads_back float_of str_float q"
    "float_of ''8'' = Inr (Fin 8)" "py_int (getenv env ''ZTFL_METRICS_PORT'' ''9466'') = Inr port"
  shows "\<exists>argv q c. trainer_argv str_float a = Inr argv \<and> sim_parse_args env float_of argv = Inr (trainer_args env port a q) \<and>
    malicious_count_of (trainer_args env port a q) = Inr c \<and> c \<in> {oa_malicious_workers a - 1, oa_malicious_workers a} \<and>
    (\<forall>L mlog b. sim_choice_ok L \<longrightarrow> build_simulation L mlog (trainer_args env port a q) = Inr b \<longrightarrow>
       validate_round_counts (ss_plan b) = Inr ())"
proof -
  note o = orch_parse_args_Inr [OF assms(1)]
  obtain q c where q: "py_truediv (oa_malicious_workers a) (client_count a) = Inr (Fin q)" "0 \<le> q"
      "malicious_count_of (trainer_args env port a (Fin q)) = Inr c" "c \<in> {oa_malicious_workers a - 1, oa_malicious_workers a}"
    by (rule trainer_attackers [OF o(2) assms(2,3), of env port]) blast
  have "oa_malicious_workers a < client_count a" using o(2) by (auto simp: validate_def Let_def split: if_split_asm)
  then have b: "printable (client_count a)" "printable (oa_malicious_workers a)" using assms(2,3) by (auto intro!: printable_small)
  have "\<exists>argv. trainer_argv str_float a = Inr argv \<and> sim_parse_args env float_of argv = Inr (trainer_args env port a (Fin q))"
    by (rule trainer_reads [OF assms(9) o(1) assms(6) _ assms(7,10)]) (use q(1) b assms(4,5,8) in auto)
  then show ?thesis using q(3,4) trainer_counts_accepted [OF o(2) assms(2,3) o(1)] by blast
qed

text \<open>
  C37: An attacker can get lost on the way to the trainer. With 48 benign workers and one attacker, a topology the
  orchestrator accepts with the median rule, the fraction 1/49 rounds down, so does its product with 49, and the
  trainer starts without a malicious worker.
\<close>

theorem orchestrated_attacker_lost:
  "\<exists>q. py_truediv 1 49 = Inr q \<and>
     (\<forall>a env port. validate (a\<lparr>oa_benign_workers := 48, oa_malicious_workers := 1, oa_aggregator := ''median''\<rparr>) = Inr () \<and>
        malicious_count_of (trainer_args env port (a\<lparr>oa_benign_workers := 48, oa_malicious_workers := 1, oa_aggregator := ''median''\<rparr>) q) = Inr 0)"
proof -
  let ?q = "5882252574524729 / 2 ^ 58 :: real"
  have q: "rnd binary64 (1 / 49) = Fin ?q"
    using rnd_eqI [OF fmt_ok_binary(1), of "- 58" "1 / 49" 5882252574524729]
    by (simp add: binary64_def round_even_def Let_def power_int_minus floor_eq_iff)
  have p: "rnd binary64 (49 * ?q) = Fin (9007199254740991 / 2 ^ 53)"
    using rnd_eqI [OF fmt_ok_binary(1), of "- 53" "49 * ?q" 9007199254740991]
    by (simp add: binary64_def round_even_def Let_def power_int_minus floor_eq_iff)
  have f: "py_int_float 49 = Inr (Fin 49)" using py_float_small [of 49] by (simp add: py_int_float_def)
  have "py_truediv 1 49 = Inr (Fin ?q)" using q by (simp add: py_truediv_def Let_def)
  moreover have "py_floor (Fin (9007199254740991 / 2 ^ 53)) = Inr 0" by (simp add: floor_eq_iff)
  ultimately show ?thesis using p by (auto simp: malicious_count_of_def f client_count_def validate_def simp del: py_floor.simps)
qed


text \<open>The defaults of the orchestrator: three benign workers and an attacker. \<open>numbers_example\<close> writes the floats at hand.\<close>

definition numbers_example :: "(string \<times> fl) list" where
  "numbers_example = [(''0.3'', decimal (3 / 10)), (''0.25'', Fin (1 / 4)), (''8'', Fin 8)]"

definition float_example :: "string \<Rightarrow> fl res" where
  "float_example s = (case map_of numbers_example s of None \<Rightarrow> Inl (ValueError s) | Some x \<Rightarrow> Inr x)"

definition str_example :: "fl \<Rightarrow> string" where
  "str_example x = (if x = Fin (1 / 4) then ''0.25'' else ''0.3'')"

theorem orchestrated_training_accepted_witness:
  "\<exists>a argv q c. orch_parse_args False (\<lambda>name. None) float_example [] = Inr a \<and> trainer_argv str_example a = Inr argv \<and>
     sim_parse_args (\<lambda>name. None) float_example argv = Inr (trainer_args (\<lambda>name. None) 9466 a q) \<and>
     malicious_count_of (trainer_args (\<lambda>name. None) 9466 a q) = Inr c \<and> c \<in> {0, 1}"
proof -
  let ?a = "orch_namespace False (\<lambda>name. None) Map.empty"
  have f: "oa_benign_workers ?a = 3" "oa_malicious_workers ?a = 1" "oa_aggregator ?a = ''median''" "oa_rounds ?a = 5" "oa_seed ?a = 42"
      "oa_alpha ?a = decimal (3 / 10)" "oa_device ?a = ''cpu''"
    by (simp_all add: orch_namespace_def arg_int_def arg_str_def arg_float_def)
  have n: "client_count ?a = 4" by (simp add: client_count_def f)
  have "validate ?a = Inr ()" by (simp add: validate_def n f)
  then have a: "orch_parse_args False (\<lambda>name. None) float_example [] = Inr ?a"
    by (simp add: orch_parse_args_def parse_options_def)
  have third: "decimal (3 / 10) \<noteq> Fin (1 / 4)"
  proof -
    obtain x where "decimal (3 / 10) = Fin x" "\<bar>x - 3 / 10\<bar> \<le> 1 / 2 ^ 53" by (rule rnd64_fraction [of "3 / 10"]) auto
    then show ?thesis by auto
  qed
  have r: "reads_back float_example str_example (decimal (3 / 10))" "reads_back float_example str_example (Fin (1 / 4))"
    using third by (simp_all add: reads_back_def str_example_def float_example_def numbers_example_def plain_arg_def)
  have q: "py_truediv 1 4 = Inr (Fin (1 / 4))" by (simp add: py_truediv_def rnd64_quarters)
  have p: "py_int (getenv (\<lambda>name. None) ''ZTFL_METRICS_PORT'' ''9466'') = Inr 9466" by code_simp
  from orchestrated_training_accepted [OF a _ _ _ _ _ _ _ _ p, of str_example] a r show ?thesis
    by (simp add: f n q printable_small plain_arg_def float_example_def numbers_example_def) blast
qed


section \<open>What a networked worker reads\<close>

definition worker_items :: "(fl \<Rightarrow> string) \<Rightarrow> orch_args \<Rightarrow> string \<Rightarrow> string \<Rightarrow> string \<times> string \<times> string \<times> int \<Rightarrow> item list" where
  "worker_items str_float a certs health_file =
     (\<lambda>(node, tag, attack_kind, seed).
        let str = (\<lambda>s name v. Valued s name OStr v (VStr v))
        in [str ''--address'' ''address'' (HOST @ '':'' @ py_str_int (oa_grpc_port a)), str ''--server-name'' ''server-name'' (oa_server_name a),
            str ''--node-id'' ''node-id'' node, str ''--cert-dir'' ''cert-dir'' certs,
            Valued ''--attack'' ''attack'' (the (map_of worker_options ''attack'')) attack_kind (VStr attack_kind),
            Valued ''--seed'' ''seed'' OInt (py_str_int seed) (VInt seed),
            Valued ''--interval'' ''interval'' OFloat (str_float (oa_worker_interval a)) (VFloat (oa_worker_interval a)),
            str ''--health-file'' ''health-file'' health_file, Switched ''--no-telemetry'' ''telemetry'' OBool False])"

lemma worker_option_table:
  "let t = option_strings ((''help'', OHelp) # worker_options) in
     map (map_of t) [''--address'', ''--server-name'', ''--node-id'', ''--cert-dir'', ''--health-file''] =
       map (\<lambda>name. Some (name, OStr, True)) [''address'', ''server-name'', ''node-id'', ''cert-dir'', ''health-file''] \<and>
     map_of t ''--attack'' = Some (''attack'', the (map_of worker_options ''attack''), True) \<and>
     map_of t ''--seed'' = Some (''seed'', OInt, True) \<and> map_of t ''--interval'' = Some (''interval'', OFloat, True) \<and>
     map_of t ''--no-telemetry'' = Some (''telemetry'', OBool, False)"
  by code_simp

lemma worker_attack_choice:
  "map_of worker_options ''attack'' = Some (OChoice [''none'', ''label_flip'', ''gaussian'', ''sign_flip'', ''adaptive'', ''collusion''])"
  by code_simp

lemma worker_items_ok:
  assumes "plain_arg (oa_server_name a)" "plain_arg node" "plain_arg certs" "plain_arg health_file" "printable seed"
    "reads_back float_of str_float (oa_worker_interval a)"
    "attack_kind \<in> {''none'', ''label_flip'', ''gaussian'', ''sign_flip'', ''adaptive'', ''collusion''}"
  shows "\<forall>i \<in> set (worker_items str_float a certs health_file (node, tag, attack_kind, seed)). item_ok float_of worker_options i"
proof -
  note t = worker_option_table [unfolded Let_def list.map list.inject]
  have "plain_arg (HOST @ '':'' @ py_str_int (oa_grpc_port a))" "plain_arg attack_kind" "plain_arg (str_float (oa_worker_interval a))"
    using assms(6,7) by (auto simp: HOST_def plain_arg_def reads_back_def)
  note p = this [THEN plain_item] assms(1-4) [THEN plain_item]
  have c: "convert float_of (OChoice [''none'', ''label_flip'', ''gaussian'', ''sign_flip'', ''adaptive'', ''collusion'']) attack_kind = Inr (VStr attack_kind)"
    using assms(7) by (simp add: convert_def)
  show ?thesis
    unfolding worker_items_def Let_def list.set worker_attack_choice option.sel prod.case
    using t p int_item [OF assms(5) [unfolded printable_def]] c assms(6)
    by (simp add: convert_def worker_attack_choice reads_back_def del: option_strings.simps)
qed

lemma network_spec_ok:
  assumes "orch_choices_ok a" "worker_ids a = Inr (good, bad)" "client_count a < 2 ^ 51" "0 \<le> oa_malicious_workers a"
    "(node, tag, attack_kind, seed) \<in> set (network_specs a good bad)"
  shows "plain_arg node" "printable seed" "attack_kind \<in> {''none'', ''label_flip'', ''gaussian'', ''sign_flip'', ''adaptive'', ''collusion''}"
proof -
  let ?b = "oa_benign_workers a" and ?m = "oa_malicious_workers a"
  have w: "good = map (\<lambda>i. ''benign-worker-'' @ py_str_int i) [1..?b]" "bad = map (\<lambda>i. ''malicious-worker-'' @ py_str_int i) [1..?m]" "good \<noteq> []"
    using assms(2) by (auto simp: worker_ids_def Let_def split: if_split_asm)
  have l: "int (length good) < 2 ^ 51" "int (length bad) < 2 ^ 51"
    using w assms(3,4) by (auto simp: client_count_def)
  consider i where "i < length good" "node = good ! i" "attack_kind = ''none''" "seed = 1000 + int i"
    | i where "i < length bad" "node = bad ! i" "attack_kind = oa_attack a" "seed = 9000 + int i"
    using assms(5) by (auto simp: network_specs_def in_set_enumerate_eq)
  note cases = this
  have small: "printable (c + int i)" if "i < n" "int n < 2 ^ 51" "c = 1000 \<or> c = 9000" for c i n
    using that by (intro printable_small) auto
  show "printable seed" using cases by (cases; use l small in blast)
  have "plain_arg (good ! i)" if "i < length good" for i using that unfolding w(1) by (simp add: plain_arg_def)
  moreover have "plain_arg (bad ! i)" if "i < length bad" for i using that unfolding w(2) by (simp add: plain_arg_def)
  ultimately show "plain_arg node" using cases by blast
  show "attack_kind \<in> {''none'', ''label_flip'', ''gaussian'', ''sign_flip'', ''adaptive'', ''collusion''}"
    using cases assms(1) unfolding orch_choices_ok_def by (cases; blast)
qed

text \<open>
  C38: A networked worker that the orchestrator starts gets the configuration meant for it: given defaults in the
  environment that parse, every worker reads from its printed command line the address of the coordinator, its node
  identity and certificates, the attack, the seed and the interval, and keeps the default of every other argument.
\<close>

theorem orchestrated_worker_configured:
  assumes "orch_parse_args nt env0 float_of argv0 = Inr a" "worker_ids a = Inr (good, bad)" "client_count a < 2 ^ 51"
    "0 \<le> oa_malicious_workers a" "(node, tag, attack_kind, seed) \<in> set (network_specs a good bad)" "parse_args env float_of [] = Inr d"
    "plain_arg (oa_server_name a)" "plain_arg certs" "plain_arg health_file" "reads_back float_of str_float (oa_worker_interval a)"
  shows "parse_args env float_of (worker_argv str_float a certs health_file (node, tag, attack_kind, seed)) =
    Inr (d\<lparr>wa_address := HOST @ '':'' @ py_str_int (oa_grpc_port a), wa_server_name := oa_server_name a, wa_node_id := node,
           wa_cert_dir := certs, wa_attack := attack_kind, wa_seed := seed, wa_interval := oa_worker_interval a,
           wa_health_file := health_file, wa_telemetry := False\<rparr>)"
proof -
  let ?i = "worker_items str_float a certs health_file (node, tag, attack_kind, seed)"
  note spec = network_spec_ok [OF orch_parse_args_Inr(1) [OF assms(1)] assms(2-5)]
  have argv: "worker_argv str_float a certs health_file (node, tag, attack_kind, seed) = concat (map item_strings ?i)"
    by (simp add: worker_argv_def worker_items_def Let_def)
  have m: "parse_options float_of worker_options (concat (map item_strings ?i)) = Inr (map_of (rev (map item_binding ?i)))"
    by (rule parse_items, rule worker_items_ok [OF assms(7) spec(1) assms(8,9) spec(2) assms(10) spec(3)])
  have "parse_options float_of worker_options [] = Inr Map.empty" by (simp add: parse_options_def)
  with assms(6) show ?thesis
    unfolding argv parse_args_def Let_def m
    by (auto simp: res_simps worker_items_def arg_str_def arg_int_def arg_float_def arg_bool_def)
qed

definition worker_numbers :: "(string \<times> fl) list" where
  "worker_numbers = [(''5'', Fin 5), (''8'', Fin 8), (''1.0'', Fin 1), (''1e-5'', decimal (1 / 100000))]"

definition worker_float :: "string \<Rightarrow> fl res" where
  "worker_float s = (case map_of worker_numbers s of None \<Rightarrow> Inl (ValueError s) | Some x \<Rightarrow> Inr x)"

theorem orchestrated_worker_configured_witness:
  "\<exists>a good bad d. orch_parse_args False (\<lambda>name. None) worker_float [] = Inr a \<and> worker_ids a = Inr (good, bad) \<and>
     parse_args (\<lambda>name. None) worker_float
       (worker_argv (\<lambda>x. ''5'') a ''/certs'' ''/health'' (''malicious-worker-1'', ''WORKER-ATTACKER'', ''gaussian'', 9000)) = Inr d \<and>
     wa_address d = ''127.0.0.1:50051'' \<and> wa_node_id d = ''malicious-worker-1'' \<and> wa_attack d = ''gaussian'' \<and> wa_seed d = 9000"
proof -
  let ?a = "orch_namespace False (\<lambda>name. None) Map.empty"
  have f: "oa_benign_workers ?a = 3" "oa_malicious_workers ?a = 1" "oa_aggregator ?a = ''median''" "oa_attack ?a = ''gaussian''"
      "oa_server_name ?a = ''coordinator.local''" "oa_worker_interval ?a = Fin 5" "oa_grpc_port ?a = 50051"
    by (simp_all add: orch_namespace_def arg_int_def arg_str_def arg_float_def)
  have n: "client_count ?a = 4" by (simp add: client_count_def f)
  have "validate ?a = Inr ()" by (simp add: validate_def n f)
  then have a: "orch_parse_args False (\<lambda>name. None) worker_float [] = Inr ?a"
    by (simp add: orch_parse_args_def parse_options_def)
  have up: "[1..3 :: int] = [1, 2, 3]" "[1..1 :: int] = [1]" by (simp_all add: upto.simps)
  have ns: "map py_str_int [1, 2, 3, 50051] = [''1'', ''2'', ''3'', ''50051'']"
    by (simp add: py_str_int_def py_str_nat.simps char_of_def bit_Suc_0_iff)
  have ids: "worker_ids ?a = Inr ([''benign-worker-1'', ''benign-worker-2'', ''benign-worker-3''], [''malicious-worker-1''])"
    using ns up by (simp add: worker_ids_def f)
  have spec: "(''malicious-worker-1'', ''WORKER-ATTACKER'', ''gaussian'', 9000)
      \<in> set (network_specs ?a [''benign-worker-1'', ''benign-worker-2'', ''benign-worker-3''] [''malicious-worker-1''])"
    by (simp add: network_specs_def f)
  have ints: "map py_int [''20271'', ''128'', ''16'', ''42'', ''9465''] = map Inr [20271, 128, 16, 42, 9465]" by code_simp
  obtain d where d: "parse_args (\<lambda>name. None) worker_float [] = Inr d"
    using ints by (simp add: parse_args_def getenv_def worker_float_def worker_numbers_def parse_options_def)
  have r: "reads_back worker_float (\<lambda>x. ''5'') (Fin 5)" by (simp add: reads_back_def worker_float_def worker_numbers_def plain_arg_def)
  from orchestrated_worker_configured [OF a ids _ _ spec d, of "''/certs''" "''/health''" "\<lambda>x. ''5''"] a ids r ns show ?thesis
    by (simp add: f n plain_arg_def HOST_def)
qed

end
