(* ===== verification/Process_Manager.thy ===== *)
theory Process_Manager
  imports Orchestrator
begin

text \<open>
  The processes of the orchestrator \<open>main.py\<close>: prerequisites, certificates and ports, the manager that starts, watches
  and stops child processes, and the program around it with its exit code.

  The operating system is the parameter record \<open>os\<close> over a state of its own: every operation may find the state
  changed by the processes that run meanwhile. A program maps a state to a state and a result, or to \<open>None\<close> when it does
  not return; the loops that poll are partial functions. The manager's record carries a log of what was done to the
  processes. Console output and the threads that copy the output of the children are left out; \<open>SIGINT\<close> and
  \<open>SIGTERM\<close> are seen as the event their handler sets.
\<close>

section \<open>Programs that talk to the operating system\<close>

type_synonym ('s, 'a) prog = "'s \<Rightarrow> ('s \<times> 'a res) option"

definition io_ret :: "'a \<Rightarrow> ('s, 'a) prog" where
  "io_ret x s = Some (s, Inr x)"

definition io_raise :: "exn \<Rightarrow> ('s, 'a) prog" where
  "io_raise e s = Some (s, Inl e)"

definition io_bind :: "('s, 'a) prog \<Rightarrow> ('a \<Rightarrow> ('s, 'b) prog) \<Rightarrow> ('s, 'b) prog" where
  "io_bind m k s = Option.bind (m s) (\<lambda>p. case snd p of Inl e \<Rightarrow> Some (fst p, Inl e) | Inr x \<Rightarrow> k x (fst p))"

text \<open>\<open>try: m finally: f\<close>\<close>

definition try_finally :: "('s, 'a) prog \<Rightarrow> ('s, unit) prog \<Rightarrow> ('s, 'a) prog" where
  "try_finally m f s =
     Option.bind (m s) (\<lambda>p. Option.bind (f (fst p)) (\<lambda>q. case snd q of Inl e \<Rightarrow> Some (fst q, Inl e) | Inr _ \<Rightarrow> Some (fst q, snd p)))"

lemma io_bind_mono [partial_function_mono]:
  assumes "\<And>s. mono_option (\<lambda>f. B f s)" "\<And>x s. mono_option (\<lambda>f. C f x s)"
  shows "mono_option (\<lambda>f. io_bind (B f) (C f) s)"
  unfolding io_bind_def
proof (rule Partial_Function.bind_mono [OF assms(1)])
  fix p
  show "mono_option (\<lambda>f. case snd p of Inl e \<Rightarrow> Some (fst p, Inl e) | Inr x \<Rightarrow> C f x (fst p))"
    by (cases "snd p") (simp_all add: option.const_mono assms(2))
qed

text \<open>The operating system as the orchestrator sees it: every operation may find it changed.\<close>

record 'o os =
  os_which :: "string \<Rightarrow> 'o \<Rightarrow> 'o \<times> string option"
  os_call :: "string list \<Rightarrow> 'o \<Rightarrow> 'o \<times> int res"                \<comment> \<open>run a command to its end, the return code\<close>
  os_exists :: "string \<Rightarrow> 'o \<Rightarrow> 'o \<times> bool"
  os_file_size :: "string \<Rightarrow> 'o \<Rightarrow> 'o \<times> int res"              \<comment> \<open>\<open>path.stat().st_size\<close>\<close>
  os_mkdir :: "string \<Rightarrow> 'o \<Rightarrow> 'o \<times> unit res"
  os_unlink :: "string \<Rightarrow> 'o \<Rightarrow> 'o \<times> unit res"                \<comment> \<open>\<open>unlink(missing_ok=True)\<close>\<close>
  os_port_open :: "int \<Rightarrow> 'o \<Rightarrow> 'o \<times> bool"                   \<comment> \<open>a connection to the local host succeeds\<close>
  os_popen :: "string list \<Rightarrow> string \<Rightarrow> 'o \<Rightarrow> 'o \<times> nat res"   \<comment> \<open>command and directory; the process id\<close>
  os_poll :: "nat \<Rightarrow> 'o \<Rightarrow> 'o \<times> int option"
  os_wait :: "nat \<Rightarrow> fl \<Rightarrow> 'o \<Rightarrow> 'o \<times> bool"                  \<comment> \<open>\<open>wait(timeout)\<close>: the process ended in time\<close>
  os_killpg :: "nat \<Rightarrow> bool \<Rightarrow> 'o \<Rightarrow> 'o \<times> unit res"          \<comment> \<open>\<open>SIGTERM\<close>, or \<open>SIGKILL\<close>\<close>
  os_ctrl_break :: "nat \<Rightarrow> 'o \<Rightarrow> 'o \<times> unit res"
  os_terminate :: "nat \<Rightarrow> 'o \<Rightarrow> 'o \<times> unit res"
  os_kill :: "nat \<Rightarrow> 'o \<Rightarrow> 'o \<times> unit res"
  os_monotonic :: "'o \<Rightarrow> 'o \<times> fl"
  os_sleep :: "fl \<Rightarrow> 'o \<Rightarrow> 'o \<times> unit"
  os_stop_wait :: "'o \<Rightarrow> 'o \<times> bool"                          \<comment> \<open>a quarter of a second; a signal handler ran\<close>
  os_stop_seen :: "'o \<Rightarrow> 'o \<times> bool"

text \<open>What is fixed while it runs: the system, the interpreter, the root directory and the arithmetic of paths.\<close>

record host =
  h_nt :: bool
  h_version :: "int \<times> int"
  h_executable :: string
  h_root :: string
  h_join :: "string \<Rightarrow> string \<Rightarrow> string"
  h_is_absolute :: "string \<Rightarrow> bool"
  h_resolve :: "string \<Rightarrow> string"
  h_str_float :: "fl \<Rightarrow> string"

record Child =
  ch_name :: string
  ch_pid :: nat
  ch_final :: bool
  ch_optional :: bool

datatype os_effect = Spawned Child | Polled nat "int option" | Asked nat | Waited nat bool | Killed nat | StopSeen

record 'o manager =
  mg_os :: 'o
  mg_children :: "Child list"
  mg_stop :: bool
  mg_closing :: bool
  mg_log :: "os_effect list"

definition ask :: "('o \<Rightarrow> 'o \<times> 'a) \<Rightarrow> ('o manager, 'a) prog" where
  "ask f s = (let (w, x) = f (mg_os s) in Some (s\<lparr>mg_os := w\<rparr>, Inr x))"

definition attempt :: "('o \<Rightarrow> 'o \<times> 'a res) \<Rightarrow> ('o manager, 'a) prog" where
  "attempt f s = (let (w, x) = f (mg_os s) in Some (s\<lparr>mg_os := w\<rparr>, x))"

definition effect :: "os_effect \<Rightarrow> ('o manager, unit) prog" where
  "effect e s = Some (s\<lparr>mg_log := mg_log s @ [e]\<rparr>, Inr ())"

definition io_guard :: "bool \<Rightarrow> exn \<Rightarrow> ('s, unit) prog" where
  "io_guard b e = (if b then io_ret () else io_raise e)"

definition io_when :: "bool \<Rightarrow> ('s, unit) prog \<Rightarrow> ('s, unit) prog" where
  "io_when b m = (if b then m else io_ret ())"

definition io_catch :: "('s, 'a) prog \<Rightarrow> (exn \<Rightarrow> bool) \<Rightarrow> ('s, 'a) prog \<Rightarrow> ('s, 'a) prog" where
  "io_catch m P h s = Option.bind (m s) (\<lambda>p. case snd p of Inl e \<Rightarrow> if P e then h (fst p) else Some p | Inr x \<Rightarrow> Some p)"

fun is_os_error :: "exn \<Rightarrow> bool" where
  "is_os_error (OSError m) = True"
| "is_os_error (TimeoutError m) = True"
| "is_os_error (SSLCertVerificationError m) = True"
| "is_os_error e = False"

fun is_attribute_error :: "exn \<Rightarrow> bool" where
  "is_attribute_error (AttributeError m) = True"
| "is_attribute_error e = False"

section \<open>Prerequisites\<close>

definition quoted :: "string \<Rightarrow> string" where
  "quoted s = [CHR 0x27] @ s @ [CHR 0x27]"

definition version_script :: string where
  "version_script =
     ''import zerotrust_fl_cpp as n;print('' @ quoted ''version'' @ '',getattr(n,'' @ quoted ''__version__'' @ '','' @ quoted ''?'' @
     ''),'' @ quoted ''OpenMP'' @ '',getattr(n,'' @ quoted ''openmp_enabled'' @ '',False),'' @ quoted ''SIMD'' @ '',getattr(n,'' @
     quoted ''simd_backend'' @ '','' @ quoted ''scalar'' @ ''),'' @ quoted ''CUDA'' @ '',getattr(n,'' @ quoted ''cuda_enabled'' @ '',False))''"

definition run_checked :: "'o os \<Rightarrow> string \<Rightarrow> string list \<Rightarrow> ('o manager, unit) prog" where
  "run_checked S label cmd =
     io_bind (attempt (os_call S cmd)) (\<lambda>code. io_guard (code = 0) (OrchestratorError (label @ '' failed'')))"

definition available :: "'o os \<Rightarrow> string \<Rightarrow> ('o manager, string) prog" where
  "available S name =
     io_bind (ask (os_which S name)) (\<lambda>path.
       case path of None \<Rightarrow> io_raise (OrchestratorError (name @ '' not found on PATH'')) | Some p \<Rightarrow> io_ret p)"

fun any_which :: "'o os \<Rightarrow> string list \<Rightarrow> ('o manager, bool) prog" where
  "any_which S [] = io_ret False"
| "any_which S (name # names) =
     io_bind (ask (os_which S name)) (\<lambda>path. if path \<noteq> None then io_ret True else any_which S names)"

definition rooted :: "host \<Rightarrow> string \<Rightarrow> string" where
  "rooted H p = h_join H (h_root H) p"

definition prepare :: "'o os \<Rightarrow> host \<Rightarrow> orch_args \<Rightarrow> ('o manager, string) prog" where
  "prepare S H a =
     (let py = h_executable H in
      io_bind (io_guard (fst (h_version H) > 3 \<or> fst (h_version H) = 3 \<and> snd (h_version H) \<ge> 12)
                 (OrchestratorError ''Python 3.12+ is required'')) (\<lambda>_.
      io_bind (available S ''go'') (\<lambda>go.
      io_bind (available S ''cmake'') (\<lambda>_.
      io_bind (available S ''git'') (\<lambda>_.
      io_bind (if h_nt H then io_ret True else any_which S [''c++'', ''g++'', ''clang++'']) (\<lambda>compiler.
      io_bind (io_guard compiler (OrchestratorError ''C++20 compiler not found'')) (\<lambda>_.
      io_bind (attempt (os_call S [py, ''-c'', ''import torch,grpc,numpy,psutil''])) (\<lambda>dependency_probe.
      io_bind (io_when (dependency_probe \<noteq> 0)
                 (if oa_auto_install a
                  then run_checked S ''install dependencies'' [py, ''-m'', ''pip'', ''install'', ''-r'', rooted H ''requirements.txt'']
                  else io_raise (OrchestratorError ''Python dependencies are missing''))) (\<lambda>_.
      io_bind (ask (os_exists S (rooted H ''fl/zerotrust_fl/protocols/fl_service_pb2.py''))) (\<lambda>generated.
      io_bind (io_when (\<not> generated) (run_checked S ''generate protobuf'' [py, rooted H ''scripts/generate_python_proto.py''])) (\<lambda>_.
      io_bind (attempt (os_call S [py, ''-c'', ''import zerotrust_fl_cpp as n;assert hasattr(n,'' @ quoted ''median_aggregate'' @ '')''])) (\<lambda>native_probe.
      io_bind (io_when (native_probe \<noteq> 0)
                 (if oa_skip_native_build a then io_raise (OrchestratorError ''native C++ aggregator missing'')
                  else run_checked S ''build C++20 native extension'' [py, ''-m'', ''pip'', ''install'', ''-e'', h_root H])) (\<lambda>_.
      io_bind (run_checked S ''native backend'' [py, ''-c'', version_script]) (\<lambda>_.
        io_ret go))))))))))))))"

definition prepare_dashboard :: "'o os \<Rightarrow> host \<Rightarrow> orch_args \<Rightarrow> ('o manager, string list option) prog" where
  "prepare_dashboard S H a =
     (let frontend = h_join H (rooted H ''frontend'') in
      if \<not> oa_dashboard a then io_ret None
      else io_bind (ask (os_exists S (frontend ''package.json''))) (\<lambda>package_json.
        if \<not> package_json then io_ret None
        else io_bind (ask (os_which S ''npm'')) (\<lambda>found.
          case found of None \<Rightarrow> io_ret None
          | Some npm \<Rightarrow>
              let command = [npm, ''run'', ''dev'', ''--'', ''--hostname'', HOST, ''--port'', py_str_int (oa_websocket_port a)] in
              io_bind (ask (os_exists S (frontend ''node_modules/next/package.json''))) (\<lambda>next_package.
              io_bind (if next_package then ask (os_exists S (frontend ''node_modules/react/package.json'')) else io_ret False) (\<lambda>installed.
                if installed then io_ret (Some command)
                else if \<not> oa_auto_install a then io_ret None
                else io_bind (run_checked S ''install frontend dependencies''
                       [npm, ''install'', ''--prefix'', rooted H ''frontend'', ''--no-audit'', ''--no-fund'']) (\<lambda>_.
                       io_ret (Some command)))))))"

text \<open>\<open>all(path.exists() and path.stat().st_size for path in required)\<close>\<close>

fun all_present :: "'o os \<Rightarrow> string list \<Rightarrow> ('o manager, bool) prog" where
  "all_present S [] = io_ret True"
| "all_present S (path # paths) =
     io_bind (ask (os_exists S path)) (\<lambda>found.
       if \<not> found then io_ret False
       else io_bind (attempt (os_file_size S path)) (\<lambda>size_of. if size_of = 0 then io_ret False else all_present S paths))"

definition ensure_certs :: "'o os \<Rightarrow> host \<Rightarrow> orch_args \<Rightarrow> string \<Rightarrow> string list \<Rightarrow> ('o manager, string) prog" where
  "ensure_certs S H a go nodes =
     (let directory = (if h_is_absolute H (oa_cert_dir a) then oa_cert_dir a else h_resolve H (rooted H (oa_cert_dir a)))
      in io_bind (if oa_force_cert_regen a then io_ret False else all_present S (required_certs (h_join H directory) nodes)) (\<lambda>present.
         io_bind (io_when (\<not> present)
                    (io_bind (attempt (os_mkdir S directory)) (\<lambda>_.
                       run_checked S ''generate mTLS PKI'' (go # certgen_argv a directory nodes)))) (\<lambda>_.
           io_ret directory)))"

fun free_port :: "'o os \<Rightarrow> int list \<Rightarrow> ('o manager, int option) prog" where
  "free_port S [] = io_ret None"
| "free_port S (candidate # rest) =
     io_bind (ask (os_port_open S candidate)) (\<lambda>used. if used then free_port S rest else io_ret (Some candidate))"

definition choose_dashboard_port :: "'o os \<Rightarrow> orch_args \<Rightarrow> ('o manager, orch_args) prog" where
  "choose_dashboard_port S a =
     (let requested = oa_websocket_port a in
      if \<not> oa_dashboard a then io_ret a
      else io_bind (ask (os_port_open S requested)) (\<lambda>used.
        if \<not> used then io_ret a
        else io_bind (free_port S [requested + 1..requested + 49]) (\<lambda>port.
          case port of
            Some candidate \<Rightarrow> io_ret (a\<lparr>oa_websocket_port := candidate\<rparr>)
          | None \<Rightarrow> io_raise (OrchestratorError (''dashboard port '' @ py_str_int requested @
                      '' already in use and no nearby port is free'')))))"

section \<open>The manager\<close>

definition poll_child :: "'o os \<Rightarrow> Child \<Rightarrow> ('o manager, int option) prog" where
  "poll_child S child =
     io_bind (ask (os_poll S (ch_pid child))) (\<lambda>code.
     io_bind (effect (Polled (ch_pid child) code)) (\<lambda>_. io_ret code))"

definition manager_start :: "'o os \<Rightarrow> string \<Rightarrow> string list \<Rightarrow> bool \<Rightarrow> bool \<Rightarrow> string \<Rightarrow> ('o manager, Child) prog" where
  "manager_start S name cmd final_child optional_child cwd =
     io_bind (attempt (os_popen S cmd cwd)) (\<lambda>pid.
       let child = \<lparr>ch_name = name, ch_pid = pid, ch_final = final_child, ch_optional = optional_child\<rparr>
       in (\<lambda>s. Some (s\<lparr>mg_children := mg_children s @ [child], mg_log := mg_log s @ [Spawned child]\<rparr>, Inr child)))"

definition set_stop :: "('o manager, unit) prog" where
  "set_stop s = Some (s\<lparr>mg_stop := True\<rparr>, Inr ())"

text \<open>\<open>stop.wait(0.25)\<close> and \<open>stop.is_set()\<close>: a handler may have set the event.\<close>

definition stop_event :: "('o \<Rightarrow> 'o \<times> bool) \<Rightarrow> ('o manager, bool) prog" where
  "stop_event f s =
     (if mg_stop s then Some (s, Inr True)
      else let (w, b) = f (mg_os s) in
        Some (s\<lparr>mg_os := w, mg_stop := b, mg_log := mg_log s @ (if b then [StopSeen] else [])\<rparr>, Inr b))"

text \<open>One scan of the children: the processes seen so far, and the return code when the scan returns.\<close>

fun scan_children :: "'o os \<Rightarrow> bool \<Rightarrow> Child list \<Rightarrow> nat set \<Rightarrow> ('o manager, nat set \<times> int option) prog" where
  "scan_children S keep_alive [] seen = io_ret (seen, None)"
| "scan_children S keep_alive (child # rest) seen =
     io_bind (poll_child S child) (\<lambda>code.
       case code of
         None \<Rightarrow> scan_children S keep_alive rest seen
       | Some return_code \<Rightarrow>
           if ch_pid child \<in> seen then scan_children S keep_alive rest seen
           else let seen = insert (ch_pid child) seen in
             if ch_final child then
               (if keep_alive \<and> return_code = 0 then scan_children S keep_alive rest seen
                else io_bind set_stop (\<lambda>_. io_ret (seen, Some return_code)))
             else (\<lambda>s. if \<not> ch_optional child \<and> \<not> mg_closing s
                        then io_bind set_stop (\<lambda>_. io_ret (seen, Some (if return_code = 0 then 1 else return_code))) s
                        else scan_children S keep_alive rest seen s))"

partial_function (option) manager_wait :: "'o os \<Rightarrow> bool \<Rightarrow> nat set \<Rightarrow> 'o manager \<Rightarrow> ('o manager \<times> int res) option" where
  "manager_wait S keep_alive seen s =
     io_bind (stop_event (os_stop_wait S)) (\<lambda>stopped s.
       if stopped then io_ret 0 s
       else io_bind (scan_children S keep_alive (mg_children s) seen) (\<lambda>r s.
         case snd r of Some code \<Rightarrow> io_ret code s | None \<Rightarrow> manager_wait S keep_alive (fst r) s) s) s"

definition signal_process :: "'o os \<Rightarrow> host \<Rightarrow> nat \<Rightarrow> bool \<Rightarrow> ('o manager, unit) prog" where
  "signal_process S H pid graceful =
     io_bind (effect (if graceful then Asked pid else Killed pid)) (\<lambda>_.
       io_catch
         (if h_nt H then
            (if graceful
             then io_catch (attempt (os_ctrl_break S pid)) (\<lambda>e. is_os_error e \<or> is_attribute_error e) (attempt (os_terminate S pid))
             else io_bind (ask (os_which S ''taskkill'')) (\<lambda>taskkill.
                    case taskkill of
                      Some path \<Rightarrow> io_bind (attempt (os_call S [path, ''/PID'', py_str_int (int pid), ''/T'', ''/F''])) (\<lambda>_. io_ret ())
                    | None \<Rightarrow> attempt (os_kill S pid)))
          else attempt (os_killpg S pid graceful))
         is_os_error (io_ret ()))"

fun for_each :: "('a \<Rightarrow> ('s, unit) prog) \<Rightarrow> 'a list \<Rightarrow> ('s, unit) prog" where
  "for_each f [] = io_ret ()"
| "for_each f (x # xs) = io_bind (f x) (\<lambda>_. for_each f xs)"

fun alive_children :: "'o os \<Rightarrow> Child list \<Rightarrow> ('o manager, Child list) prog" where
  "alive_children S [] = io_ret []"
| "alive_children S (child # rest) =
     io_bind (poll_child S child) (\<lambda>code.
     io_bind (alive_children S rest) (\<lambda>alive. io_ret (if code = None then child # alive else alive)))"

definition await_exit :: "'o os \<Rightarrow> fl \<Rightarrow> Child \<Rightarrow> ('o manager, unit) prog" where
  "await_exit S deadline child =
     io_bind (ask (os_monotonic S)) (\<lambda>now.
       let left = py_sub deadline now; timeout = (if fl_less (Fin 0) left then left else Fin 0)
       in io_bind (ask (os_wait S (ch_pid child) timeout)) (\<lambda>ended. effect (Waited (ch_pid child) ended)))"

definition manager_shutdown :: "'o os \<Rightarrow> host \<Rightarrow> fl \<Rightarrow> ('o manager, unit) prog" where
  "manager_shutdown S H timeout s =
     (if mg_closing s then Some (s, Inr ())
      else io_bind (alive_children S (mg_children s)) (\<lambda>alive.
        if alive = [] then io_ret ()
        else io_bind (for_each (\<lambda>child. signal_process S H (ch_pid child) True) (rev alive)) (\<lambda>_.
          io_bind (ask (os_monotonic S)) (\<lambda>now.
          io_bind (for_each (await_exit S (py_add now timeout)) (rev alive)) (\<lambda>_.
          io_bind (alive_children S alive) (\<lambda>left.
            for_each (\<lambda>child. signal_process S H (ch_pid child) False) (rev left)))))) (s\<lparr>mg_closing := True, mg_stop := True\<rparr>))"

partial_function (option) wait_port_loop :: "'o os \<Rightarrow> Child \<Rightarrow> int \<Rightarrow> fl \<Rightarrow> 'o manager \<Rightarrow> ('o manager \<times> unit res) option" where
  "wait_port_loop S child port deadline s =
     io_bind (ask (os_monotonic S)) (\<lambda>now s.
       if \<not> fl_less now deadline then io_raise (OrchestratorError (''timeout waiting for '' @ ch_name child)) s
       else io_bind (stop_event (os_stop_seen S)) (\<lambda>stopped s.
         if stopped then io_raise KeyboardInterrupt s
         else io_bind (poll_child S child) (\<lambda>code s.
           if code \<noteq> None then io_raise (OrchestratorError (ch_name child @ '' exited before readiness'')) s
           else io_bind (ask (os_port_open S port)) (\<lambda>ready s.
             if ready then io_ret () s
             else io_bind (ask (os_sleep S (decimal (2 / 10)))) (\<lambda>_. wait_port_loop S child port deadline) s) s) s) s) s"

definition wait_port :: "'o os \<Rightarrow> Child \<Rightarrow> int \<Rightarrow> fl \<Rightarrow> ('o manager, unit) prog" where
  "wait_port S child port timeout =
     io_bind (ask (os_monotonic S)) (\<lambda>now. wait_port_loop S child port (py_add now timeout))"

section \<open>The whole program\<close>

text \<open>The loop that waits for the health file of a worker.\<close>

partial_function (option) health_loop :: "'o os \<Rightarrow> Child \<Rightarrow> string \<Rightarrow> fl \<Rightarrow> 'o manager \<Rightarrow> ('o manager \<times> unit res) option" where
  "health_loop S child health_file deadline s =
     io_bind (ask (os_exists S health_file)) (\<lambda>ready s.
       if ready then io_ret () s
       else io_bind (ask (os_monotonic S)) (\<lambda>now s.
         if \<not> fl_less now deadline then io_ret () s
         else io_bind (poll_child S child) (\<lambda>code s.
           if code \<noteq> None then io_raise (OrchestratorError (ch_name child @ '' failed registration'')) s
           else io_bind (ask (os_sleep S (decimal (2 / 10)))) (\<lambda>_. health_loop S child health_file deadline) s) s) s) s"

definition start_worker :: "'o os \<Rightarrow> host \<Rightarrow> orch_args \<Rightarrow> string \<Rightarrow> string \<Rightarrow> string \<times> string \<times> string \<times> int \<Rightarrow> ('o manager, unit) prog" where
  "start_worker S H a certs health_dir spec =
     (let node = fst spec; health_file = h_join H health_dir (node @ ''.ready'')
      in io_bind (attempt (os_unlink S health_file)) (\<lambda>_.
         io_bind (manager_start S node
             ([h_executable H, ''-u'', rooted H ''scripts/run_grpc_worker.py''] @ worker_argv (h_str_float H) a certs health_file spec)
             False False (h_root H)) (\<lambda>child.
         io_bind (ask (os_monotonic S)) (\<lambda>now.
         io_bind (health_loop S child health_file (py_add now (oa_startup_timeout a))) (\<lambda>_.
         io_bind (ask (os_exists S health_file)) (\<lambda>ready.
           io_guard ready (OrchestratorError (''timeout registering '' @ node))))))))"

text \<open>The coordinator, the workers, the dashboard and the training, each up before the next one starts.\<close>

definition start_all :: "'o os \<Rightarrow> host \<Rightarrow> orch_args \<Rightarrow> string \<Rightarrow> string \<Rightarrow> string list \<Rightarrow> string list \<Rightarrow> string list option \<Rightarrow> ('o manager, unit) prog" where
  "start_all S H a go certs good bad dashboard_command =
     (let runtime = rooted H ''tmp/orchestrator''; health_dir = h_join H runtime ''health'' in
      io_bind (manager_start S ''go-coordinator'' ([go, ''run'', ''./cmd/coordinator''] @ coordinator_argv a (h_join H certs))
                 False False (h_root H)) (\<lambda>coordinator.
      io_bind (wait_port S coordinator (oa_grpc_port a) (oa_startup_timeout a)) (\<lambda>_.
      io_bind (io_when (oa_network_workers a)
                 (io_bind (attempt (os_mkdir S health_dir)) (\<lambda>_.
                    for_each (start_worker S H a certs health_dir) (network_specs a good bad)))) (\<lambda>_.
      io_bind (case dashboard_command of None \<Rightarrow> io_ret ()
               | Some command \<Rightarrow>
                   io_bind (manager_start S ''dashboard'' command False True (rooted H ''frontend'')) (\<lambda>dashboard.
                     wait_port S dashboard (oa_websocket_port a) (oa_startup_timeout a))) (\<lambda>_.
      io_bind (case trainer_argv (h_str_float H) a of Inl e \<Rightarrow> io_raise e | Inr argv \<Rightarrow> io_ret argv) (\<lambda>argv.
      io_bind (manager_start S ''federated-training''
                 ([h_executable H, ''-u'', rooted H ''scripts/run_master_training.py''] @ argv) True False (h_root H)) (\<lambda>training.
      io_bind (ask (os_sleep S (Fin (1 / 2)))) (\<lambda>_.
      io_bind (poll_child S training) (\<lambda>code.
        case code of
          Some return_code \<Rightarrow> io_raise (OrchestratorError (''training exited immediately: '' @ py_str_int return_code))
        | None \<Rightarrow> io_ret ())))))))))"

definition launch :: "'o os \<Rightarrow> host \<Rightarrow> orch_args \<Rightarrow> string \<Rightarrow> string \<Rightarrow> string list \<Rightarrow> string list \<Rightarrow> string list option \<Rightarrow> ('o manager, int) prog" where
  "launch S H a go certs good bad dashboard_command =
     io_bind (start_all S H a go certs good bad dashboard_command) (\<lambda>_. manager_wait S (oa_keep_alive a) {})"

fun require_paths :: "'o os \<Rightarrow> host \<Rightarrow> string list \<Rightarrow> ('o manager, unit) prog" where
  "require_paths S H [] = io_ret ()"
| "require_paths S H (path # paths) =
     io_bind (ask (os_exists S (rooted H path))) (\<lambda>found.
       if found then require_paths S H paths else io_raise (OrchestratorError (''missing '' @ path)))"

fun ports_free :: "'o os \<Rightarrow> int list \<Rightarrow> ('o manager, unit) prog" where
  "ports_free S [] = io_ret ()"
| "ports_free S (port # ports) =
     io_bind (ask (os_port_open S port)) (\<lambda>used.
       if used then io_raise (OrchestratorError (''port '' @ py_str_int port @ '' already in use'')) else ports_free S ports)"

definition orchestrate :: "'o os \<Rightarrow> host \<Rightarrow> orch_args \<Rightarrow> ('o manager, int) prog" where
  "orchestrate S H a =
     io_bind (require_paths S H [''requirements.txt'', ''scripts/generate_python_proto.py'', ''scripts/run_grpc_worker.py'',
                ''scripts/run_master_training.py'', ''security/certgen.go'', ''cmd/coordinator/main.go'']) (\<lambda>_.
     io_bind (prepare S H a) (\<lambda>go.
     io_bind (case worker_ids a of Inl e \<Rightarrow> io_raise e | Inr ids \<Rightarrow> io_ret ids) (\<lambda>(good, bad).
     io_bind (ensure_certs S H a go (good @ bad)) (\<lambda>certs.
       if oa_check_only a then io_ret 0
       else io_bind (ports_free S [oa_grpc_port a, oa_metrics_port a]) (\<lambda>_.
         io_bind (choose_dashboard_port S a) (\<lambda>a.
         io_bind (prepare_dashboard S H a) (\<lambda>dashboard_command.
         io_bind (attempt (os_mkdir S (rooted H ''tmp/orchestrator''))) (\<lambda>_.
         io_bind (io_catch (attempt (os_unlink S (rooted H ''tmp/orchestrator/dashboard.log''))) is_os_error (io_ret ())) (\<lambda>_.
           try_finally (launch S H a go certs good bad dashboard_command)
             (manager_shutdown S H (oa_shutdown_timeout a)))))))))))"

text \<open>The exit code of the process; \<open>SystemExit\<close> of the argument parser passes.\<close>

fun exit_code :: "exn \<Rightarrow> int res" where
  "exit_code KeyboardInterrupt = Inr 130"
| "exit_code (OrchestratorError m) = Inr 1"
| "exit_code (SystemExit m) = Inl (SystemExit m)"
| "exit_code e = Inr 1"

definition orch_main ::
  "'o os \<Rightarrow> host \<Rightarrow> (string \<Rightarrow> string option) \<Rightarrow> (string \<Rightarrow> fl res) \<Rightarrow> string list \<Rightarrow> ('o manager, int) prog" where
  "orch_main S H env float_of argv s =
     (case orch_parse_args (h_nt H) env float_of argv of
        Inl e \<Rightarrow> Some (s, exit_code e)
      | Inr a \<Rightarrow> Option.bind (orchestrate S H a s) (\<lambda>(s, r). Some (s, case r of Inl e \<Rightarrow> exit_code e | Inr code \<Rightarrow> Inr code)))"


section \<open>What a program keeps\<close>

definition keeps :: "('s \<Rightarrow> bool) \<Rightarrow> ('s, 'a) prog \<Rightarrow> bool" where
  "keeps I m \<longleftrightarrow> (\<forall>s s' r. I s \<longrightarrow> m s = Some (s', r) \<longrightarrow> I s')"

lemma keepsD: "keeps I m \<Longrightarrow> m s = Some (s', r) \<Longrightarrow> I s \<Longrightarrow> I s'"
  by (auto simp: keeps_def)

named_theorems keeps_rules \<open>composition of programs that keep an invariant\<close>

lemma io_bindE:
  assumes "io_bind m k s = Some (s', r)"
  obtains (raised) e where "m s = Some (s', Inl e)" "r = Inl e" | (returned) s1 x where "m s = Some (s1, Inr x)" "k x s1 = Some (s', r)"
proof (cases "m s")
  case (Some p)
  then show ?thesis using assms that by (cases p; cases "snd p") (auto simp: io_bind_def)
qed (use assms in \<open>simp add: io_bind_def\<close>)

lemma keeps_base [keeps_rules]: "keeps I (io_ret x)" "keeps I (io_raise e)" "keeps I (io_guard b e)" "keeps I u \<Longrightarrow> keeps I (io_when b u)"
  by (auto simp: keeps_def io_ret_def io_raise_def io_guard_def io_when_def)

lemma keeps_bind [keeps_rules]: "\<lbrakk>keeps I m; \<And>x. keeps I (k x)\<rbrakk> \<Longrightarrow> keeps I (io_bind m k)"
  unfolding keeps_def by (blast elim: io_bindE)

lemma keeps_branch [keeps_rules]:
  "\<lbrakk>keeps I m1; keeps I m2\<rbrakk> \<Longrightarrow> keeps I (if b then m1 else m2)"
  "\<lbrakk>keeps I m1; \<And>x. keeps I (g x)\<rbrakk> \<Longrightarrow> keeps I (case p of None \<Rightarrow> m1 | Some x \<Rightarrow> g x)"
  by (auto split: option.splits)

lemma keeps_sum [keeps_rules]: "\<lbrakk>\<And>e. keeps I (h e); \<And>x. keeps I (g x)\<rbrakk> \<Longrightarrow> keeps I (case q of Inl e \<Rightarrow> h e | Inr x \<Rightarrow> g x)"
  by (cases q) auto

lemma keeps_prod [keeps_rules]: "(\<And>y z. keeps I (c y z)) \<Longrightarrow> keeps I (case_prod c yz)"
  by (cases yz) auto

lemma keeps_catch [keeps_rules]:
  assumes "keeps I m" "keeps I h"
  shows "keeps I (io_catch m P h)"
  unfolding keeps_def
proof (intro allI impI)
  fix s s' r assume i: "I s" and c: "io_catch m P h s = Some (s', r)"
  obtain s1 r1 where m: "m s = Some (s1, r1)" using c by (cases "m s") (auto simp: io_catch_def)
  then have "I s1" using assms(1) i by (auto simp: keeps_def)
  then show "I s'" using c m assms(2) by (auto simp: io_catch_def keeps_def split: sum.splits if_splits)
qed

lemma keeps_for_each [keeps_rules]: "(\<And>x. keeps I (f x)) \<Longrightarrow> keeps I (for_each f xs)"
  by (induction xs) (auto intro: keeps_rules)

text \<open>An invariant that only processes started by the manager and its flag \<open>closing\<close> can break.\<close>

locale manager_invariant =
  fixes I :: "'o manager \<Rightarrow> bool"
  assumes os: "I s \<Longrightarrow> I (s\<lparr>mg_os := w\<rparr>)"
    and event: "I s \<Longrightarrow> I (s\<lparr>mg_stop := True, mg_log := mg_log s @ [StopSeen]\<rparr>)"
    and log: "I s \<Longrightarrow> (\<And>c. e \<noteq> Spawned c) \<Longrightarrow> I (s\<lparr>mg_log := mg_log s @ [e]\<rparr>)"
begin

lemma keeps_ask: "keeps I (ask f)" "keeps I (attempt g)"
  using os by (auto simp: keeps_def ask_def attempt_def split: prod.splits)

lemma keeps_stop_event: "keeps I (stop_event f)"
proof -
  have "I (s\<lparr>mg_os := w, mg_stop := b, mg_log := mg_log s @ (if b then [StopSeen] else [])\<rparr>)" if "I s" "\<not> mg_stop s" for s w b
  proof (cases b)
    case False
    then have "s\<lparr>mg_os := w, mg_stop := b, mg_log := mg_log s @ (if b then [StopSeen] else [])\<rparr> = s\<lparr>mg_os := w\<rparr>" using that(2) by simp
    then show ?thesis using os [OF that(1)] by simp
  qed (use event [OF os [OF that(1), of w]] in simp)
  then show ?thesis by (auto simp: keeps_def stop_event_def split: prod.splits if_splits)
qed

lemma keeps_effect: "(\<And>c. e \<noteq> Spawned c) \<Longrightarrow> keeps I (effect e)"
  using log by (auto simp: keeps_def effect_def)

lemmas keeps_basic = keeps_rules keeps_ask keeps_stop_event keeps_effect

lemma keeps_poll: "keeps I (poll_child S child)"
  unfolding poll_child_def by (intro keeps_basic) auto

lemma keeps_signal: "keeps I (signal_process S H pid graceful)"
  unfolding signal_process_def by (intro keeps_basic) auto

lemma keeps_alive: "keeps I (alive_children S cs)"
  by (induction cs) (auto intro!: keeps_basic keeps_poll)

lemma keeps_await: "keeps I (await_exit S deadline child)"
  unfolding await_exit_def Let_def by (intro keeps_basic) auto

lemma keeps_run_checked: "keeps I (run_checked S label cmd)"
  unfolding run_checked_def by (intro keeps_basic)

lemma keeps_any_which: "keeps I (any_which S names)"
  by (induction names) (auto intro!: keeps_basic)

lemma keeps_prepare: "keeps I (prepare S H a)"
  unfolding prepare_def available_def Let_def by (intro keeps_basic keeps_run_checked keeps_any_which)

lemma keeps_all_present: "keeps I (all_present S paths)"
  by (induction paths) (auto intro!: keeps_basic)

lemma keeps_free_port: "keeps I (free_port S ports)"
  by (induction ports) (auto intro!: keeps_basic)

lemma keeps_preparation:
  "keeps I (require_paths S H paths)" "keeps I (ports_free S ports)" "keeps I (ensure_certs S H a go nodes)"
  "keeps I (choose_dashboard_port S a)" "keeps I (prepare_dashboard S H a)"
proof -
  show "keeps I (require_paths S H paths)" by (induction paths) (auto intro!: keeps_basic)
  show "keeps I (ports_free S ports)" by (induction ports) (auto intro!: keeps_basic)
  show "keeps I (ensure_certs S H a go nodes)"
    unfolding ensure_certs_def Let_def by (intro keeps_basic keeps_run_checked keeps_all_present)
  show "keeps I (choose_dashboard_port S a)"
    unfolding choose_dashboard_port_def Let_def by (intro keeps_basic keeps_free_port)
  show "keeps I (prepare_dashboard S H a)"
    unfolding prepare_dashboard_def Let_def by (intro keeps_basic keeps_run_checked)
qed

end


lemma keeps_eta:
  "\<lbrakk>keeps I m1; keeps I m2\<rbrakk> \<Longrightarrow> keeps I (\<lambda>s. if b then m1 s else m2 s)"
  "\<lbrakk>keeps I m1; \<And>x. keeps I (g x)\<rbrakk> \<Longrightarrow> keeps I (\<lambda>s. case p of None \<Rightarrow> m1 s | Some x \<Rightarrow> g x s)"
  by (cases b; simp) (cases p; simp)

lemma keeps_state: "(\<And>s0. keeps I (M s0)) \<Longrightarrow> keeps I (\<lambda>s. M s s)"
  by (auto simp: keeps_def)

text \<open>An invariant that starting a process keeps as well.\<close>

locale started_invariant = manager_invariant +
  assumes spawn: "I s \<Longrightarrow> I (s\<lparr>mg_children := mg_children s @ [c], mg_log := mg_log s @ [Spawned c]\<rparr>)"
begin

lemma keeps_manager_start: "keeps I (manager_start S name cmd f o' cwd)"
  unfolding manager_start_def Let_def by (intro keeps_basic) (auto simp: keeps_def spawn)

lemma keeps_wait_port_loop: "keeps I (wait_port_loop S child port deadline)"
proof -
  have "I s \<longrightarrow> I (fst y)" if "wait_port_loop S child port deadline s = Some y" for s y
  proof (rule wait_port_loop.raw_induct [where P = "\<lambda>S child port deadline s y. I s \<longrightarrow> I (fst y)", OF _ that], goal_cases)
    case (1 f S child port deadline s y)
    have f: "keeps I (f S child port deadline)" using 1(1) by (fastforce simp: keeps_def)
    show ?case
    proof
      assume i: "I s"
      show "I (fst y)"
        using 1(2) i by (rule keepsD [of I _ s "fst y" "snd y", rotated 1, unfolded prod.collapse]) (intro keeps_basic keeps_eta keeps_poll f)
    qed
  qed
  then show ?thesis by (fastforce simp: keeps_def)
qed

lemma keeps_health_loop: "keeps I (health_loop S child path deadline)"
proof -
  have "I s \<longrightarrow> I (fst y)" if "health_loop S child path deadline s = Some y" for s y
  proof (rule health_loop.raw_induct [where P = "\<lambda>S child path deadline s y. I s \<longrightarrow> I (fst y)", OF _ that], goal_cases)
    case (1 f S child path deadline s y)
    have f: "keeps I (f S child path deadline)" using 1(1) by (fastforce simp: keeps_def)
    show ?case
    proof
      assume i: "I s"
      show "I (fst y)"
        using 1(2) i by (rule keepsD [of I _ s "fst y" "snd y", rotated 1, unfolded prod.collapse]) (intro keeps_basic keeps_eta keeps_poll f)
    qed
  qed
  then show ?thesis by (fastforce simp: keeps_def)
qed

lemma keeps_start_all: "keeps I (start_all S H a go certs good bad dashboard)"
  unfolding start_all_def wait_port_def start_worker_def Let_def
  by (intro keeps_basic keeps_manager_start keeps_wait_port_loop keeps_health_loop keeps_poll)

end

text \<open>One that setting the stop event keeps too.\<close>

locale stoppable_invariant = started_invariant +
  assumes stop: "I s \<Longrightarrow> I (s\<lparr>mg_stop := True\<rparr>)"
begin

lemma keeps_stop: "keeps I set_stop"
  using stop by (auto simp: keeps_def set_stop_def)

lemma keeps_scan: "keeps I (scan_children S keep cs seen)"
proof (induction cs arbitrary: seen)
  case (Cons child rest)
  have "keeps I (\<lambda>s. if \<not> ch_optional child \<and> \<not> mg_closing s then io_bind set_stop (\<lambda>_. io_ret x) s else scan_children S keep rest seen' s)" for x seen'
    using keeps_state [of I "\<lambda>s0. if \<not> ch_optional child \<and> \<not> mg_closing s0 then io_bind set_stop (\<lambda>_. io_ret x) else scan_children S keep rest seen'"] Cons
    by (simp add: keeps_basic keeps_stop if_distrib [of "\<lambda>m. m s" for s] if_distribR)
  then show ?case using Cons by (auto simp: Let_def intro!: keeps_basic keeps_stop keeps_poll)
qed (simp add: keeps_basic)

lemma keeps_manager_wait: "keeps I (manager_wait S keep seen)"
proof -
  have "I s \<longrightarrow> I (fst y)" if "manager_wait S keep seen s = Some y" for s y
  proof (rule manager_wait.raw_induct [where P = "\<lambda>S keep seen s y. I s \<longrightarrow> I (fst y)", OF _ that], goal_cases)
    case (1 f S keep seen s y)
    have f: "keeps I (f S keep seen)" for seen using 1(1) by (fastforce simp: keeps_def)
    have "keeps I (\<lambda>s. io_bind (scan_children S keep (mg_children s) seen) (\<lambda>r s. case snd r of None \<Rightarrow> f S keep (fst r) s | Some code \<Rightarrow> io_ret code s) s)"
      by (rule keeps_state) (intro keeps_basic keeps_eta keeps_scan f)
    note body = this
    show ?case
    proof
      assume i: "I s"
      show "I (fst y)"
        using 1(2) i by (rule keepsD [of I _ s "fst y" "snd y", rotated 1, unfolded prod.collapse]) (intro keeps_basic keeps_eta body)
    qed
  qed
  then show ?thesis by (fastforce simp: keeps_def)
qed

lemma keeps_launch: "keeps I (launch S H a go certs good bad dashboard)"
  unfolding launch_def by (intro keeps_basic keeps_start_all keeps_manager_wait)

end


section \<open>No process is left behind\<close>

definition spawned_within :: "Child set \<Rightarrow> 'o manager \<Rightarrow> bool" where
  "spawned_within X s \<longleftrightarrow> (\<forall>c. Spawned c \<in> set (mg_log s) \<longrightarrow> c \<in> X)"

definition tracked :: "'o manager \<Rightarrow> bool" where
  "tracked s \<longleftrightarrow> \<not> mg_closing s \<and> spawned_within (set (mg_children s)) s"

interpretation within: manager_invariant "spawned_within X" for X
  by unfold_locales (auto simp: spawned_within_def)

interpretation tracking: stoppable_invariant tracked
  by unfold_locales (auto simp: tracked_def spawned_within_def)

interpretation logged: stoppable_invariant "\<lambda>s. e \<in> set (mg_log s)" for e
  by unfold_locales auto

interpretation enrolled: stoppable_invariant "\<lambda>s. c \<in> set (mg_children s)" for c
  by unfold_locales auto

text \<open>A process was seen to have ended, or it was asked to end and then killed.\<close>

definition released :: "os_effect list \<Rightarrow> nat \<Rightarrow> bool" where
  "released es pid \<longleftrightarrow> (\<exists>code. Polled pid (Some code) \<in> set es) \<or> Asked pid \<in> set es \<and> Killed pid \<in> set es"

text \<open>Sending a signal fails with an \<open>OSError\<close> or, for an unknown signal, an \<open>AttributeError\<close> only.\<close>

definition raises_only :: "(exn \<Rightarrow> bool) \<Rightarrow> ('o \<Rightarrow> 'o \<times> 'a res) \<Rightarrow> bool" where
  "raises_only P f \<longleftrightarrow> (\<forall>w e. snd (f w) = Inl e \<longrightarrow> P e)"

definition signals_ok :: "'o os \<Rightarrow> bool" where
  "signals_ok S \<longleftrightarrow>
     (\<forall>pid graceful. raises_only is_os_error (os_killpg S pid graceful)) \<and> (\<forall>pid. raises_only is_os_error (os_terminate S pid)) \<and>
     (\<forall>pid. raises_only is_os_error (os_kill S pid)) \<and> (\<forall>cmd. raises_only is_os_error (os_call S cmd)) \<and>
     (\<forall>pid. raises_only (\<lambda>e. is_os_error e \<or> is_attribute_error e) (os_ctrl_break S pid))"

text \<open>A program that ends, raising only what \<open>P\<close> admits; \<open>returns\<close>: it raises nothing.\<close>

definition raising :: "(exn \<Rightarrow> bool) \<Rightarrow> ('s, 'a) prog \<Rightarrow> bool" where
  "raising P m \<longleftrightarrow> (\<forall>s. \<exists>s' r. m s = Some (s', r) \<and> (\<forall>e. r = Inl e \<longrightarrow> P e))"

abbreviation returns :: "('s, 'a) prog \<Rightarrow> bool" where
  "returns \<equiv> raising (\<lambda>e. False)"

lemma returnsE: "returns m \<Longrightarrow> (\<And>s' x. m s = Some (s', Inr x) \<Longrightarrow> thesis) \<Longrightarrow> thesis"
  unfolding raising_def by (metis sum.exhaust)

named_theorems raising_rules \<open>programs that end\<close>

lemma raising_base [raising_rules]: "raising P (io_ret x)" "raising P (ask f)" "raising P (effect e)"
  by (auto simp: raising_def io_ret_def ask_def effect_def split: prod.splits)

lemma raising_attempt: "raises_only P f \<Longrightarrow> raising P (attempt f)"
  by (auto simp: raising_def attempt_def raises_only_def split: prod.splits) (metis snd_conv)

lemma raising_bind [raising_rules]:
  assumes "raising P m" "\<And>x. raising P (k x)"
  shows "raising P (io_bind m k)"
  unfolding raising_def
proof
  fix s
  obtain s1 r1 where m: "m s = Some (s1, r1)" "\<forall>e. r1 = Inl e \<longrightarrow> P e" using assms(1) unfolding raising_def by blast
  show "\<exists>s' r. io_bind m k s = Some (s', r) \<and> (\<forall>e. r = Inl e \<longrightarrow> P e)"
    using m assms(2) by (cases r1) (auto simp: io_bind_def raising_def)
qed

lemma raising_catch:
  assumes "raising Q m" "raising P h" "\<And>e. Q e \<Longrightarrow> C e \<or> P e"
  shows "raising P (io_catch m C h)"
  unfolding raising_def
proof
  fix s
  obtain s1 r1 where m: "m s = Some (s1, r1)" "\<forall>e. r1 = Inl e \<longrightarrow> Q e" using assms(1) unfolding raising_def by blast
  show "\<exists>s' r. io_catch m C h s = Some (s', r) \<and> (\<forall>e. r = Inl e \<longrightarrow> P e)"
    using m assms(2,3) by (cases r1) (auto simp: io_catch_def raising_def)
qed

lemma raising_branch [raising_rules]:
  "\<lbrakk>raising P m1; raising P m2\<rbrakk> \<Longrightarrow> raising P (if b then m1 else m2)"
  "\<lbrakk>raising P m1; \<And>x. raising P (g x)\<rbrakk> \<Longrightarrow> raising P (case p of None \<Rightarrow> m1 | Some x \<Rightarrow> g x)"
  by (auto split: option.splits)

lemma raising_for_each [raising_rules]: "(\<And>x. raising P (f x)) \<Longrightarrow> raising P (for_each f xs)"
  by (induction xs) (auto intro: raising_rules)

lemma raising_poll [raising_rules]: "raising P (poll_child S child)"
  unfolding poll_child_def by (intro raising_rules)

lemma raising_alive [raising_rules]: "raising P (alive_children S cs)"
  by (induction cs) (auto intro!: raising_rules)

lemma raising_await [raising_rules]: "raising P (await_exit S deadline child)"
  unfolding await_exit_def Let_def by (intro raising_rules)

lemma returns_signal:
  assumes "signals_ok S"
  shows "returns (signal_process S H pid graceful)"
proof -
  have a: "raising is_os_error (attempt (os_killpg S pid graceful))" "raising is_os_error (attempt (os_terminate S pid))"
      "raising is_os_error (attempt (os_kill S pid))" "raising is_os_error (attempt (os_call S cmd))"
      "raising (\<lambda>e. is_os_error e \<or> is_attribute_error e) (attempt (os_ctrl_break S pid))" for cmd
    using assms by (auto simp: signals_ok_def intro!: raising_attempt)
  show ?thesis
    unfolding signal_process_def
    by (intro raising_rules raising_catch [where Q = is_os_error] raising_catch [OF a(5)] a) auto
qed

lemma alive_children_Some:
  "alive_children S cs s = Some (s', Inr alive) \<Longrightarrow>
     set alive \<subseteq> set cs \<and> (\<forall>c \<in> set cs. c \<in> set alive \<or> (\<exists>code. Polled (ch_pid c) (Some code) \<in> set (mg_log s')))"
proof (induction cs arbitrary: s s' alive)
  case (Cons c cs)
  from Cons.prems obtain s1 code s2 rest where p: "poll_child S c s = Some (s1, Inr code)" "alive_children S cs s1 = Some (s2, Inr rest)"
      "s' = s2" "alive = (if code = None then c # rest else rest)"
    by (auto elim!: io_bindE simp: io_ret_def)
  have "Polled (ch_pid c) code \<in> set (mg_log s1)"
    using p(1) by (auto simp: poll_child_def effect_def io_ret_def ask_def elim!: io_bindE split: prod.splits)
  then have "Polled (ch_pid c) code \<in> set (mg_log s2)" by (rule keepsD [OF logged.keeps_alive p(2)])
  with Cons.IH [OF p(2)] p show ?case by (cases code) auto
qed (simp add: io_ret_def)

lemma for_each_logs:
  assumes "for_each f xs s = Some (s', Inr u)" "x \<in> set xs" "\<And>x s s' r. f x s = Some (s', r) \<Longrightarrow> g x \<in> set (mg_log s')"
    "\<And>x e. keeps (\<lambda>s. e \<in> set (mg_log s)) (f x)"
  shows "g x \<in> set (mg_log s')"
  using assms(1,2)
proof (induction xs arbitrary: s)
  case (Cons y ys)
  from Cons.prems(1) obtain s1 v where y: "f y s = Some (s1, Inr v)" "for_each f ys s1 = Some (s', Inr u)"
    by (auto elim: io_bindE)
  show ?case
  proof (cases "x \<in> set ys")
    case True
    then show ?thesis by (rule Cons.IH [OF y(2)])
  next
    case False
    then have "g x \<in> set (mg_log s1)" using Cons.prems(2) assms(3) [OF y(1)] by auto
    then show ?thesis by (rule keepsD [OF keeps_for_each [OF assms(4)] y(2)])
  qed
qed simp

lemma effect_then:
  "io_bind (effect e) k s = Some (s', r) \<Longrightarrow> (\<And>u. keeps (\<lambda>s. e \<in> set (mg_log s)) (k u)) \<Longrightarrow> e \<in> set (mg_log s')"
  by (erule io_bindE) (auto simp: effect_def dest: keepsD)

lemma signal_logs: "signal_process S H pid graceful s = Some (s', r) \<Longrightarrow> (if graceful then Asked pid else Killed pid) \<in> set (mg_log s')"
  unfolding signal_process_def by (erule effect_then) (intro logged.keeps_basic)

lemma shutdown_releases:
  assumes S: "signals_ok S" and s: "tracked s" and m: "manager_shutdown S H timeout s = Some (s', r)"
  shows "r = Inr () \<and> (\<forall>c. Spawned c \<in> set (mg_log s') \<longrightarrow> released (mg_log s') (ch_pid c))"
proof -
  let ?cs = "mg_children s" and ?t = "s\<lparr>mg_closing := True, mg_stop := True\<rparr>"
  let ?sig = "\<lambda>g child. signal_process S H (ch_pid child) g"
  have w0: "spawned_within (set ?cs) ?t" using s by (simp add: tracked_def spawned_within_def)
  obtain s1 alive where 1: "alive_children S ?cs ?t = Some (s1, Inr alive)" by (rule returnsE [OF raising_alive])
  note al = alive_children_Some [OF 1] and w1 = keepsD [OF within.keeps_alive 1 w0]
  have open1: "\<not> mg_closing s" using s by (simp add: tracked_def)
  show ?thesis
  proof (cases "alive = []")
    case True
    then have "s' = s1" "r = Inr ()" using m 1 open1 by (simp_all add: manager_shutdown_def io_bind_def io_ret_def)
    then show ?thesis using al w1 True by (auto simp: released_def spawned_within_def)
  next
    case False
    obtain s2 u2 where 2: "for_each (?sig True) (rev alive) s1 = Some (s2, Inr u2)" by (rule returnsE [OF raising_for_each [OF returns_signal [OF S]]])
    obtain s3 now where 3: "ask (os_monotonic S) s2 = Some (s3, Inr now)" by (rule returnsE [OF raising_base(2)])
    obtain s4 u4 where 4: "for_each (await_exit S (py_add now timeout)) (rev alive) s3 = Some (s4, Inr u4)" by (rule returnsE [OF raising_for_each [OF raising_await]])
    obtain s5 left where 5: "alive_children S alive s4 = Some (s5, Inr left)" by (rule returnsE [OF raising_alive])
    obtain s6 u6 where 6: "for_each (?sig False) (rev left) s5 = Some (s6, Inr u6)" by (rule returnsE [OF raising_for_each [OF returns_signal [OF S]]])
    have fin: "s' = s6" "r = Inr ()" using m open1 False 1 2 3 4 5 6 by (simp_all add: manager_shutdown_def io_bind_def)
    have w6: "spawned_within (set ?cs) s6"
      using keepsD [OF keeps_for_each [OF within.keeps_signal] 6] keepsD [OF within.keeps_alive 5]
        keepsD [OF keeps_for_each [OF within.keeps_await] 4] keepsD [OF within.keeps_ask(1) 3]
        keepsD [OF keeps_for_each [OF within.keeps_signal] 2 w1] by blast
    have k5: "e \<in> set (mg_log s6)" if "e \<in> set (mg_log s5)" for e
      by (rule keepsD [OF keeps_for_each [OF logged.keeps_signal] 6 that])
    have k2: "e \<in> set (mg_log s6)" if "e \<in> set (mg_log s2)" for e
      using k5 keepsD [OF logged.keeps_alive 5] keepsD [OF keeps_for_each [OF logged.keeps_await] 4]
        keepsD [OF logged.keeps_ask(1) 3 that] by blast
    have k1: "e \<in> set (mg_log s6)" if "e \<in> set (mg_log s1)" for e
      by (rule k2, rule keepsD [OF keeps_for_each [OF logged.keeps_signal] 2 that])
    have asked: "Asked (ch_pid c) \<in> set (mg_log s2)" if "c \<in> set alive" for c
      by (rule for_each_logs [OF 2, where g = "\<lambda>c. Asked (ch_pid c)"])
        (use that signal_logs [where graceful = True] in simp, use signal_logs [where graceful = True] in force, rule logged.keeps_signal)
    have killed: "Killed (ch_pid c) \<in> set (mg_log s6)" if "c \<in> set left" for c
      by (rule for_each_logs [OF 6, where g = "\<lambda>c. Killed (ch_pid c)"])
        (use that signal_logs [where graceful = False] in simp, use signal_logs [where graceful = False] in force, rule logged.keeps_signal)
    show ?thesis
      using al alive_children_Some [OF 5] w6 k1 k2 k5 asked killed unfolding fin released_def spawned_within_def by blast
  qed
qed


text \<open>How a program that starts in \<open>P\<close> ends, when it ends.\<close>

definition ends :: "('s \<Rightarrow> bool) \<Rightarrow> ('s, 'a) prog \<Rightarrow> ('a res \<Rightarrow> 's \<Rightarrow> bool) \<Rightarrow> bool" where
  "ends P m Q \<longleftrightarrow> (\<forall>s s' r. P s \<longrightarrow> m s = Some (s', r) \<longrightarrow> Q r s')"

lemma ends_bind:
  "\<lbrakk>keeps P m; \<And>s e. P s \<Longrightarrow> Q (Inl e) s; \<And>x. ends P (k x) Q\<rbrakk> \<Longrightarrow> ends P (io_bind m k) Q"
  unfolding ends_def keeps_def by (blast elim: io_bindE)

lemma ends_branch:
  "\<lbrakk>b \<Longrightarrow> ends P m1 Q; \<not> b \<Longrightarrow> ends P m2 Q\<rbrakk> \<Longrightarrow> ends P (if b then m1 else m2) Q"
  "(\<And>y z. ends P (c y z) Q) \<Longrightarrow> ends P (case_prod c yz) Q"
  by (auto split: prod.splits)

lemma ends_ret: "(\<And>s. P s \<Longrightarrow> Q (Inr x) s) \<Longrightarrow> ends P (io_ret x) Q"
  by (auto simp: ends_def io_ret_def)

definition fresh :: "'o manager \<Rightarrow> bool" where
  "fresh s \<longleftrightarrow> mg_children s = [] \<and> \<not> mg_stop s \<and> \<not> mg_closing s \<and> mg_log s = []"

context manager_invariant
begin

lemma orchestrate_ends:
  assumes launch: "\<And>go certs good bad dashboard a'.
      ends I (try_finally (launch S H a' go certs good bad dashboard) (manager_shutdown S H (oa_shutdown_timeout a'))) Q"
    and raised: "\<And>s e. I s \<Longrightarrow> Q (Inl e) s" and checked: "\<And>s. I s \<Longrightarrow> oa_check_only a \<Longrightarrow> Q (Inr 0) s"
  shows "ends I (orchestrate S H a) Q"
  unfolding orchestrate_def
  by (intro ends_bind ends_branch ends_ret keeps_basic keeps_preparation keeps_prepare raised) (simp_all add: checked launch)

lemma keeps_shutdown:
  assumes "\<And>s. I s \<Longrightarrow> I (s\<lparr>mg_closing := True, mg_stop := True\<rparr>)"
  shows "keeps I (manager_shutdown S H timeout)"
proof -
  have k: "keeps I (io_bind (alive_children S cs) (\<lambda>alive.
        if alive = [] then io_ret ()
        else io_bind (for_each (\<lambda>child. signal_process S H (ch_pid child) True) (rev alive)) (\<lambda>_.
          io_bind (ask (os_monotonic S)) (\<lambda>now.
          io_bind (for_each (await_exit S (py_add now timeout)) (rev alive)) (\<lambda>_.
          io_bind (alive_children S alive) (\<lambda>left.
            for_each (\<lambda>child. signal_process S H (ch_pid child) False) (rev left)))))))" for cs
    by (intro keeps_basic keeps_alive keeps_signal keeps_await)
  show ?thesis
    unfolding keeps_def manager_shutdown_def using keepsD [OF k] assms by (auto split: if_split_asm)
qed

end

lemma try_finallyE:
  assumes "try_finally m f s = Some (s', r)"
  obtains s1 r1 r2 where "m s = Some (s1, r1)" "f s1 = Some (s', r2)" "r = (case r2 of Inl e \<Rightarrow> Inl e | Inr _ \<Rightarrow> r1)"
proof (cases "m s")
  case (Some p)
  then show ?thesis
    using assms that [of "fst p" "snd p"]
    by (cases "f (fst p)") (auto simp: try_finally_def split: sum.splits)
qed (use assms in \<open>simp add: try_finally_def\<close>)

definition prepared :: "'o manager \<Rightarrow> bool" where
  "prepared s \<longleftrightarrow> tracked s \<and> spawned_within {} s"

interpretation preparing: manager_invariant prepared
  by unfold_locales (auto simp: prepared_def tracked_def spawned_within_def)


section \<open>The exit code\<close>

definition stop_logged :: "'o manager \<Rightarrow> bool" where
  "stop_logged s \<longleftrightarrow> (mg_stop s \<longrightarrow> StopSeen \<in> set (mg_log s))"

interpretation stops: started_invariant stop_logged
  by unfold_locales (auto simp: stop_logged_def)

lemma stop_event_Some: "\<exists>s'. stop_event f s = Some (s', Inr (mg_stop s'))"
  by (cases "f (mg_os s)") (auto simp: stop_event_def)

lemma poll_child_Some:
  "poll_child S child s = Some (s', r) \<Longrightarrow> \<exists>code. r = Inr code \<and> mg_stop s' = mg_stop s \<and> mg_children s' = mg_children s \<and>
     mg_log s' = mg_log s @ [Polled (ch_pid child) code] \<and> mg_os s' = fst (os_poll S (ch_pid child) (mg_os s)) \<and>
     code = snd (os_poll S (ch_pid child) (mg_os s))"
  by (auto simp: poll_child_def io_bind_def ask_def effect_def io_ret_def split: prod.splits)

text \<open>A scan that returns nothing leaves the event alone; one that returns 0 has seen the final child end well.\<close>

lemma scan_Some:
  "scan_children S keep cs seen s = Some (s', r) \<Longrightarrow>
     (case r of Inl e \<Rightarrow> False
      | Inr (seen', None) \<Rightarrow> mg_stop s' = mg_stop s \<and> set (mg_log s) \<subseteq> set (mg_log s')
      | Inr (seen', Some code) \<Rightarrow> code = 0 \<longrightarrow> (\<exists>c \<in> set cs. ch_final c \<and> Polled (ch_pid c) (Some 0) \<in> set (mg_log s')))"
proof (induction cs arbitrary: seen s)
  case (Cons c cs)
  from Cons.prems obtain s1 code where p: "poll_child S c s = Some (s1, Inr code)"
    by (auto elim!: io_bindE dest: poll_child_Some)
  have q: "mg_stop s1 = mg_stop s" "mg_log s1 = mg_log s @ [Polled (ch_pid c) code]" using poll_child_Some [OF p] by auto
  consider (rest) seen2 where "scan_children S keep cs seen2 s1 = Some (s', r)"
    | (final) seen2 return_code where "code = Some return_code" "ch_final c" "s' = s1\<lparr>mg_stop := True\<rparr>" "r = Inr (seen2, Some return_code)"
    | (required) seen2 return_code where "r = Inr (seen2, Some return_code)" "return_code \<noteq> 0"
    using Cons.prems p by (auto simp: io_bind_def io_ret_def set_stop_def Let_def split: option.splits if_splits)
  then show ?case
  proof cases
    case rest
    from Cons.IH [OF this] q show ?thesis by (auto split: sum.splits option.splits prod.splits)
  qed (use q in auto)
qed (auto simp: io_ret_def)

lemma manager_wait_zero:
  assumes "manager_wait S keep seen s = Some (s', Inr 0)" "stop_logged s"
  shows "StopSeen \<in> set (mg_log s') \<or> (\<exists>c \<in> set (mg_children s'). ch_final c \<and> Polled (ch_pid c) (Some 0) \<in> set (mg_log s'))"
proof -
  let ?G = "\<lambda>s'. StopSeen \<in> set (mg_log s') \<or> (\<exists>c \<in> set (mg_children s'). ch_final c \<and> Polled (ch_pid c) (Some 0) \<in> set (mg_log s'))"
  have "stop_logged s \<longrightarrow> snd (s', Inr 0) = (Inr 0 :: int res) \<longrightarrow> ?G (fst (s', Inr 0 :: int res))"
  proof (rule manager_wait.raw_induct [where P = "\<lambda>S keep seen s y. stop_logged s \<longrightarrow> snd y = Inr 0 \<longrightarrow> ?G (fst y)", OF _ assms(1)], intro impI, goal_cases)
    case (1 f S keep seen s y)
    obtain s1 stopped where e: "stop_event (os_stop_wait S) s = Some (s1, Inr stopped)" and st: "stopped = mg_stop s1"
      using stop_event_Some by blast
    have l: "stop_logged s1" by (rule keepsD [OF stops.keeps_stop_event e 1(3)])
    show ?case
    proof (cases stopped)
      case True
      then show ?thesis using 1(2) e l st by (auto simp: io_bind_def io_ret_def stop_logged_def)
    next
      case False
      then obtain s2 r2 where sc: "scan_children S keep (mg_children s1) seen s1 = Some (s2, r2)"
        using 1(2) e by (cases "scan_children S keep (mg_children s1) seen s1") (auto simp: io_bind_def)
      note q = scan_Some [OF sc]
      then obtain seen2 v where r2: "r2 = Inr (seen2, v)" by (auto split: sum.splits)
      have sub: "c \<in> set (mg_children s2)" if "c \<in> set (mg_children s1)" for c by (rule keepsD [OF enrolled.keeps_scan sc that])
      show ?thesis
      proof (cases v)
        case None
        then have "f S keep seen2 s2 = Some y" using 1(2) e False sc r2 by (simp add: io_bind_def)
        moreover have "stop_logged s2" using q r2 None l by (auto simp: stop_logged_def)
        ultimately show ?thesis using 1(1,4) by blast
      next
        case (Some code)
        then have "y = (s2, Inr code)" using 1(2) e False sc r2 by (simp add: io_bind_def io_ret_def)
        then show ?thesis using 1(4) q r2 Some sub by auto
      qed
    qed
  qed
  then show ?thesis using assms(2) by simp
qed

text \<open>
  C39: Exit code 0 means success. The orchestrator returns 0 only when it was asked to check the prerequisites and did,
  when a signal to stop arrived, or when the training process was seen to end with return code 0; a component
  that fails, or a training that fails, is never reported as success.
\<close>

theorem orchestrate_zero_means_success:
  assumes "fresh s" "orchestrate S H a s = Some (s', Inr 0)"
  shows "oa_check_only a \<or> StopSeen \<in> set (mg_log s') \<or>
    (\<exists>c \<in> set (mg_children s'). ch_final c \<and> Polled (ch_pid c) (Some 0) \<in> set (mg_log s'))"
proof -
  let ?G = "\<lambda>s'. StopSeen \<in> set (mg_log s') \<or> (\<exists>c \<in> set (mg_children s'). ch_final c \<and> Polled (ch_pid c) (Some 0) \<in> set (mg_log s'))"
  let ?Q = "\<lambda>r s. r = Inr 0 \<longrightarrow> oa_check_only a \<or> ?G s"
  have "ends stop_logged (orchestrate S H a) ?Q"
  proof (rule stops.orchestrate_ends)
    fix go certs good bad dashboard a'
    show "ends stop_logged (try_finally (launch S H a' go certs good bad dashboard) (manager_shutdown S H (oa_shutdown_timeout a'))) ?Q"
      unfolding ends_def
    proof (intro allI impI)
      fix s s' r
      assume i: "stop_logged s" and z: "r = Inr 0"
        and t: "try_finally (launch S H a' go certs good bad dashboard) (manager_shutdown S H (oa_shutdown_timeout a')) s = Some (s', r)"
      from t have "?G s'"
      proof (rule try_finallyE)
        fix s1 r1 r2
        assume l: "launch S H a' go certs good bad dashboard s = Some (s1, r1)" and m: "manager_shutdown S H (oa_shutdown_timeout a') s1 = Some (s', r2)"
          and r: "r = (case r2 of Inl e \<Rightarrow> Inl e | Inr _ \<Rightarrow> r1)"
        then have "r1 = Inr 0" using z by (auto split: sum.splits)
        then obtain s0 u where w: "start_all S H a' go certs good bad dashboard s = Some (s0, Inr u)" "manager_wait S (oa_keep_alive a') {} s0 = Some (s1, Inr 0)"
          using l unfolding launch_def by (auto elim: io_bindE)
        have "?G s1" by (rule manager_wait_zero [OF w(2) keepsD [OF stops.keeps_start_all w(1) i]])
        moreover have "e \<in> set (mg_log s')" if "e \<in> set (mg_log s1)" for e by (rule keepsD [OF logged.keeps_shutdown m that]) simp
        moreover have "c \<in> set (mg_children s')" if "c \<in> set (mg_children s1)" for c by (rule keepsD [OF enrolled.keeps_shutdown m that]) simp
        ultimately show ?thesis by blast
      qed
      then show "oa_check_only a \<or> ?G s'" ..
    qed
  qed simp_all
  moreover have "stop_logged s" using assms(1) by (simp add: fresh_def stop_logged_def)
  ultimately show ?thesis using assms(2) unfolding ends_def by blast
qed


section \<open>The polling loops end\<close>

text \<open>
  What the loops rely on: no operation turns the clock back, a reading is not behind the clock, a sleep and a wait on the
  event that times out take their time.
\<close>

definition steady :: "('o \<Rightarrow> real) \<Rightarrow> ('o \<Rightarrow> 'o \<times> 'a) \<Rightarrow> bool" where
  "steady clock f \<longleftrightarrow> (\<forall>w. clock w \<le> clock (fst (f w)))"

definition clock_ok :: "'o os \<Rightarrow> ('o \<Rightarrow> real) \<Rightarrow> bool" where
  "clock_ok S clock \<longleftrightarrow>
     (\<forall>path. steady clock (os_exists S path)) \<and> (\<forall>port. steady clock (os_port_open S port)) \<and> (\<forall>pid. steady clock (os_poll S pid)) \<and>
     steady clock (os_monotonic S) \<and> steady clock (os_stop_seen S) \<and> steady clock (os_stop_wait S) \<and>
     (\<forall>w. \<exists>x. snd (os_monotonic S w) = Fin x \<and> clock w \<le> x) \<and>
     (\<forall>w d. clock w + d \<le> clock (fst (os_sleep S (Fin d) w))) \<and>
     (\<forall>w. \<not> snd (os_stop_wait S w) \<longrightarrow> clock w + 1 / 4 \<le> clock (fst (os_stop_wait S w)))"

lemma ask_Some: "ask f s = Some (s\<lparr>mg_os := fst (f (mg_os s))\<rparr>, Inr (snd (f (mg_os s))))"
  by (simp add: ask_def split: prod.splits)

lemma fifth: obtains d where "decimal (2 / 10) = Fin d" "1 / 8 \<le> d"
proof -
  obtain q where "decimal (2 / 10) = Fin q" "\<bar>q - 2 / 10\<bar> \<le> 1 / 2 ^ 53" by (rule rnd64_fraction [of "2 / 10"]) auto
  moreover have "1 / 2 ^ 53 \<le> (1 / 100 :: real)" by simp
  ultimately show ?thesis using that [of q] by linarith
qed

text \<open>Programs that end when they start no earlier than \<open>t\<close>, and steps that end at once.\<close>

definition lasting :: "('o \<Rightarrow> real) \<Rightarrow> real \<Rightarrow> ('o manager, 'a) prog \<Rightarrow> bool" where
  "lasting clock t m \<longleftrightarrow> (\<forall>s. t \<le> clock (mg_os s) \<longrightarrow> m s \<noteq> None)"

definition prompt :: "('o \<Rightarrow> real) \<Rightarrow> ('o manager, 'a) prog \<Rightarrow> bool" where
  "prompt clock m \<longleftrightarrow> (\<forall>s. \<exists>s' r. m s = Some (s', r) \<and> clock (mg_os s) \<le> clock (mg_os s'))"

lemma prompt_ask: "steady clock f \<Longrightarrow> prompt clock (ask f)"
  by (simp add: prompt_def ask_Some steady_def)

lemma prompt_poll: "steady clock (os_poll S (ch_pid child)) \<Longrightarrow> prompt clock (poll_child S child)"
  by (simp add: prompt_def poll_child_def io_bind_def ask_Some effect_def io_ret_def steady_def)

lemma prompt_stop_event: "steady clock f \<Longrightarrow> prompt clock (stop_event f)"
  unfolding prompt_def
proof
  fix s :: "'a manager" assume "steady clock f"
  then have "clock (mg_os s) \<le> clock (fst (f (mg_os s)))" by (simp add: steady_def)
  then show "\<exists>s' r. stop_event f s = Some (s', r) \<and> clock (mg_os s) \<le> clock (mg_os s')"
    by (cases "f (mg_os s)") (simp add: stop_event_def)
qed

lemma lasting_ret: "lasting clock t (io_ret x)" "lasting clock t (io_raise e)"
  by (simp_all add: lasting_def io_ret_def io_raise_def)

lemma lasting_if: "\<lbrakk>b \<Longrightarrow> lasting clock t m1; \<not> b \<Longrightarrow> lasting clock t m2\<rbrakk> \<Longrightarrow> lasting clock t (\<lambda>s. if b then m1 s else m2 s)"
  by (cases b) simp_all

lemma lasting_bind:
  fixes m :: "('o manager, 'a) prog"
  assumes "prompt clock m" "\<And>x. lasting clock t (k x)"
  shows "lasting clock t (io_bind m k)"
  unfolding lasting_def
proof (intro allI impI)
  fix s :: "'o manager" assume t: "t \<le> clock (mg_os s)"
  obtain s' r where m: "m s = Some (s', r)" "clock (mg_os s) \<le> clock (mg_os s')" using assms(1) unfolding prompt_def by blast
  show "io_bind m k s \<noteq> None"
    using m t assms(2) by (cases r) (auto simp: io_bind_def lasting_def)
qed

lemma lasting_sleep:
  assumes "clock_ok S clock" "lasting clock (t + 1 / 8) m"
  shows "lasting clock t (io_bind (ask (os_sleep S (decimal (2 / 10)))) (\<lambda>_. m))"
proof -
  obtain d where d: "decimal (2 / 10) = Fin d" "1 / 8 \<le> d" by (rule fifth)
  have "t + 1 / 8 \<le> clock (fst (os_sleep S (Fin d) w))" if "t \<le> clock w" for w
  proof -
    have "clock w + d \<le> clock (fst (os_sleep S (Fin d) w))" using assms(1) by (simp add: clock_ok_def)
    then show ?thesis using that d(2) by linarith
  qed
  then show ?thesis using assms(2) unfolding lasting_def d(1) by (simp add: io_bind_def ask_Some)
qed

text \<open>A program ends at any time if it ends late, and at \<open>t\<close> whenever it ends an eighth of a second after \<open>t\<close>.\<close>

lemma lasting_always:
  assumes "lasting clock D m" "\<And>t. lasting clock (t + 1 / 8) m \<Longrightarrow> lasting clock t m"
  shows "m s \<noteq> None"
proof -
  have "lasting clock (D - of_nat n / 8) m" for n
  proof (induction n)
    case (Suc n)
    have "D - of_nat (Suc n) / 8 + 1 / 8 = D - of_nat n / 8" by (simp add: field_simps)
    then show ?case using assms(2) Suc by metis
  qed (use assms(1) in simp)
  moreover obtain n where "(D - clock (mg_os s)) * 8 \<le> of_nat n" using real_arch_simple by blast
  then have "D - of_nat n / 8 \<le> clock (mg_os s)" by (simp add: field_simps)
  ultimately show ?thesis unfolding lasting_def by blast
qed

lemma past_deadline:
  assumes "clock_ok S clock" "deadline \<noteq> PInf"
  shows "\<exists>D. \<forall>w. D \<le> clock w \<longrightarrow> \<not> fl_less (snd (os_monotonic S w)) deadline"
proof -
  obtain D where D: "\<And>x. D \<le> x \<Longrightarrow> \<not> fl_less (Fin x) deadline" using assms(2) by (cases deadline) (auto simp: not_less)
  have "\<not> fl_less (snd (os_monotonic S w)) deadline" if w: "D \<le> clock w" for w
  proof -
    obtain x where "snd (os_monotonic S w) = Fin x" "clock w \<le> x" using assms(1) unfolding clock_ok_def by blast
    then show ?thesis using D [of x] w by simp
  qed
  then show ?thesis by blast
qed

lemma wait_port_loop_ends:
  assumes C: "clock_ok S clock" and "deadline \<noteq> PInf"
  shows "wait_port_loop S child port deadline s \<noteq> None"
proof -
  obtain D where D: "\<And>w. D \<le> clock w \<Longrightarrow> \<not> fl_less (snd (os_monotonic S w)) deadline" using past_deadline [OF assms] by blast
  note steps = prompt_ask prompt_poll prompt_stop_event lasting_ret lasting_if lasting_bind
  have p: "steady clock (os_monotonic S)" "steady clock (os_stop_seen S)" "steady clock (os_poll S pid)" "steady clock (os_port_open S port)" for pid
    using C by (simp_all add: clock_ok_def)
  show ?thesis
  proof (rule lasting_always [where clock = clock and D = D])
    show "lasting clock D (wait_port_loop S child port deadline)"
      unfolding lasting_def by (subst wait_port_loop.simps) (simp add: io_bind_def ask_Some io_raise_def D)
    fix t assume IH: "lasting clock (t + 1 / 8) (wait_port_loop S child port deadline)"
    have "lasting clock t (\<lambda>s. wait_port_loop S child port deadline s)"
      by (subst wait_port_loop.simps) (intro steps p lasting_sleep [OF C] IH)
    then show "lasting clock t (wait_port_loop S child port deadline)" .
  qed
qed

lemma health_loop_ends:
  assumes C: "clock_ok S clock" and "deadline \<noteq> PInf"
  shows "health_loop S child path deadline s \<noteq> None"
proof -
  obtain D where D: "\<And>w. D \<le> clock w \<Longrightarrow> \<not> fl_less (snd (os_monotonic S w)) deadline" using past_deadline [OF assms] by blast
  note steps = prompt_ask prompt_poll lasting_ret lasting_if lasting_bind
  have p: "steady clock (os_monotonic S)" "steady clock (os_exists S path)" "steady clock (os_poll S pid)" for pid
    using C by (simp_all add: clock_ok_def)
  show ?thesis
  proof (rule lasting_always [where clock = clock and D = D])
    have "D \<le> clock (fst (os_exists S path w))" if "D \<le> clock w" for w using p(2) that unfolding steady_def by (metis order_trans)
    then show "lasting clock D (health_loop S child path deadline)"
      unfolding lasting_def by (subst health_loop.simps) (simp add: io_bind_def ask_Some io_ret_def D)
    fix t assume IH: "lasting clock (t + 1 / 8) (health_loop S child path deadline)"
    have "lasting clock t (\<lambda>s. health_loop S child path deadline s)"
      by (subst health_loop.simps) (intro steps p lasting_sleep [OF C] IH)
    then show "lasting clock t (health_loop S child path deadline)" .
  qed
qed

text \<open>A scan ends; when it returns nothing, it has met the final child running.\<close>

lemma scan_ends:
  assumes "\<And>pid. steady clock (os_poll S pid)"
  shows "\<exists>s' seen' v. scan_children S False cs seen s = Some (s', Inr (seen', v)) \<and> clock (mg_os s) \<le> clock (mg_os s') \<and>
    mg_children s' = mg_children s \<and> (v = None \<longrightarrow> seen' \<subseteq> seen \<union> ch_pid ` {c \<in> set cs. \<not> ch_final c}) \<and>
    (v = None \<longrightarrow> (\<forall>c \<in> set cs. ch_final c \<longrightarrow> ch_pid c \<notin> seen \<longrightarrow> ch_pid c \<notin> ch_pid ` {c \<in> set cs. \<not> ch_final c} \<longrightarrow>
       (\<exists>w. clock (mg_os s) \<le> clock w \<and> snd (os_poll S (ch_pid c) w) = None)))"
proof (induction cs arbitrary: seen s)
  case (Cons c cs)
  let ?P = "\<lambda>seen s s' seen' v cs. clock (mg_os s) \<le> clock (mg_os s') \<and>
    mg_children s' = mg_children s \<and> (v = None \<longrightarrow> seen' \<subseteq> seen \<union> ch_pid ` {c \<in> set cs. \<not> ch_final c}) \<and>
    (v = None \<longrightarrow> (\<forall>c \<in> set cs. ch_final c \<longrightarrow> ch_pid c \<notin> seen \<longrightarrow> ch_pid c \<notin> ch_pid ` {c \<in> set cs. \<not> ch_final c} \<longrightarrow>
       (\<exists>w. clock (mg_os s) \<le> clock w \<and> snd (os_poll S (ch_pid c) w) = None)))"
  let ?code = "snd (os_poll S (ch_pid c) (mg_os s))"
  obtain s1 where p: "poll_child S c s = Some (s1, Inr ?code)" "mg_os s1 = fst (os_poll S (ch_pid c) (mg_os s))" "mg_children s1 = mg_children s"
    by (simp add: poll_child_def io_bind_def ask_Some effect_def io_ret_def)
  have t: "clock (mg_os s) \<le> clock (mg_os s1)" using assms p(2) by (simp add: steady_def)
  consider (rest) seen2 where "scan_children S False (c # cs) seen s = scan_children S False cs seen2 s1"
      "seen2 = seen \<and> (?code = None \<or> ch_pid c \<in> seen) \<or> seen2 = insert (ch_pid c) seen \<and> \<not> ch_final c"
    | (stop) v seen2 where "scan_children S False (c # cs) seen s = Some (s1\<lparr>mg_stop := True\<rparr>, Inr (seen2, Some v))"
  proof (cases "?code = None \<or> ch_pid c \<in> seen")
    case True
    then have "scan_children S False (c # cs) seen s = scan_children S False cs seen s1"
      using p(1) by (cases ?code) (auto simp: io_bind_def)
    then show ?thesis using True rest by blast
  next
    case False
    show ?thesis
    proof (cases "ch_final c \<or> \<not> ch_optional c \<and> \<not> mg_closing s1")
      case True
      then obtain v where "scan_children S False (c # cs) seen s = Some (s1\<lparr>mg_stop := True\<rparr>, Inr (insert (ch_pid c) seen, Some v))"
        using p(1) False by (cases ?code; cases "ch_final c") (auto simp: io_bind_def io_ret_def set_stop_def Let_def)
      then show ?thesis by (rule stop)
    next
      case going: False
      then have "scan_children S False (c # cs) seen s = scan_children S False cs (insert (ch_pid c) seen) s1"
        using p(1) False by (cases ?code) (auto simp: io_bind_def Let_def)
      then show ?thesis using going rest by blast
    qed
  qed
  then show ?case
  proof cases
    case rest
    obtain s' seen' v where ih: "scan_children S False cs seen2 s1 = Some (s', Inr (seen', v))" "?P seen2 s1 s' seen' v cs"
      using Cons.IH [of seen2 s1] by blast
    have base: "clock (mg_os s) \<le> clock (mg_os s')" "mg_children s' = mg_children s" using ih(2) t p(3) by simp_all
    have sub: "seen' \<subseteq> seen \<union> ch_pid ` {d \<in> set (c # cs). \<not> ch_final d}" if "v = None" using ih(2) rest(2) that by auto
    have poll: "\<exists>w. clock (mg_os s) \<le> clock w \<and> snd (os_poll S (ch_pid x) w) = None"
      if v: "v = None" and x: "x \<in> set (c # cs)" "ch_final x" "ch_pid x \<notin> seen" "ch_pid x \<notin> ch_pid ` {d \<in> set (c # cs). \<not> ch_final d}" for x
    proof (cases "?code = None \<and> x = c")
      case True
      then show ?thesis by auto
    next
      case other: False
      have "x \<in> set cs" "ch_pid x \<notin> seen2" using x rest(2) other by auto
      then obtain w where "clock (mg_os s1) \<le> clock w" "snd (os_poll S (ch_pid x) w) = None" using ih(2) v x(2,4) by auto
      then show ?thesis using t order_trans by blast
    qed
    show ?thesis
      by (intro exI [of _ s'] exI [of _ seen'] exI [of _ v] conjI impI ballI base sub poll; (assumption | simp only: rest(1) ih(1))?)
  qed (use t p in auto)
qed (simp add: io_ret_def)


lemma manager_wait_again:
  assumes C: "clock_ok S clock" and c: "c \<in> set (mg_children s)" "ch_final c" "distinct (map ch_pid (mg_children s))" "ch_pid c \<notin> seen"
    and none: "manager_wait S False seen s = None"
  obtains s' seen' w where "manager_wait S False seen' s' = None" "mg_children s' = mg_children s" "ch_pid c \<notin> seen'"
    "clock (mg_os s) + 1 / 4 \<le> clock (mg_os s')" "clock (mg_os s) + 1 / 4 \<le> clock w" "snd (os_poll S (ch_pid c) w) = None"
proof -
  have p: "steady clock (os_poll S pid)" for pid using C by (simp add: clock_ok_def)
  obtain s1 where e: "stop_event (os_stop_wait S) s = Some (s1, Inr (mg_stop s1))" using stop_event_Some by blast
  have go: "\<not> mg_stop s1" using none e by (subst (asm) manager_wait.simps) (auto simp: io_bind_def io_ret_def)
  have "\<not> snd (os_stop_wait S (mg_os s)) \<longrightarrow> clock (mg_os s) + 1 / 4 \<le> clock (fst (os_stop_wait S (mg_os s)))"
    using C by (simp add: clock_ok_def)
  then have s1: "mg_children s1 = mg_children s" "clock (mg_os s) + 1 / 4 \<le> clock (mg_os s1)"
    using e go by (auto simp: stop_event_def split: if_split_asm prod.splits)
  obtain s2 seen2 v where sc: "scan_children S False (mg_children s1) seen s1 = Some (s2, Inr (seen2, v))"
      "clock (mg_os s1) \<le> clock (mg_os s2)" "mg_children s2 = mg_children s1"
      "v = None \<Longrightarrow> seen2 \<subseteq> seen \<union> ch_pid ` {c \<in> set (mg_children s1). \<not> ch_final c}"
      "v = None \<Longrightarrow> ch_pid c \<notin> ch_pid ` {c \<in> set (mg_children s1). \<not> ch_final c} \<Longrightarrow>
         \<exists>w. clock (mg_os s1) \<le> clock w \<and> snd (os_poll S (ch_pid c) w) = None"
    using scan_ends [of clock S, OF p, of "mg_children s1" seen s1] c(1,2,4) unfolding s1(1) by blast
  have alone: "ch_pid c \<notin> ch_pid ` {c \<in> set (mg_children s1). \<not> ch_final c}"
    using c(1-3) unfolding s1(1) by (auto simp: distinct_map dest: inj_onD)
  have "manager_wait S False seen s = (case v of None \<Rightarrow> manager_wait S False seen2 s2 | Some code \<Rightarrow> Some (s2, Inr code))"
    using e go sc(1) by (subst manager_wait.simps) (cases v; simp add: io_bind_def io_ret_def)
  then have v: "v = None" "manager_wait S False seen2 s2 = None" using none by (cases v; simp)+
  obtain w where "clock (mg_os s1) \<le> clock w" "snd (os_poll S (ch_pid c) w) = None" using sc(5) [OF v(1) alone] by blast
  moreover have "ch_pid c \<notin> seen2" using sc(4) [OF v(1)] alone c(4) by blast
  ultimately show ?thesis using that [of seen2 s2 w] v(2) sc(2,3) s1 by simp
qed

lemma manager_wait_ends:
  assumes C: "clock_ok S clock" and c: "c \<in> set (mg_children s)" "ch_final c" "distinct (map ch_pid (mg_children s))" "ch_pid c \<notin> seen"
    and T: "\<And>w. T \<le> clock w \<Longrightarrow> snd (os_poll S (ch_pid c) w) \<noteq> None"
  shows "manager_wait S False seen s \<noteq> None"
proof -
  obtain n where n: "(T - clock (mg_os s)) * 4 \<le> of_nat n" using real_arch_simple by blast
  then have "T - of_nat n / 4 \<le> clock (mg_os s)" by (simp add: field_simps)
  then show ?thesis using c
  proof (induction n arbitrary: s seen)
    case 0
    show ?case
    proof
      assume "manager_wait S False seen s = None"
      from C 0(2-5) this obtain w where "clock (mg_os s) + 1 / 4 \<le> clock w" "snd (os_poll S (ch_pid c) w) = None" by (rule manager_wait_again)
      then show False using T [of w] 0(1) by simp
    qed
  next
    case (Suc n)
    show ?case
    proof
      assume "manager_wait S False seen s = None"
      from C Suc(3-6) this obtain s' seen' where a: "manager_wait S False seen' s' = None" "mg_children s' = mg_children s" "ch_pid c \<notin> seen'"
        "clock (mg_os s) + 1 / 4 \<le> clock (mg_os s')" by (rule manager_wait_again)
      then have "T - of_nat n / 4 \<le> clock (mg_os s')" using Suc(2) by (simp add: field_simps)
      from Suc(1) [OF this, of seen'] a Suc(3-5) show False by simp
    qed
  qed
qed



section \<open>A concrete run\<close>

text \<open>
  A system whose state is its clock: starting a process, sleeping and waiting take time, ports are open once a
  process runs, the first process never ends by itself and every other one ends well at time 4.
\<close>

definition os_example :: "nat os" where
  "os_example = \<lparr>os_which = (\<lambda>name w. (w, Some name)), os_call = (\<lambda>cmd w. (w, Inr 0)), os_exists = (\<lambda>path w. (w, True)),
     os_file_size = (\<lambda>path w. (w, Inr 1)), os_mkdir = (\<lambda>path w. (w, Inr ())), os_unlink = (\<lambda>path w. (w, Inr ())),
     os_port_open = (\<lambda>port w. (w, 0 < w)), os_popen = (\<lambda>cmd cwd w. (Suc w, Inr w)),
     os_poll = (\<lambda>pid w. (w, if 0 < pid \<and> 4 \<le> w then Some 0 else None)), os_wait = (\<lambda>pid timeout w. (w, False)),
     os_killpg = (\<lambda>pid graceful w. (w, Inr ())), os_ctrl_break = (\<lambda>pid w. (w, Inr ())), os_terminate = (\<lambda>pid w. (w, Inr ())),
     os_kill = (\<lambda>pid w. (w, Inr ())), os_monotonic = (\<lambda>w. (w, Fin (of_nat w))),
     os_sleep = (\<lambda>d w. (w + nat \<lceil>val d\<rceil>, ())), os_stop_wait = (\<lambda>w. (Suc w, False)), os_stop_seen = (\<lambda>w. (w, False))\<rparr>"

definition host_example :: host where
  "host_example = \<lparr>h_nt = False, h_version = (3, 12), h_executable = ''python'', h_root = ''/zt'', h_join = (\<lambda>a b. a @ ''/'' @ b),
     h_is_absolute = (\<lambda>p. p \<noteq> [] \<and> hd p = CHR ''/''), h_resolve = (\<lambda>p. p), h_str_float = (\<lambda>x. ''0.25'')\<rparr>"

definition run_args_example :: orch_args where
  "run_args_example = (orch_namespace False (\<lambda>name. None) Map.empty)\<lparr>oa_network_workers := False, oa_dashboard := False\<rparr>"

definition manager_example :: "nat manager" where
  "manager_example = \<lparr>mg_os = 0, mg_children = [], mg_stop = False, mg_closing = False, mg_log = []\<rparr>"

lemma run_args_fields:
  "oa_benign_workers run_args_example = 3" "oa_malicious_workers run_args_example = 1" "oa_check_only run_args_example = False"
  "oa_network_workers run_args_example = False" "oa_dashboard run_args_example = False" "oa_force_cert_regen run_args_example = False"
  "oa_startup_timeout run_args_example = Fin 90" "oa_shutdown_timeout run_args_example = Fin 12" "oa_keep_alive run_args_example = False"
  by (simp_all add: run_args_example_def orch_namespace_def arg_int_def arg_float_def arg_bool_def)

lemma signals_ok_example: "signals_ok os_example"
  by (simp add: signals_ok_def raises_only_def os_example_def)

lemma clock_ok_example: "clock_ok os_example real"
  by (simp add: clock_ok_def steady_def os_example_def) linarith

lemma fresh_example: "fresh manager_example"
  by (simp add: fresh_def manager_example_def)

lemma os_example_fields:
  "os_which os_example name w = (w, Some name)" "os_call os_example cmd w = (w, Inr 0)" "os_exists os_example path w = (w, True)"
  "os_file_size os_example path w = (w, Inr 1)" "os_mkdir os_example path w = (w, Inr ())" "os_unlink os_example path w = (w, Inr ())"
  "os_port_open os_example port w = (w, 0 < w)" "os_popen os_example cmd cwd w = (Suc w, Inr w)"
  "os_poll os_example pid w = (w, if 0 < pid \<and> 4 \<le> w then Some 0 else None)" "os_wait os_example pid timeout w = (w, False)"
  "os_killpg os_example pid graceful w = (w, Inr ())" "os_monotonic os_example w = (w, Fin (of_nat w))"
  "os_sleep os_example d w = (w + nat \<lceil>val d\<rceil>, ())" "os_stop_wait os_example w = (Suc w, False)" "os_stop_seen os_example w = (w, False)"
  by (simp_all add: os_example_def)

lemmas io_eval = io_bind_def io_ret_def io_raise_def io_guard_def io_when_def ask_Some attempt_def effect_def os_example_fields Let_def

lemma prepare_example:
  "require_paths os_example host_example paths s = Some (s, Inr ())" "prepare os_example host_example a s = Some (s, Inr ''go'')"
  "all_present os_example paths s = Some (s, Inr True)"
proof -
  show "require_paths os_example host_example paths s = Some (s, Inr ())"
    by (induction paths) (simp_all add: io_eval)
  show "all_present os_example paths s = Some (s, Inr True)"
    by (induction paths) (simp_all add: io_eval)
  show "prepare os_example host_example a s = Some (s, Inr ''go'')"
    by (simp add: prepare_def available_def run_checked_def io_eval host_example_def)
qed

definition coordinator_child :: Child where
  "coordinator_child = \<lparr>ch_name = ''go-coordinator'', ch_pid = 0, ch_final = False, ch_optional = False\<rparr>"

definition training_child :: Child where
  "training_child = \<lparr>ch_name = ''federated-training'', ch_pid = 1, ch_final = True, ch_optional = False\<rparr>"

lemma wait_port_example: "wait_port os_example coordinator_child port (Fin 90)
    \<lparr>mg_os = 1, mg_children = cs, mg_stop = False, mg_closing = False, mg_log = es\<rparr> =
  Some (\<lparr>mg_os = 1, mg_children = cs, mg_stop = False, mg_closing = False, mg_log = es @ [Polled 0 None]\<rparr>, Inr ())"
  unfolding wait_port_def
  by (simp add: io_eval rnd64_ints) (subst wait_port_loop.simps, simp add: io_eval stop_event_def poll_child_def coordinator_child_def)

lemma start_all_example:
  assumes "trainer_argv (\<lambda>x. ''0.25'') run_args_example = Inr argv"
  shows "start_all os_example host_example run_args_example go certs good bad None manager_example =
    Some (\<lparr>mg_os = 3, mg_children = [coordinator_child, training_child], mg_stop = False, mg_closing = False,
           mg_log = [Spawned coordinator_child, Polled 0 None, Spawned training_child, Polled 1 None]\<rparr>, Inr ())"
proof -
  have str: "h_str_float host_example = (\<lambda>x. ''0.25'')" by (simp add: host_example_def)
  have half: "\<lceil>1 / 2 :: real\<rceil> = 1" by (simp add: ceiling_eq_iff)
  note start = manager_start_def coordinator_child_def [symmetric] training_child_def [symmetric]
  show ?thesis
    unfolding start_all_def
    using assms wait_port_example [of _ "[coordinator_child]" "[Spawned coordinator_child]"]
    by (simp add: io_eval start run_args_fields manager_example_def poll_child_def str) (simp add: training_child_def half)
qed

lemma manager_wait_example:
  "manager_wait os_example False {} \<lparr>mg_os = 3, mg_children = [coordinator_child, training_child], mg_stop = False, mg_closing = False, mg_log = es\<rparr> =
   Some (\<lparr>mg_os = 4, mg_children = [coordinator_child, training_child], mg_stop = True, mg_closing = False,
          mg_log = es @ [Polled 0 None, Polled 1 (Some 0)]\<rparr>, Inr 0)"
  by (subst manager_wait.simps) (simp add: io_eval stop_event_def poll_child_def set_stop_def coordinator_child_def training_child_def)

lemma shutdown_example:
  "manager_shutdown os_example host_example t \<lparr>mg_os = 4, mg_children = [coordinator_child, training_child], mg_stop = True, mg_closing = False, mg_log = es\<rparr> =
   Some (\<lparr>mg_os = 4, mg_children = [coordinator_child, training_child], mg_stop = True, mg_closing = True,
          mg_log = es @ [Polled 0 None, Polled 1 (Some 0), Asked 0, Waited 0 False, Polled 0 None, Killed 0]\<rparr>, Inr ())"
  by (simp add: manager_shutdown_def io_eval poll_child_def signal_process_def io_catch_def await_exit_def coordinator_child_def training_child_def host_example_def)

lemma orchestrate_example:
  "\<exists>s. orchestrate os_example host_example run_args_example manager_example = Some (s, Inr 0) \<and>
     mg_children s = [coordinator_child, training_child] \<and> Spawned coordinator_child \<in> set (mg_log s) \<and> StopSeen \<notin> set (mg_log s)"
proof -
  have n: "client_count run_args_example = 4" by (simp add: client_count_def run_args_fields)
  obtain argv where argv: "trainer_argv (\<lambda>x. ''0.25'') run_args_example = Inr argv"
    by (simp add: trainer_argv_def Let_def run_args_fields n py_truediv_def rnd64_quarters)
  obtain good bad where ids: "worker_ids run_args_example = Inr (good, bad)"
    by (simp add: worker_ids_def run_args_fields)
  show ?thesis
    using ids start_all_example [OF argv] manager_wait_example shutdown_example prepare_example
    unfolding orchestrate_def launch_def
    by (simp add: io_eval ensure_certs_def choose_dashboard_port_def prepare_dashboard_def run_args_fields io_catch_def try_finally_def manager_example_def)
qed


theorem orchestrate_zero_means_success_witness:
  "\<exists>s. orchestrate os_example host_example run_args_example manager_example = Some (s, Inr 0) \<and>
     (\<exists>c. c \<in> set (mg_children s) \<and> ch_final c \<and> Polled (ch_pid c) (Some 0) \<in> set (mg_log s))"
proof -
  obtain s where s: "orchestrate os_example host_example run_args_example manager_example = Some (s, Inr 0)" "StopSeen \<notin> set (mg_log s)"
    using orchestrate_example by blast
  from orchestrate_zero_means_success [OF fresh_example s(1)] s show ?thesis by (auto simp: run_args_fields)
qed


end
