(* ===== verification/Spec2Isabelle.thy ===== *)
theory Spec2Isabelle
  imports Round_Protocol CKKS Process_Manager
begin

text \<open>
  A verification development of ZeroTrust-FL-Sim, a simulator of federated learning with Byzantine clients.

  \<^bold>\<open>The program.\<close> A coordinator process holds a global model and runs rounds: it selects clients, sends each the
  current parameters through a command queue, collects their updates from a shared result queue until a quorum or
  a deadline, combines the updates with a robust rule and applies the result to the model. Worker processes train
  on their part of the data; a malicious one poisons its labels or its update; a private one clips its update and
  adds noise. The combination rules exist twice, in PyTorch and in a C++/CUDA extension. A second deployment runs
  the workers as network clients of a coordinator service over mutually authenticated gRPC, and a third variant
  adds the updates under homomorphic encryption (CKKS). A runner builds a simulation from a command line; an
  orchestrator starts the service, the networked workers, the dashboard and the runner as child processes.

  \<^bold>\<open>Theories and sources\<close> (paths below \<open>src/\<close>).
  \<^item> \<open>ZT_Prelude\<close>: exceptions and results, the contract of validated configuration classes, list facts.
  \<^item> \<open>IEEE_Float\<close>: binary32 and binary64 arithmetic with rounding to nearest even. \<open>Py_String\<close>: string methods and
    decimal numerals. \<open>Argparse\<close>: the part of \<open>argparse\<close> the programs use.
  \<^item> \<open>Tensor\<close>: tensors and the PyTorch operations the code calls (record \<open>torch\<close>).
  \<^item> \<open>Partitioner\<close>: \<open>fl/zerotrust_fl/data/partitioner.py\<close>.
  \<^item> \<open>Attacks\<close>: \<open>fl/zerotrust_fl/attacks/poisoning.py\<close>.
  \<^item> \<open>Privacy_RDP\<close>: \<open>fl/zerotrust_fl/privacy/rdp.py\<close>.
  \<^item> \<open>Worker\<close>: \<open>fl/zerotrust_fl/engine/worker.py\<close>.
  \<^item> \<open>Aggregation\<close>: the aggregation rules of \<open>fl/zerotrust_fl/engine/coordinator.py\<close>.
  \<^item> \<open>Native_Core\<close>: \<open>cpp/src/byzantine_aggregator.cpp\<close>, \<open>cpp/src/simd_distance.cpp\<close> and their bindings in
    \<open>cpp/src/aggregator_pybind.cpp\<close>. \<open>Native_Aggregators\<close>: \<open>fl/zerotrust_fl/aggregators/native_cpp.py\<close> and the
    launchers of \<open>cpp/src/cuda_aggregation.cu\<close>.
  \<^item> \<open>Coordinator\<close>: the rest of \<open>engine/coordinator.py\<close>. \<open>Round_Protocol\<close>: coordinator and workers together, as a
    step relation over their queues.
  \<^item> \<open>CKKS\<close>: \<open>fl/zerotrust_fl/privacy/ckks.py\<close>, \<open>cpp/src/ckks_secure_aggregation.cpp\<close> and its bindings.
  \<^item> \<open>Wire_Format\<close> and \<open>Grpc_Client\<close>: \<open>fl/zerotrust_fl/client/grpc_worker.py\<close>. \<open>Grpc_Worker\<close>:
    \<open>scripts/run_grpc_worker.py\<close>.
  \<^item> \<open>Models\<close>: \<open>fl/zerotrust_fl/engine/models.py\<close>. \<open>Simulation\<close>: \<open>scripts/run_fl_sim.py\<close>, on top of partitioner,
    attacks, privacy, networks and coordinator.
  \<^item> \<open>Orchestrator\<close>: the command line of \<open>main.py\<close>, its checks and the command lines of the children.
    \<open>Process_Manager\<close>: the rest of \<open>main.py\<close>, from the prerequisites to the exit code.

  \<^bold>\<open>How the code is translated.\<close> A dataclass or struct is a record, its \<open>__post_init__\<close> a function to \<open>unit res\<close>;
  a raise is \<open>Inl\<close> of an exception, and a step on mutable state returns the state together with the result, also
  when it raises. Floats are IEEE values and every operation rounds where the source rounds. PyTorch, NumPy, gRPC,
  TLS, SEAL and the operating system are arguments of the definitions: records of functions, with what their
  documentation promises stated by named predicates (\<open>sort_ok\<close>, \<open>numpy_ok\<close>, \<open>nth_ok\<close>, \<open>npy_ok\<close>, \<open>seal_ok\<close>,
  \<open>sim_choice_ok\<close>, \<open>signals_ok\<close>, \<open>clock_ok\<close>, \<open>\<dots>\<close>) that each have a concrete instance in a witness. The orchestrator
  is a program in a state monad with exceptions whose value \<open>None\<close> means that it does not return.

  \<^bold>\<open>What is shown.\<close>
  \<^item> Robust aggregation: median, trimmed mean and Krum keep to the honest updates in float32 arithmetic, for both
    backends; FedAvg is the weighted mean up to rounding; the backends agree where they should.
  \<^item> Model integrity: a delta is applied completely or not at all, the model stays finite through a run.
  \<^item> Rounds: completed, failed and late clients partition the selected ones, the quorum is validated, a run always
    closes its processes; the protocol never blocks on a queue and never loses track of a worker.
  \<^item> Workers answer every command once; honest updates are the parameter differences; attacks do what they say.
  \<^item> Privacy: a release is clipped and noised, the accountant is monotone and optimal over its orders.
  \<^item> Data: a partition gives every sample to exactly one client.
  \<^item> Encrypted aggregation decrypts to the weighted mean up to the ciphertext noise.
  \<^item> Network: the schema digest identifies the manifest, payloads survive the wire, envelopes are accepted exactly
    when consistent, every request of a session carries the granted identity, and everything a networked worker
    releases went through the privacy mechanism.
  \<^item> Simulation: the runner gives every sample to one of the requested workers and makes the announced number of them
    malicious, its network fits its data, the coordinator accepts its counts, and with the median rule a minority
    of attackers cannot move the model out of the honest range, from the command line to the applied delta.
  \<^item> Orchestration: runner and workers read back the configuration the orchestrator printed for them, up to one
    attacker that rounding can lose; no child process is left behind; exit code 0 means success; the waits end.

  \<^bold>\<open>Interfaces.\<close> \<open>validated_record\<close> (every configuration class), \<open>partition_scheme\<close> (IID and Dirichlet),
  \<open>hull_rule\<close> (median and trimmed mean, PyTorch and C++), \<open>krum_scheme\<close> (PyTorch, C++, CUDA), \<open>round_executor\<close>
  (the worker's round), \<open>prefix_code\<close> and \<open>nonempty_prefix_code\<close> (the parts of the schema encoding),
  \<open>client_operation\<close> and \<open>quiet_operation\<close> (the RPCs), \<open>manager_invariant\<close>, \<open>started_invariant\<close> and
  \<open>stoppable_invariant\<close> (what the steps of the process manager keep).

  \<^bold>\<open>Bounds.\<close> There is no fuel. A loop that a deadline ends runs over the list of the observations made before it,
  a retry loop over its attempts, a process over the messages or cycles it lives to see; other loops are structural
  or have a termination proof (\<open>encrypt_chunks\<close>, \<open>py_str_nat\<close>). The polling loops of the orchestrator are partial
  functions (\<open>wait_port_loop\<close>, \<open>health_loop\<close>, \<open>manager_wait\<close>) with a proof that they end when the clock advances.

  \<^bold>\<open>Not modelled.\<close> The Go programs (the coordinator service, its security, recovery and audit tooling): what the
  Python side needs of them arrives as replies and return codes, which are parameters. The telemetry classes and the
  wrapper \<open>scripts/run_master_training.py\<close> only observe a run and write what they saw to monitoring systems or a
  state file. The SDK \<open>fl/zerotrust_fl/sdk.py\<close> and the command line \<open>fl/zerotrust_fl/cli.py\<close> forward to the modelled
  client. Generated protocol code, benchmarks, release scripts and the web frontend. Of the CUDA code only the
  launchers are modelled, and of PyTorch networks only the shapes of their layers.
\<close>

end
